(* ===== verification/Prelude.thy ===== *)
theory Prelude
  imports Complex_Main "HOL-Library.Word" "HOL-Library.List_Lexorder"
    "HOL-Library.Product_Lexorder"
begin

text \<open>
  Shared vocabulary of the development: Python strings as lists of code points, the text
  predicates the source applies to them, UUIDs as 128-bit words, the guard chains that
  render the source's sequences of \<open>if ...: raise\<close>, table operations on lists of rows,
  and the generic lemmas that the component theories use through the simplifier.
\<close>

named_theorems table_simps
named_theorems guard_simps

section \<open>Python strings\<close>

text \<open>A Python \<open>str\<close> is its sequence of code points; \<open>len\<close> counts them, and \<open>sorted\<close>
  and \<open><\<close> on strings are the lexicographic order of the code points (\<open>List_Lexorder\<close>). The
  code points are Unicode scalar values: strings with lone surrogates, which the pydantic
  boundary refuses and which have no UTF-8 encoding, are outside the model.\<close>

type_synonym pystr = "nat list"

definition ascii :: "string \<Rightarrow> pystr" where
  "ascii s = map of_char s"

lemma ascii_eq_iff [simp]: "ascii s = ascii t \<longleftrightarrow> s = t"
proof -
  have "inj (of_char :: char \<Rightarrow> nat)"
    by (auto intro: injI)
  then show ?thesis
    unfolding ascii_def by (metis inj_map_eq_map)
qed

lemma length_ascii [simp]: "length (ascii s) = length s"
  by (simp add: ascii_def)

text \<open>\<open>str.isspace\<close> for one code point: the characters that \<open>str.strip()\<close> removes.\<close>

definition is_space :: "nat \<Rightarrow> bool" where
  "is_space c \<longleftrightarrow>
     9 \<le> c \<and> c \<le> 13 \<or> 28 \<le> c \<and> c \<le> 32 \<or> c = 133 \<or> c = 160 \<or> c = 5760 \<or>
     8192 \<le> c \<and> c \<le> 8202 \<or> c = 8232 \<or> c = 8233 \<or> c = 8239 \<or> c = 8287 \<or> c = 12288"

definition strip :: "pystr \<Rightarrow> pystr" where
  "strip s = rev (dropWhile is_space (rev (dropWhile is_space s)))"

definition valid_text :: "pystr \<Rightarrow> nat \<Rightarrow> bool" where
  "valid_text s maximum \<longleftrightarrow> s \<noteq> [] \<and> s = strip s \<and> length s \<le> maximum"

definition is_lower :: "nat \<Rightarrow> bool" where
  "is_lower c \<longleftrightarrow> 97 \<le> c \<and> c \<le> 122"

definition is_digit :: "nat \<Rightarrow> bool" where
  "is_digit c \<longleftrightarrow> 48 \<le> c \<and> c \<le> 57"

definition is_hex :: "nat \<Rightarrow> bool" where
  "is_hex c \<longleftrightarrow> is_digit c \<or> 97 \<le> c \<and> c \<le> 102"

text \<open>The pattern \<^verbatim>\<open>^[a-z][a-z0-9_]{0,62}$\<close>, matched against the whole string.\<close>

definition is_identifier :: "pystr \<Rightarrow> bool" where
  "is_identifier s =
     (case s of [] \<Rightarrow> False
      | c # cs \<Rightarrow> is_lower c \<and> length cs \<le> 62 \<and>
          list_all (\<lambda>x. is_lower x \<or> is_digit x \<or> x = 95) cs)"

text \<open>A SHA-256 hexadecimal digest: 64 characters of \<open>0123456789abcdef\<close>.\<close>

definition valid_digest :: "pystr \<Rightarrow> bool" where
  "valid_digest s \<longleftrightarrow> length s = 64 \<and> list_all is_hex s"

definition has_nul :: "pystr \<Rightarrow> bool" where
  "has_nul s \<longleftrightarrow> 0 \<in> set s"

definition starts_with :: "pystr \<Rightarrow> pystr \<Rightarrow> bool" where
  "starts_with p s \<longleftrightarrow> take (length p) s = p"

text \<open>The number of bytes of the UTF-8 encoding of a string.\<close>

definition utf8_width :: "nat \<Rightarrow> nat" where
  "utf8_width c = (if c < 128 then 1 else if c < 2048 then 2 else if c < 65536 then 3 else 4)"

definition utf8_length :: "pystr \<Rightarrow> nat" where
  "utf8_length s = sum_list (map utf8_width s)"

lemma utf8_length_le: "utf8_length s \<le> 4 * length s"
  by (induction s) (auto simp: utf8_length_def utf8_width_def)

lemma is_identifier_nonempty [simp]: "\<not> is_identifier []"
  by (simp add: is_identifier_def)

lemma is_identifier_length: "is_identifier s \<Longrightarrow> length s \<le> 63"
  by (auto simp: is_identifier_def split: list.splits)

section \<open>UUIDs\<close>

text \<open>\<open>uuid.UUID\<close> is a 128-bit integer; the source refuses the nil UUID (\<open>value.int == 0\<close>)
  and names a service store after the 32 hexadecimal digits of the service id.\<close>

type_synonym uuid = "128 word"

definition hex_digit :: "nat \<Rightarrow> nat" where
  "hex_digit d = (if d < 10 then 48 + d else 87 + d)"

fun hex_digits :: "nat \<Rightarrow> nat \<Rightarrow> pystr" where
  "hex_digits 0 n = []"
| "hex_digits (Suc k) n = hex_digits k (n div 16) @ [hex_digit (n mod 16)]"

definition uuid_hex :: "uuid \<Rightarrow> pystr" where
  "uuid_hex u = hex_digits 32 (unat u)"

definition svc_namespace :: "uuid \<Rightarrow> pystr" where
  "svc_namespace u = ascii ''svc_'' @ uuid_hex u"

lemma length_hex_digits [simp]: "length (hex_digits k n) = k"
  by (induction k arbitrary: n) auto

lemma hex_digit_inj: "d < 16 \<Longrightarrow> e < 16 \<Longrightarrow> hex_digit d = hex_digit e \<Longrightarrow> d = e"
  by (auto simp: hex_digit_def split: if_splits)

lemma hex_digits_inj:
  "m < 16 ^ k \<Longrightarrow> n < 16 ^ k \<Longrightarrow> hex_digits k m = hex_digits k n \<Longrightarrow> m = n"
proof (induction k arbitrary: m n)
  case (Suc k)
  have m: "m div 16 < 16 ^ k" and n: "n div 16 < 16 ^ k"
    using Suc.prems by (auto simp: less_mult_imp_div_less)
  from Suc.prems(3) have "hex_digits k (m div 16) = hex_digits k (n div 16)"
    and d: "hex_digit (m mod 16) = hex_digit (n mod 16)" by auto
  with Suc.IH m n have "m div 16 = n div 16" by blast
  moreover from d have "m mod 16 = n mod 16" by (rule hex_digit_inj [rotated 2]) auto
  ultimately show ?case by (metis div_mult_mod_eq)
qed simp

lemma hex_digits_hex: "list_all is_hex (hex_digits k n)"
  by (induction k arbitrary: n) (auto simp: is_hex_def is_digit_def hex_digit_def)

lemma uuid_hex_inj: "uuid_hex u = uuid_hex v \<Longrightarrow> u = v"
proof -
  assume eq: "uuid_hex u = uuid_hex v"
  have "unat w < 16 ^ 32" for w :: uuid using unsigned_less [of w] by simp
  then have "unat u < 16 ^ 32" "unat v < 16 ^ 32" by blast+
  with eq show "u = v" unfolding uuid_hex_def by (metis hex_digits_inj word_unat_eq_iff)
qed

lemma svc_namespace_inj [simp]: "svc_namespace u = svc_namespace v \<longleftrightarrow> u = v"
  by (auto simp: svc_namespace_def dest: uuid_hex_inj)

section \<open>Guard chains\<close>

text \<open>A block of \<open>if bad: raise E\<close> statements is the list of its conditions with their
  errors; the first condition that holds decides.\<close>

fun guards :: "(bool \<times> 'e) list \<Rightarrow> 'e option" where
  "guards [] = None"
| "guards ((bad, e) # gs) = (if bad then Some e else guards gs)"

definition construct :: "(bool \<times> 'e) list \<Rightarrow> 'a \<Rightarrow> 'e + 'a" where
  "construct gs x = (case guards gs of Some e \<Rightarrow> Inl e | None \<Rightarrow> Inr x)"

lemma guards_None_iff [guard_simps]: "guards gs = None \<longleftrightarrow> list_all (\<lambda>g. \<not> fst g) gs"
  by (induction gs rule: guards.induct) auto

lemma construct_Inr_iff [guard_simps]:
  "construct gs x = Inr y \<longleftrightarrow> y = x \<and> list_all (\<lambda>g. \<not> fst g) gs"
  by (auto simp: construct_def simp flip: guards_None_iff split: option.splits)

lemma construct_Inl_iff: "(\<exists>e. construct gs x = Inl e) \<longleftrightarrow> \<not> list_all (\<lambda>g. \<not> fst g) gs"
  by (auto simp: construct_def simp flip: guards_None_iff split: option.splits)

fun bind_sum :: "'e + 'a \<Rightarrow> ('a \<Rightarrow> 'e + 'b) \<Rightarrow> 'e + 'b" where
  "bind_sum (Inl e) f = Inl e"
| "bind_sum (Inr x) f = f x"

lemma bind_sum_Inr_iff [guard_simps]:
  "bind_sum m f = Inr y \<longleftrightarrow> (\<exists>x. m = Inr x \<and> f x = Inr y)"
  by (cases m) auto

text \<open>Validate the members of a list in order, stopping at the first error.\<close>

fun map_result :: "('a \<Rightarrow> 'e + 'b) \<Rightarrow> 'a list \<Rightarrow> 'e + 'b list" where
  "map_result f [] = Inr []"
| "map_result f (x # xs) =
     bind_sum (f x) (\<lambda>y. bind_sum (map_result f xs) (\<lambda>ys. Inr (y # ys)))"

lemma map_result_Inr_iff [guard_simps]:
  "map_result f xs = Inr ys \<longleftrightarrow> list_all2 (\<lambda>x y. f x = Inr y) xs ys"
proof (induction xs arbitrary: ys)
  case (Cons x xs)
  then show ?case by (auto simp: bind_sum_Inr_iff list_all2_Cons1)
qed auto

lemma map_result_id_iff:
  assumes "\<And>x y. f x = Inr y \<Longrightarrow> y = g x"
  shows "map_result f xs = Inr ys \<longleftrightarrow> ys = map g xs \<and> (\<forall>x \<in> set xs. f x = Inr (g x))"
proof (induction xs arbitrary: ys)
  case (Cons x xs)
  then show ?case using assms by (auto simp: bind_sum_Inr_iff)
qed auto

lemma map_result_map: "map_result f (map g xs) = map_result (\<lambda>x. f (g x)) xs"
  by (induction xs) simp_all

section \<open>Lists and tables\<close>

lemma find_Some_iff_first:
  "List.find P xs = Some x \<Longrightarrow> P x \<and> x \<in> set xs"
  by (auto simp: find_Some_iff)

lemma find_distinct_key [table_simps]:
  assumes "distinct (map k xs)" and "x \<in> set xs"
  shows "List.find (\<lambda>y. k y = k x) xs = Some x"
  using assms by (induction xs) (auto simp: rev_image_eqI)

lemma find_append [table_simps]:
  "List.find P (xs @ ys) = (case List.find P xs of None \<Rightarrow> List.find P ys | Some x \<Rightarrow> Some x)"
  by (induction xs) auto

text \<open>A table is the list of its rows. \<open>UPDATE ... WHERE p\<close> rewrites the rows that satisfy
  the condition, \<open>DELETE ... WHERE p\<close> removes them; \<open>rowcount\<close> is how many there were.\<close>

definition update_where :: "('r \<Rightarrow> bool) \<Rightarrow> ('r \<Rightarrow> 'r) \<Rightarrow> 'r list \<Rightarrow> 'r list" where
  "update_where p f rows = map (\<lambda>r. if p r then f r else r) rows"

definition delete_where :: "('r \<Rightarrow> bool) \<Rightarrow> 'r list \<Rightarrow> 'r list" where
  "delete_where p rows = filter (\<lambda>r. \<not> p r) rows"

definition rowcount :: "('r \<Rightarrow> bool) \<Rightarrow> 'r list \<Rightarrow> nat" where
  "rowcount p rows = length (filter p rows)"

lemma update_where_Nil [simp]: "update_where p f [] = []"
  by (simp add: update_where_def)

lemma update_where_keys [table_simps]:
  "(\<And>r. k (f r) = k r) \<Longrightarrow> map k (update_where p f rows) = map k rows"
  by (auto simp: update_where_def)

lemma set_update_where [table_simps]:
  "set (update_where p f rows) = (\<lambda>r. if p r then f r else r) ` set rows"
  by (simp add: update_where_def)

lemma set_delete_where [table_simps]: "set (delete_where p rows) = {r \<in> set rows. \<not> p r}"
  by (auto simp: delete_where_def)

lemma delete_where_keys: "distinct (map k rows) \<Longrightarrow> distinct (map k (delete_where p rows))"
  unfolding delete_where_def by (rule distinct_map_filter)

lemma find_update_where_other [table_simps]:
  assumes "\<And>r. q r \<Longrightarrow> \<not> p r" and "\<And>r. p r \<Longrightarrow> \<not> q (f r)"
  shows "List.find q (update_where p f rows) = List.find q rows"
  using assms by (induction rows) (auto simp: update_where_def)

lemma find_update_where_same:
  assumes "\<And>r. q (f r) = q r" and "\<And>r. q r \<Longrightarrow> p r"
  shows "List.find q (update_where p f rows) = map_option f (List.find q rows)"
  using assms by (induction rows) (auto simp: update_where_def)

lemma rowcount_0_iff [table_simps]: "rowcount p rows = 0 \<longleftrightarrow> (\<forall>r \<in> set rows. \<not> p r)"
  by (auto simp: rowcount_def filter_empty_conv)

lemma rowcount_key_le_1:
  assumes "distinct (map k rows)" and "\<And>r. p r \<Longrightarrow> k r = v"
  shows "rowcount p rows \<le> 1"
proof -
  have "distinct (map k (filter p rows))" using assms(1) by (rule distinct_map_filter)
  moreover have "set (map k (filter p rows)) \<subseteq> {v}" using assms(2) by auto
  then have "card (set (map k (filter p rows))) \<le> card {v}" by (intro card_mono) auto
  ultimately show ?thesis
    unfolding rowcount_def using distinct_card [of "map k (filter p rows)"] by simp
qed

lemma rowcount_1_iff_find:
  assumes "distinct (map k rows)" and "\<And>r. p r \<Longrightarrow> k r = v"
  shows "rowcount p rows = 1 \<longleftrightarrow> (\<exists>r \<in> set rows. p r)"
proof
  assume "\<exists>r \<in> set rows. p r"
  then have "rowcount p rows \<noteq> 0" by (auto simp: rowcount_0_iff)
  with rowcount_key_le_1 [of k rows p v] assms show "rowcount p rows = 1" by fastforce
next
  assume "rowcount p rows = 1"
  then have "rowcount p rows \<noteq> 0" by simp
  then show "\<exists>r \<in> set rows. p r" by (auto simp: rowcount_0_iff)
qed

lemma distinct_map_snoc [simp]:
  "distinct (map k (rows @ [r])) \<longleftrightarrow> distinct (map k rows) \<and> k r \<notin> k ` set rows"
  by auto

text \<open>Sorting by a key is stable and a permutation; where the keys are distinct, the result
  depends only on the set of elements.\<close>

lemma sort_key_distinct_unique:
  assumes "distinct (map k xs)" and "distinct (map k ys)" and "set xs = set ys"
  shows "sort_key k xs = sort_key k ys"
proof -
  have dx: "distinct xs" and dy: "distinct ys" using assms by (auto simp: distinct_map)
  have inj: "inj_on k (set xs)" using assms(1) by (simp add: distinct_map)
  have sx: "sorted (map k (sort_key k xs))" and sy: "sorted (map k (sort_key k ys))" by simp_all
  have "map k (sort_key k xs) = map k (sort_key k ys)"
  proof (rule sorted_distinct_set_unique)
    show "distinct (map k (sort_key k xs))" "distinct (map k (sort_key k ys))"
      using dx dy inj assms(3) by (simp_all add: distinct_map)
    show "set (map k (sort_key k xs)) = set (map k (sort_key k ys))" using assms(3) by simp
  qed (rule sx, rule sy)
  then show ?thesis
    using inj assms(3) by (auto dest!: map_injective [rotated] intro: map_inj_on)
qed

lemma sort_key_map:
  assumes "\<And>x. k (f x) = h x"
  shows "sort_key k (map f xs) = map f (sort_key h xs)"
proof -
  have "insort_key k (f x) (map f ys) = map f (insort_key h x ys)" for x ys
    by (induction ys) (simp_all add: assms)
  then show ?thesis by (induction xs) simp_all
qed

lemma sort_key_idem [simp]: "sort_key k (sort_key k xs) = sort_key k xs"
  by (rule sort_key_id_if_sorted) simp

text \<open>Lists built per element stay duplicate-free when a key tells the elements apart.\<close>

lemma distinct_concat_keyed:
  assumes "\<And>x. x \<in> set xs \<Longrightarrow> distinct (f x)" and "distinct (map g xs)"
    and "\<And>x c. x \<in> set xs \<Longrightarrow> c \<in> set (f x) \<Longrightarrow> k c = g x"
  shows "distinct (concat (map f xs))"
  using assms
proof (induction xs)
  case (Cons x xs)
  have "set (f x) \<inter> set (concat (map f xs)) = {}"
  proof (rule equals0I)
    fix c assume "c \<in> set (f x) \<inter> set (concat (map f xs))"
    then obtain y where y: "y \<in> set xs" "c \<in> set (f y)" "c \<in> set (f x)" by auto
    then have "g y = g x" using Cons.prems(3) [of x c] Cons.prems(3) [of y c] by simp
    with y(1) Cons.prems(2) show False by (auto simp: rev_image_eqI)
  qed
  with Cons show ?case by simp
qed simp

end
