(* ===== verification/Values.thy ===== *)
theory Values
  imports Prelude
begin

text \<open>
  Dynamic Python values as far as the program handles them: JSON scalars, arrays and objects,
  with the numeric domains of \<open>numeric_domain.py\<close>. A float is its exact rational value or one
  of the three non-finite values, so \<open>0.0\<close> and \<open>-0.0\<close>, which Python compares as equal, are one
  value. The second part is the interpreter interface: the digest of a canonical JSON
  document and the printable characters of the interpreter's Unicode tables.
\<close>

section \<open>JSON values\<close>

datatype pyfloat = Fin rat | PosInf | NegInf | NaN

datatype pyval =
    PNone
  | PBool bool
  | PInt int
  | PFloat pyfloat
  | PStr pystr
  | PList "pyval list"
  | PObj "(pystr \<times> pyval) list"

text \<open>Python's \<open>==\<close> between scalars: booleans, integers and finite floats compare by numeric
  value, a NaN is equal to nothing.\<close>

fun numeric_value :: "pyval \<Rightarrow> rat option" where
  "numeric_value (PBool b) = Some (if b then 1 else 0)"
| "numeric_value (PInt n) = Some (of_int n)"
| "numeric_value (PFloat (Fin q)) = Some q"
| "numeric_value _ = None"

definition py_eq :: "pyval \<Rightarrow> pyval \<Rightarrow> bool" where
  "py_eq v w =
     (case (numeric_value v, numeric_value w) of
        (Some a, Some b) \<Rightarrow> a = b
      | (None, None) \<Rightarrow> v = w \<and> v \<noteq> PFloat NaN
      | _ \<Rightarrow> False)"

definition py_in :: "pyval \<Rightarrow> pyval list \<Rightarrow> bool" where
  "py_in v ws \<longleftrightarrow> list_ex (py_eq v) ws"

lemma py_in_mono: "py_in v ws \<Longrightarrow> set ws \<subseteq> set ws' \<Longrightarrow> py_in v ws'"
  by (auto simp: py_in_def list_ex_iff)

section \<open>Numeric domains\<close>

definition SIGNED_64_MIN :: int where "SIGNED_64_MIN = - (2 ^ 63)"
definition SIGNED_64_MAX :: int where "SIGNED_64_MAX = 2 ^ 63 - 1"
definition IEEE_754_EXACT_INTEGER_MAX :: int where "IEEE_754_EXACT_INTEGER_MAX = 2 ^ 53"

fun is_signed_64_integer :: "pyval \<Rightarrow> bool" where
  "is_signed_64_integer (PInt n) = (SIGNED_64_MIN \<le> n \<and> n \<le> SIGNED_64_MAX)"
| "is_signed_64_integer _ = False"

fun is_finite_real :: "pyval \<Rightarrow> bool" where
  "is_finite_real (PFloat (Fin q)) = True"
| "is_finite_real _ = False"

fun is_exact_number :: "pyval \<Rightarrow> bool" where
  "is_exact_number (PInt n) =
     (- IEEE_754_EXACT_INTEGER_MAX \<le> n \<and> n \<le> IEEE_754_EXACT_INTEGER_MAX)"
| "is_exact_number v = is_finite_real v"

lemma exact_integer_is_signed_64:
  "is_exact_number (PInt n) \<Longrightarrow> is_signed_64_integer (PInt n)"
  by (simp add: IEEE_754_EXACT_INTEGER_MAX_def SIGNED_64_MIN_def SIGNED_64_MAX_def)

text \<open>\<open>_is_scalar_json\<close> of \<open>records.py\<close>.\<close>

fun is_scalar_json :: "pyval \<Rightarrow> bool" where
  "is_scalar_json PNone = True"
| "is_scalar_json (PStr s) = True"
| "is_scalar_json (PBool b) = True"
| "is_scalar_json (PInt n) = is_signed_64_integer (PInt n)"
| "is_scalar_json (PFloat f) = is_finite_real (PFloat f)"
| "is_scalar_json _ = False"

section \<open>The interpreter interface\<close>

text \<open>
  \<open>sha256_json\<close> is \<open>hashlib.sha256(json.dumps(payload, sort_keys=True, ...).encode())\<close>
  \<open>.hexdigest()\<close> as a function of the payload, \<open>printable\<close> is \<open>str.isprintable\<close> for one
  code point, \<open>float_repr\<close> is \<open>float.__repr__\<close> for a finite float, and \<open>iso_utc\<close> says whether
  \<open>datetime.fromisoformat\<close> accepts a text with the UTC zone. The operations that need them take the record as their first argument;
  \<open>runtime_ok\<close> states what is documented of them.
\<close>

record runtime =
  sha256_json :: "pyval \<Rightarrow> pystr"
  printable :: "nat \<Rightarrow> bool"
  float_repr :: "rat \<Rightarrow> pystr"
  iso_utc :: "pystr \<Rightarrow> bool"

definition runtime_ok :: "runtime \<Rightarrow> bool" where
  "runtime_ok rt \<longleftrightarrow>
     (\<forall>v. valid_digest (sha256_json rt v)) \<and>
     (\<forall>c. 32 \<le> c \<and> c \<le> 126 \<longrightarrow> printable rt c) \<and>
     (\<forall>c. c < 32 \<longrightarrow> \<not> printable rt c)"

definition is_printable :: "runtime \<Rightarrow> pystr \<Rightarrow> bool" where
  "is_printable rt s \<longleftrightarrow> list_all (printable rt) s"

lemma runtime_digest [simp]: "runtime_ok rt \<Longrightarrow> valid_digest (sha256_json rt v)"
  by (simp add: runtime_ok_def)

lemma identifier_printable: "runtime_ok rt \<Longrightarrow> is_identifier s \<Longrightarrow> is_printable rt s"
  by (auto simp: is_identifier_def runtime_ok_def is_printable_def list_all_iff is_lower_def
      is_digit_def split: list.splits)

lemma identifier_no_space: "is_identifier s \<Longrightarrow> c \<in> set s \<Longrightarrow> \<not> is_space c"
  by (auto simp: is_identifier_def list_all_iff is_lower_def is_digit_def is_space_def
      split: list.splits)

lemma strip_no_space: "(\<And>c. c \<in> set s \<Longrightarrow> \<not> is_space c) \<Longrightarrow> strip s = s"
proof -
  assume ns: "\<And>c. c \<in> set s \<Longrightarrow> \<not> is_space c"
  then have "dropWhile is_space s = s" "dropWhile is_space (rev s) = rev s"
    by (auto simp: dropWhile_eq_self_iff hd_rev)
  then show ?thesis by (simp add: strip_def)
qed

lemma identifier_valid_text: "is_identifier s \<Longrightarrow> 63 \<le> m \<Longrightarrow> valid_text s m"
  using strip_no_space [of s] identifier_no_space [of s] is_identifier_length [of s]
  by (auto simp: valid_text_def)

text \<open>A concrete interpreter for the witnesses: a constant digest and ASCII printability.\<close>

definition ascii_runtime :: runtime where
  "ascii_runtime =
     \<lparr>sha256_json = (\<lambda>v. replicate 64 48), printable = (\<lambda>c. 32 \<le> c \<and> c \<le> 126),
      float_repr = (\<lambda>q. ascii ''0.0''), iso_utc = (\<lambda>s. s = ascii ''2026-01-01T00:00:00+00:00'')\<rparr>"

lemma ascii_runtime_ok [simp]: "runtime_ok ascii_runtime"
  by (auto simp: runtime_ok_def ascii_runtime_def valid_digest_def list_all_iff is_hex_def
      is_digit_def)

end
