(* ===== verification/Digraph.thy ===== *)
theory Digraph
  imports Prelude
begin

text \<open>
  The depth-first cycle check that \<open>manifest_v2.py\<close> and \<open>relational.py\<close> each carry
  (\<open>_has_directed_cycle\<close> with its nested \<open>visit\<close>). The Python closure mutates two sets: the
  nodes on the current path (\<open>visiting\<close>/\<open>active\<close>) and the finished ones
  (\<open>visited\<close>/\<open>complete\<close>). A call that returns \<open>False\<close> leaves the path set as it found it and
  a call that returns \<open>True\<close> ends the whole search, so the path is an argument here and only
  the finished nodes are threaded. The search terminates because each level adds a node that
  has successors to the path.
\<close>

type_synonym 'a adjacency = "('a \<times> 'a list) list"

definition successors :: "'a adjacency \<Rightarrow> 'a \<Rightarrow> 'a list" where
  "successors adj n = (case map_of adj n of None \<Rightarrow> [] | Some ts \<Rightarrow> ts)"

definition edges_of :: "'a adjacency \<Rightarrow> ('a \<times> 'a) set" where
  "edges_of adj = {(n, t). t \<in> set (successors adj n)}"

lemma successors_key: "successors adj n \<noteq> [] \<Longrightarrow> n \<in> fst ` set adj"
  by (auto simp: successors_def split: option.splits dest: map_of_SomeD intro: rev_image_eqI)

function visit :: "'a adjacency \<Rightarrow> 'a list \<Rightarrow> 'a list \<Rightarrow> 'a \<Rightarrow> bool \<times> 'a list"
  and visit_any :: "'a adjacency \<Rightarrow> 'a list \<Rightarrow> 'a list \<Rightarrow> 'a list \<Rightarrow> bool \<times> 'a list" where
  "visit adj active finished n =
     (if n \<in> set active then (True, finished)
      else if n \<in> set finished then (False, finished)
      else (case visit_any adj (n # active) finished (successors adj n) of
              (True, c) \<Rightarrow> (True, c)
            | (False, c) \<Rightarrow> (False, n # c)))"
| "visit_any adj active finished [] = (False, finished)"
| "visit_any adj active finished (t # ts) =
     (case visit adj active finished t of
        (True, c) \<Rightarrow> (True, c)
      | (False, c) \<Rightarrow> visit_any adj active c ts)"
  by pat_completeness auto

termination
proof (relation "inv_image (less_than <*lex*> less_than)
    (\<lambda>x. case x of
       Inl (adj, active, finished, n) \<Rightarrow> (card (fst ` set adj - set active), 1 :: nat)
     | Inr (adj, active, finished, ts) \<Rightarrow>
         (card (fst ` set adj - set active), if ts = [] then 0 else Suc (length ts)))")
  fix adj :: "'a adjacency" and active finished :: "'a list" and n :: 'a
  assume n: "n \<notin> set active"
  have sub: "fst ` set adj - set (n # active) \<subseteq> fst ` set adj - set active" by auto
  then have le: "card (fst ` set adj - set (n # active)) \<le> card (fst ` set adj - set active)"
    by (intro card_mono) auto
  have lt: "card (fst ` set adj - set (n # active)) < card (fst ` set adj - set active)"
    if "n \<in> fst ` set adj"
    using that n sub by (intro psubset_card_mono) auto
  show "(Inr (adj, n # active, finished, successors adj n), Inl (adj, active, finished, n))
    \<in> inv_image (less_than <*lex*> less_than)
    (\<lambda>x. case x of
       Inl (adj, active, finished, n) \<Rightarrow> (card (fst ` set adj - set active), 1 :: nat)
     | Inr (adj, active, finished, ts) \<Rightarrow>
         (card (fst ` set adj - set active), if ts = [] then 0 else Suc (length ts)))"
    using le lt successors_key [of adj n] by (cases "n \<in> fst ` set adj") auto
qed auto

declare visit.simps [simp del]

definition has_directed_cycle :: "'a adjacency \<Rightarrow> bool" where
  "has_directed_cycle adj = fst (visit_any adj [] [] (map fst adj))"

section \<open>A positive answer exhibits a cycle\<close>

text \<open>The path is a chain of edges, last node first.\<close>

fun chain :: "('a \<times> 'a) set \<Rightarrow> 'a list \<Rightarrow> bool" where
  "chain E (y # x # xs) = ((x, y) \<in> E \<and> chain E (x # xs))"
| "chain E xs = True"

lemma chain_reaches:
  "chain E (y # xs) \<Longrightarrow> x \<in> set (y # xs) \<Longrightarrow> (x, y) \<in> E\<^sup>*"
proof (induction xs arbitrary: y)
  case (Cons z zs)
  then have zy: "(z, y) \<in> E" and cz: "chain E (z # zs)" by auto
  show ?case
  proof (cases "x = y")
    case False
    with Cons.prems have "x \<in> set (z # zs)" by auto
    with Cons.IH [OF cz] have "(x, z) \<in> E\<^sup>*" by blast
    then show ?thesis using zy by (rule rtrancl_into_rtrancl)
  qed simp
qed simp

lemma visit_True_cycle:
  "fst (visit adj active finished n) \<Longrightarrow> chain (edges_of adj) (n # active) \<Longrightarrow>
     \<exists>x. (x, x) \<in> (edges_of adj)\<^sup>+"
  "fst (visit_any adj active finished ts) \<Longrightarrow> chain (edges_of adj) active \<Longrightarrow>
     (\<And>t. t \<in> set ts \<Longrightarrow> active = [] \<or> (hd active, t) \<in> edges_of adj) \<Longrightarrow>
     \<exists>x. (x, x) \<in> (edges_of adj)\<^sup>+"
proof (induction adj active finished n and adj active finished ts rule: visit_visit_any.induct)
  case (1 adj active finished n)
  show ?case
  proof (cases "n \<in> set active")
    case True
    then obtain a as where active: "active = a # as" by (cases active) auto
    with "1.prems"(2) have edge: "(a, n) \<in> edges_of adj" and ch: "chain (edges_of adj) (a # as)"
      by auto
    from chain_reaches [OF ch] True active have "(n, a) \<in> (edges_of adj)\<^sup>*" by simp
    with edge show ?thesis by (meson rtrancl_into_trancl1)
  next
    case False
    with "1.prems" have "n \<notin> set finished"
      "fst (visit_any adj (n # active) finished (successors adj n))"
      by (auto simp: visit.simps [of adj active finished n] split: if_splits prod.splits bool.splits)
    with "1.IH" False "1.prems"(2) show ?thesis by (auto simp: edges_of_def)
  qed
next
  case (3 adj active finished t ts)
  obtain b c where v: "visit adj active finished t = (b, c)" by fastforce
  show ?case
  proof (cases b)
    case True
    have "chain (edges_of adj) (t # active)"
      using "3.prems"(2) "3.prems"(3) [of t] by (cases active) auto
    with "3.IH"(1) v True show ?thesis by simp
  next
    case False
    with v "3.prems" have "fst (visit_any adj active c ts)" by simp
    with "3.IH"(2) v False "3.prems"(2,3) show ?thesis by simp
  qed
qed simp

section \<open>A negative answer certifies the finished nodes\<close>

definition cleared :: "('a \<times> 'a) set \<Rightarrow> 'a set \<Rightarrow> bool" where
  "cleared E S \<longleftrightarrow> (\<forall>x \<in> S. (\<forall>y. (x, y) \<in> E \<longrightarrow> y \<in> S) \<and> (x, x) \<notin> E\<^sup>+)"

lemma cleared_closed: "(x, y) \<in> E\<^sup>* \<Longrightarrow> cleared E S \<Longrightarrow> x \<in> S \<Longrightarrow> y \<in> S"
  by (induction rule: rtrancl_induct) (auto simp: cleared_def)

lemma cleared_insert:
  assumes S: "cleared E S" and n: "n \<notin> S" and succ: "\<And>y. (n, y) \<in> E \<Longrightarrow> y \<in> S"
  shows "cleared E (insert n S)"
proof -
  have "(n, n) \<notin> E\<^sup>+"
  proof
    assume "(n, n) \<in> E\<^sup>+"
    then obtain z where "(n, z) \<in> E" "(z, n) \<in> E\<^sup>*" by (meson tranclD)
    then have "n \<in> S" using succ S by (blast intro: cleared_closed)
    with n show False ..
  qed
  with assms show ?thesis by (auto simp: cleared_def)
qed

lemma visit_False_cleared:
  "visit adj active finished n = (False, c) \<Longrightarrow> cleared (edges_of adj) (set finished) \<Longrightarrow>
     set active \<inter> set finished = {} \<Longrightarrow>
     set finished \<subseteq> set c \<and> n \<in> set c \<and> cleared (edges_of adj) (set c) \<and> set active \<inter> set c = {}"
  "visit_any adj active finished ts = (False, c) \<Longrightarrow> cleared (edges_of adj) (set finished) \<Longrightarrow>
     set active \<inter> set finished = {} \<Longrightarrow>
     set finished \<subseteq> set c \<and> set ts \<subseteq> set c \<and> cleared (edges_of adj) (set c) \<and>
     set active \<inter> set c = {}"
proof (induction adj active finished n and adj active finished ts arbitrary: c and c
    rule: visit_visit_any.induct)
  case (1 adj active finished n)
  show ?case
  proof (cases "n \<in> set finished")
    case True
    with "1.prems" show ?thesis
      by (auto simp: visit.simps [of adj active finished n] split: if_splits)
  next
    case False
    with "1.prems"(1) obtain c' where n: "n \<notin> set active" and c: "c = n # c'"
      and rec: "visit_any adj (n # active) finished (successors adj n) = (False, c')"
      by (auto simp: visit.simps [of adj active finished n] split: if_splits prod.splits bool.splits)
    have "set finished \<subseteq> set c' \<and> set (successors adj n) \<subseteq> set c' \<and>
        cleared (edges_of adj) (set c') \<and> set (n # active) \<inter> set c' = {}"
      using "1.IH" [OF n False rec "1.prems"(2)] "1.prems"(3) False by simp
    moreover from this have "cleared (edges_of adj) (insert n (set c'))"
      by (intro cleared_insert) (auto simp: edges_of_def)
    ultimately show ?thesis using c n by auto
  qed
next
  case (3 adj active finished t ts)
  from "3.prems"(1) obtain c' where v: "visit adj active finished t = (False, c')"
    and r: "visit_any adj active c' ts = (False, c)"
    by (auto split: prod.splits bool.splits)
  have first: "set finished \<subseteq> set c' \<and> t \<in> set c' \<and> cleared (edges_of adj) (set c') \<and>
      set active \<inter> set c' = {}"
    using "3.IH"(1) [OF v "3.prems"(2,3)] .
  then have "set c' \<subseteq> set c \<and> set ts \<subseteq> set c \<and> cleared (edges_of adj) (set c) \<and>
      set active \<inter> set c = {}"
    using "3.IH"(2) [OF v [symmetric] refl r] by simp
  with first show ?case by auto
qed simp

theorem has_directed_cycle_iff: "has_directed_cycle adj \<longleftrightarrow> \<not> acyclic (edges_of adj)"
proof
  assume "has_directed_cycle adj"
  then have "\<exists>x. (x, x) \<in> (edges_of adj)\<^sup>+"
    unfolding has_directed_cycle_def by (rule visit_True_cycle(2)) auto
  then show "\<not> acyclic (edges_of adj)" by (auto simp: acyclic_def)
next
  assume "\<not> acyclic (edges_of adj)"
  then obtain x where x: "(x, x) \<in> (edges_of adj)\<^sup>+" by (auto simp: acyclic_def)
  show "has_directed_cycle adj"
  proof (rule ccontr)
    assume "\<not> has_directed_cycle adj"
    then obtain c where "visit_any adj [] [] (map fst adj) = (False, c)"
      by (cases "visit_any adj [] [] (map fst adj)") (auto simp: has_directed_cycle_def)
    from visit_False_cleared(2) [OF this]
    have keys: "fst ` set adj \<subseteq> set c" and c: "cleared (edges_of adj) (set c)"
      by (auto simp: cleared_def)
    from tranclD [OF x] obtain y where "(x, y) \<in> edges_of adj" by blast
    then have "successors adj x \<noteq> []" by (auto simp: edges_of_def)
    then have "x \<in> set c" using keys successors_key [of adj x] by blast
    with c x show False by (auto simp: cleared_def)
  qed
qed

text \<open>Two adjacency tables with the same edges get the same answer, whatever the order in
  which a Python set or dictionary is iterated.\<close>

lemma has_directed_cycle_cong:
  "edges_of adj = edges_of adj' \<Longrightarrow> has_directed_cycle adj = has_directed_cycle adj'"
  by (simp add: has_directed_cycle_iff)

end
