(* ===== verification/Manifest_Spec.thy ===== *)
theory Manifest_Spec
  imports Manifest
begin

text \<open>
  What a valid manifest is, stated without the validator's control flow: uniqueness of
  names, references that resolve, the declared server-managed fields, a continuous history
  and an acyclic graph of required relationships. The main theorem shows that
  \<open>model_validate\<close> accepts exactly the documents with these properties and returns them
  unchanged; the lemmas after it are what the relational and record compilers rely on.
\<close>

section \<open>The declarative specification\<close>

definition resolves :: "entity_def list \<Rightarrow> pystr \<Rightarrow> pystr \<Rightarrow> attribute_def \<Rightarrow> bool" where
  "resolves es entity field a \<longleftrightarrow>
     (\<exists>e \<in> set es. en_name e = entity \<and> a \<in> set (en_attributes e) \<and> at_name a = field)"

definition allowed_values_spec :: "logical_type \<Rightarrow> pyval list \<Rightarrow> bool" where
  "allowed_values_spec ty vs \<longleftrightarrow>
     1 \<le> length vs \<and> length vs \<le> 32 \<and> distinct vs \<and>
     (\<forall>v \<in> set vs. allowed_value_matches_type v ty \<and>
        (\<forall>s. v = PStr s \<longrightarrow> 1 \<le> length s \<and> length s \<le> 96 \<and> 0 \<notin> set s))"

definition attribute_spec :: "attribute_def \<Rightarrow> bool" where
  "attribute_spec a \<longleftrightarrow>
     is_identifier (at_name a) \<and> bounded_opt 500 (at_description a) \<and>
     (at_primary_key a \<longrightarrow> at_required a) \<and>
     (\<forall>vs. at_allowed_values a = Some vs \<longrightarrow> allowed_values_spec (at_type a) vs) \<and>
     (at_retrieval_mode a = Some Membership \<longrightarrow> at_type a = TStringList) \<and>
     (at_retrieval_mode a = Some Annotation \<longrightarrow> at_type a = TString)"

definition entity_spec :: "entity_def \<Rightarrow> bool" where
  "entity_spec e \<longleftrightarrow>
     is_identifier (en_name e) \<and> 6 \<le> length (en_attributes e) \<and>
     length (en_attributes e) \<le> MAX_ATTRIBUTES_PER_ENTITY \<and> bounded_opt 1000 (en_description e) \<and>
     (\<forall>a \<in> set (en_attributes e). attribute_spec a) \<and>
     distinct (map at_name (en_attributes e)) \<and>
     (\<forall>x \<in> set SERVER_MANAGED_FIELDS.
        \<exists>a \<in> set (en_attributes e). at_name a = fst x \<and> server_declaration a x) \<and>
     (\<forall>a \<in> set (en_attributes e). at_primary_key a \<longrightarrow> at_name a = ascii ''id'')"

definition relationship_spec :: "entity_def list \<Rightarrow> relationship_def \<Rightarrow> bool" where
  "relationship_spec es r \<longleftrightarrow>
     (\<exists>s t. resolves es (ep_entity (re_from r)) (ep_field (re_from r)) s \<and>
            resolves es (ep_entity (re_to r)) (ep_field (re_to r)) t \<and>
            at_type s = TUuid \<and> \<not> at_primary_key s \<and> \<not> is_server_field (ep_field (re_from r)) \<and>
            ep_field (re_to r) = ascii ''id'' \<and> at_type t = TUuid \<and> at_primary_key t)"

definition required_edges ::
  "entity_def list \<Rightarrow> relationship_def list \<Rightarrow> (pystr \<times> pystr) set" where
  "required_edges es rs =
     {(ep_entity (re_from r), ep_entity (re_to r)) | r a.
        r \<in> set rs \<and> resolves es (ep_entity (re_from r)) (ep_field (re_from r)) a \<and> at_required a}"

definition index_spec :: "index_def \<Rightarrow> bool" where
  "index_spec i \<longleftrightarrow> is_identifier (ix_name i) \<and> length (ix_name i) \<le> 48 \<and>
     is_identifier (ix_entity i) \<and> (\<forall>f \<in> set (ix_fields i). is_identifier f) \<and>
     1 \<le> length (ix_fields i) \<and> length (ix_fields i) \<le> 8 \<and> distinct (ix_fields i)"

definition names_spec :: "manifest \<Rightarrow> bool" where
  "names_spec m \<longleftrightarrow>
     distinct (map en_name (ma_entities m)) \<and> distinct (map re_name (ma_relationships m)) \<and>
     distinct (map ix_name (ma_indices m)) \<and>
     en_name ` set (ma_entities m) \<inter> ix_name ` set (ma_indices m) = {} \<and>
     (\<forall>e \<in> set (ma_entities m). \<not> is_sqlite_reserved (en_name e)) \<and>
     (\<forall>i \<in> set (ma_indices m). \<not> is_sqlite_reserved (ix_name i)) \<and>
     distinct (map index_definition (ma_indices m)) \<and>
     distinct (map relationship_source (ma_relationships m)) \<and>
     distinct (map facet_key (ma_discovery_facets m))"

definition history_spec :: "manifest \<Rightarrow> bool" where
  "history_spec m \<longleftrightarrow>
     int (length (ma_migration_history m)) = ma_schema_version m - 1 \<and>
     (\<forall>i < length (ma_migration_history m).
        hi_from (ma_migration_history m ! i) = int i + 1 \<and>
        hi_to (ma_migration_history m ! i) = int i + 2) \<and>
     (\<forall>h \<in> set (ma_migration_history m). 1 \<le> length (hi_operations h) \<and>
        length (hi_operations h) \<le> 32 \<and>
        (\<forall>s \<in> set (hi_operations h). 1 \<le> length s \<and> length s \<le> 240))"

definition manifest_spec :: "manifest \<Rightarrow> bool" where
  "manifest_spec m \<longleftrightarrow>
     manifest_fields_ok m \<and> history_spec m \<and> names_spec m \<and>
     (\<forall>e \<in> set (ma_entities m). entity_spec e) \<and>
     (\<forall>r \<in> set (ma_relationships m). is_identifier (re_name r) \<and> length (re_name r) \<le> 48 \<and>
        endpoint_ok (re_from r) \<and> endpoint_ok (re_to r) \<and>
        relationship_spec (ma_entities m) r) \<and>
     (\<forall>i \<in> set (ma_indices m). index_spec i \<and>
        (\<forall>f \<in> set (ix_fields i). \<exists>a. resolves (ma_entities m) (ix_entity i) f a \<and>
           at_type a \<noteq> TStringList)) \<and>
     (\<forall>f \<in> set (ma_discovery_facets m). is_identifier (fa_entity f) \<and> is_identifier (fa_field f) \<and>
        (\<exists>a. resolves (ma_entities m) (fa_entity f) (fa_field f) a)) \<and>
     acyclic (required_edges (ma_entities m) (ma_relationships m))"

section \<open>Component validators\<close>

lemma scalar_of_match: "allowed_value_matches_type v ty \<Longrightarrow> is_allowed_scalar v \<and> v \<noteq> PFloat NaN"
  by (cases v; cases ty) (auto elim: is_finite_real.elims)

lemma typed_distinct_of_match:
  assumes "list_all (\<lambda>v. allowed_value_matches_type v ty) vs"
  shows "typed_distinct vs = distinct vs"
proof -
  have "filter (\<lambda>v. v \<noteq> PFloat NaN) vs = vs"
    using assms scalar_of_match by (auto simp: list_all_iff filter_id_conv)
  then show ?thesis by (simp add: typed_distinct_def)
qed

lemma is_str_iff: "is_str v \<longleftrightarrow> (\<exists>s. v = PStr s)"
  by (cases v) auto

lemma allowed_values_guards_iff:
  "list_all (\<lambda>g. \<not> fst g) (allowed_values_guards ty vs) \<and> 1 \<le> length vs \<and> length vs \<le> 32 \<and>
     list_all is_allowed_scalar vs \<longleftrightarrow> allowed_values_spec ty vs"
proof (cases "list_all (\<lambda>v. allowed_value_matches_type v ty) vs")
  case True
  then have exact: "ty = TNumber \<Longrightarrow> v \<in> set vs \<Longrightarrow> is_exact_number v" for v
    by (auto simp: list_all_iff)
  have sc: "list_all is_allowed_scalar vs"
    using True scalar_of_match by (auto simp: list_all_iff)
  from True sc show ?thesis
    by (auto simp: allowed_values_guards_def allowed_values_spec_def typed_distinct_of_match
        list_all_iff list_ex_iff is_str_iff has_nul_def Suc_le_eq dest: exact)
next
  case False
  then show ?thesis by (auto simp: allowed_values_guards_def allowed_values_spec_def list_all_iff)
qed

lemma validate_attribute_iff:
  "validate_attribute a = Inr b \<longleftrightarrow> b = a \<and> attribute_spec a"
proof (cases "at_allowed_values a")
  case None
  then show ?thesis
    by (auto simp: validate_attribute_def validate_type_metadata_def attribute_fields_ok_def
        attribute_spec_def guard_simps)
next
  case (Some vs)
  have "attribute_spec a \<longleftrightarrow> is_identifier (at_name a) \<and> bounded_opt 500 (at_description a) \<and>
     (at_primary_key a \<longrightarrow> at_required a) \<and> allowed_values_spec (at_type a) vs \<and>
     (at_retrieval_mode a = Some Membership \<longrightarrow> at_type a = TStringList) \<and>
     (at_retrieval_mode a = Some Annotation \<longrightarrow> at_type a = TString)"
    using Some by (simp add: attribute_spec_def)
  with Some show ?thesis
    unfolding validate_attribute_def validate_type_metadata_def attribute_fields_ok_def
    by (auto simp: guard_simps simp flip: allowed_values_guards_iff)
qed

lemma find_by_name_iff:
  assumes "distinct (map k xs)"
  shows "List.find (\<lambda>x. k x = n) xs = Some x \<longleftrightarrow> x \<in> set xs \<and> k x = n"
  using assms find_distinct_key [of k xs x] by (auto dest: find_Some_iff_first)

lemma server_field_guards_iff:
  assumes "distinct (map at_name attrs)"
  shows "list_all (\<lambda>g. \<not> fst g) (server_field_guards attrs) \<longleftrightarrow>
    (\<forall>x \<in> set SERVER_MANAGED_FIELDS. \<exists>a \<in> set attrs. at_name a = fst x \<and> server_declaration a x)"
proof -
  have one: "list_all (\<lambda>g. \<not> fst g)
      (case List.find (\<lambda>a. at_name a = fst x) attrs of
          None \<Rightarrow> [(True, MissingServerField (fst x))]
        | Some a \<Rightarrow> [(\<not> server_declaration a x, ServerFieldMismatch (fst x))]) \<longleftrightarrow>
      (\<exists>a \<in> set attrs. at_name a = fst x \<and> server_declaration a x)" for x
  proof (cases "List.find (\<lambda>a. at_name a = fst x) attrs")
    case None
    then have "\<forall>a \<in> set attrs. at_name a \<noteq> fst x" by (auto simp: find_None_iff)
    with None show ?thesis by simp
  next
    case (Some a)
    then have "b = a" if "b \<in> set attrs" "at_name b = fst x" for b
      using that find_by_name_iff [OF assms, of "fst x" b] by simp
    moreover from Some have "a \<in> set attrs" "at_name a = fst x"
      by (auto dest: find_Some_iff_first)
    ultimately have "(\<exists>b \<in> set attrs. at_name b = fst x \<and> server_declaration b x) \<longleftrightarrow>
        server_declaration a x" by blast
    with Some show ?thesis by simp
  qed
  have many: "list_all (\<lambda>g. \<not> fst g) (concat (map f xs)) \<longleftrightarrow>
      (\<forall>x \<in> set xs. list_all (\<lambda>g. \<not> fst g) (f x))"
    for xs and f :: "pystr \<times> logical_type \<times> bool \<times> bool \<Rightarrow> (bool \<times> manifest_error) list"
    by (induction xs) auto
  show ?thesis unfolding server_field_guards_def many one ..
qed

lemma validate_entity_iff: "validate_entity e = Inr e' \<longleftrightarrow> e' = e \<and> entity_spec e"
proof -
  have attrs: "(\<exists>ys. map_result validate_attribute xs = Inr ys) \<longleftrightarrow> (\<forall>a \<in> set xs. attribute_spec a)"
    for xs
    using map_result_id_iff [of validate_attribute "\<lambda>x. x" xs] by (auto simp: validate_attribute_iff)
  show ?thesis
  proof (cases "distinct (map at_name (en_attributes e))")
    case True
    then show ?thesis
      using attrs [of "en_attributes e"]
      by (auto simp: validate_entity_def validate_server_managed_fields_def guard_simps
          entity_spec_def server_field_guards_iff list_ex_iff simp del: map_result.simps)
  next
    case False
    then show ?thesis
      by (auto simp: validate_entity_def validate_server_managed_fields_def guard_simps
          entity_spec_def)
  qed
qed

lemma validate_index_iff: "validate_index i = Inr j \<longleftrightarrow> j = i \<and> index_spec i"
  by (auto simp: validate_index_def index_spec_def guard_simps list_all_iff)

lemma validate_relationship_iff:
  "validate_relationship r = Inr r' \<longleftrightarrow> r' = r \<and> is_identifier (re_name r) \<and>
     length (re_name r) \<le> 48 \<and> endpoint_ok (re_from r) \<and> endpoint_ok (re_to r)"
  by (auto simp: validate_relationship_def)

lemma validate_facet_iff:
  "validate_facet f = Inr f' \<longleftrightarrow> f' = f \<and> is_identifier (fa_entity f) \<and> is_identifier (fa_field f)"
  by (auto simp: validate_facet_def)

lemma continuous_history_iff:
  "continuous_history k hs \<longleftrightarrow>
     (\<forall>i < length hs. hi_from (hs ! i) = k + int i \<and> hi_to (hs ! i) = k + int i + 1)"
proof (induction hs arbitrary: k)
  case (Cons h hs)
  then show ?case by (auto simp: All_less_Suc2)
qed simp

section \<open>References\<close>

lemma attribute_for_iff:
  assumes "distinct (map en_name es)" and "\<forall>e \<in> set es. distinct (map at_name (en_attributes e))"
  shows "attribute_for es entity field = Inr a \<longleftrightarrow> resolves es entity field a"
proof
  assume "attribute_for es entity field = Inr a"
  then obtain e where "find_entity es entity = Some e"
    and "List.find (\<lambda>a. at_name a = field) (en_attributes e) = Some a"
    by (auto simp: attribute_for_def split: option.splits)
  then show "resolves es entity field a"
    unfolding resolves_def find_entity_def by (auto dest!: find_Some_iff_first)
next
  assume "resolves es entity field a"
  then obtain e where e: "e \<in> set es" "en_name e = entity"
    and a: "a \<in> set (en_attributes e)" "at_name a = field"
    by (auto simp: resolves_def)
  from e assms(1) have "find_entity es entity = Some e"
    by (simp add: find_entity_def find_by_name_iff)
  moreover from a assms(2) e(1) have "List.find (\<lambda>a. at_name a = field) (en_attributes e) = Some a"
    by (simp add: find_by_name_iff)
  ultimately show "attribute_for es entity field = Inr a" by (simp add: attribute_for_def)
qed

lemma resolves_unique:
  assumes "distinct (map en_name es)" and "\<forall>e \<in> set es. distinct (map at_name (en_attributes e))"
    and "resolves es entity field a" and "resolves es entity field b"
  shows "a = b"
  using attribute_for_iff [OF assms(1,2), of entity field] assms(3,4) by (metis sum.inject(2))

lemma edges_of_adjacency: "edges_of (adjacency edges) = set edges"
proof -
  have *: "t \<in> set (successors (adjacency edges) s) \<longleftrightarrow> (s, t) \<in> set edges" for s t
  proof (cases "s \<in> fst ` set edges")
    case True
    then have "map_of (adjacency edges) s =
        Some (sort (remdups (map snd (filter (\<lambda>e. fst e = s) edges))))"
      by (simp add: adjacency_def map_of_map_restrict)
    then show ?thesis by (force simp: successors_def)
  next
    case False
    then have "map_of (adjacency edges) s = None"
      by (simp add: adjacency_def map_of_map_restrict)
    with False show ?thesis by (force simp: successors_def)
  qed
  then show ?thesis by (auto simp: edges_of_def)
qed

lemma manifest_has_directed_cycle_iff:
  "manifest_has_directed_cycle edges \<longleftrightarrow> \<not> acyclic (set edges)"
  by (simp add: manifest_has_directed_cycle_def has_directed_cycle_iff edges_of_adjacency)

definition required_edge :: "entity_def list \<Rightarrow> relationship_def \<Rightarrow> (pystr \<times> pystr) list" where
  "required_edge es r =
     (case attribute_for es (ep_entity (re_from r)) (ep_field (re_from r)) of
        Inl _ \<Rightarrow> []
      | Inr a \<Rightarrow> if at_required a then [(ep_entity (re_from r), ep_entity (re_to r))] else [])"

lemma check_relationship_iff:
  assumes "distinct (map en_name es)" and "\<forall>e \<in> set es. distinct (map at_name (en_attributes e))"
  shows "check_relationship es r = Inr ed \<longleftrightarrow> ed = required_edge es r \<and> relationship_spec es r"
proof -
  have "re_from r \<noteq> re_to r" if "relationship_spec es r"
  proof
    assume eq: "re_from r = re_to r"
    from that obtain s t where "resolves es (ep_entity (re_from r)) (ep_field (re_from r)) s"
      "resolves es (ep_entity (re_to r)) (ep_field (re_to r)) t"
      "\<not> at_primary_key s" "at_primary_key t"
      by (auto simp: relationship_spec_def)
    with eq resolves_unique [OF assms] show False by metis
  qed
  then show ?thesis
    by (auto simp: check_relationship_def guard_simps attribute_for_iff [OF assms]
        relationship_spec_def required_edge_def split: sum.splits)
      (auto simp flip: attribute_for_iff [OF assms])
qed

lemma required_edges_set:
  assumes "distinct (map en_name es)" and "\<forall>e \<in> set es. distinct (map at_name (en_attributes e))"
  shows "set (concat (map (required_edge es) rs)) = required_edges es rs"
proof -
  have "x \<in> set (required_edge es r) \<longleftrightarrow>
      (\<exists>a. resolves es (ep_entity (re_from r)) (ep_field (re_from r)) a \<and> at_required a \<and>
        x = (ep_entity (re_from r), ep_entity (re_to r)))" for r x
    by (cases "attribute_for es (ep_entity (re_from r)) (ep_field (re_from r))")
      (auto simp: required_edge_def simp flip: attribute_for_iff [OF assms])
  then show ?thesis unfolding required_edges_def set_concat set_map by blast
qed

section \<open>The validator implements the specification\<close>

lemma map_result_total:
  assumes "\<And>x y. f x = Inr y \<Longrightarrow> y = g x"
  shows "(\<exists>ys. map_result f xs = Inr ys) \<longleftrightarrow> (\<forall>x \<in> set xs. f x = Inr (g x))"
  using map_result_id_iff [of f g xs] assms by simp

lemma history_iff:
  assumes "\<forall>h \<in> set hs. 1 \<le> length (hi_operations h)"
  shows "continuous_history 1 hs \<longleftrightarrow>
    (\<forall>i < length hs. hi_from (hs ! i) = int i + 1 \<and> hi_to (hs ! i) = int i + 2)"
  by (simp add: continuous_history_iff algebra_simps)

lemma validate_history_of_continuous:
  assumes "\<forall>i < length hs. hi_from (hs ! i) = int i + 1 \<and> hi_to (hs ! i) = int i + 2"
  shows "(\<forall>h \<in> set hs. validate_history h = Inr h) \<longleftrightarrow>
    (\<forall>h \<in> set hs. 1 \<le> length (hi_operations h) \<and> length (hi_operations h) \<le> 32 \<and>
        (\<forall>s \<in> set (hi_operations h). 1 \<le> length s \<and> length s \<le> 240))"
proof -
  have "1 \<le> hi_from h \<and> hi_to h = hi_from h + 1" if "h \<in> set hs" for h
    using that assms by (auto simp: in_set_conv_nth)
  then have "\<And>h. h \<in> set hs \<Longrightarrow> 1 \<le> hi_from h" "\<And>h. h \<in> set hs \<Longrightarrow> hi_to h = hi_from h + 1"
    by blast+
  then show ?thesis by (force simp: validate_history_def guard_simps list_all_iff)
qed

lemma map_result_check_facet:
  assumes "distinct (map en_name es)" and "\<forall>e \<in> set es. distinct (map at_name (en_attributes e))"
  shows "(\<exists>ys. map_result (check_facet es) fs = Inr ys) \<longleftrightarrow>
    (\<forall>f \<in> set fs. \<exists>a. resolves es (fa_entity f) (fa_field f) a)"
proof (induction fs)
  case (Cons f fs)
  then show ?case
    by (auto simp: guard_simps check_facet_def attribute_for_iff [OF assms] simp del: map_result_Inr_iff)
qed simp

lemma map_result_check_index:
  assumes "distinct (map en_name es)" and "\<forall>e \<in> set es. distinct (map at_name (en_attributes e))"
  shows "(\<exists>ys. map_result (check_index es) xs = Inr ys) \<longleftrightarrow>
    (\<forall>i \<in> set xs. \<forall>f \<in> set (ix_fields i). \<exists>a. resolves es (ix_entity i) f a \<and> at_type a \<noteq> TStringList)"
proof (induction xs)
  case (Cons i xs)
  have "(\<exists>ys. map_result (check_index_field es (ix_entity i)) fs = Inr ys) \<longleftrightarrow>
      (\<forall>f \<in> set fs. \<exists>a. resolves es (ix_entity i) f a \<and> at_type a \<noteq> TStringList)" for fs
  proof (induction fs)
    case (Cons f fs)
    then show ?case
      by (auto simp: bind_sum_Inr_iff check_index_field_def construct_Inr_iff
          attribute_for_iff [OF assms])
  qed simp
  with Cons show ?case by (auto simp: bind_sum_Inr_iff check_index_def)
qed simp

lemma map_result_check_relationship:
  assumes "distinct (map en_name es)" and "\<forall>e \<in> set es. distinct (map at_name (en_attributes e))"
  shows "map_result (check_relationship es) rs = Inr eds \<longleftrightarrow>
    eds = map (required_edge es) rs \<and> (\<forall>r \<in> set rs. relationship_spec es r)"
  using map_result_id_iff [of "check_relationship es" "required_edge es" rs eds]
  by (auto simp: check_relationship_iff [OF assms])

lemma relationship_definitions_distinct:
  "distinct (map relationship_source rs) \<Longrightarrow> distinct (map relationship_definition rs)"
  by (induction rs) (auto simp: relationship_source_def relationship_definition_def image_iff)

lemma name_guards_iff:
  assumes "\<forall>h \<in> set (ma_migration_history m). 1 \<le> length (hi_operations h)"
  shows "list_all (\<lambda>g. \<not> fst g) (name_guards m) \<longleftrightarrow>
    int (length (ma_migration_history m)) = ma_schema_version m - 1 \<and>
    continuous_history 1 (ma_migration_history m) \<and> names_spec m"
  using relationship_definitions_distinct
  by (auto simp: name_guards_def names_spec_def list_ex_iff)

lemma validate_references_iff:
  assumes ents: "\<forall>e \<in> set (ma_entities m). entity_spec e"
  shows "validate_references m = Inr m' \<longleftrightarrow>
    m' = m \<and> int (length (ma_migration_history m)) = ma_schema_version m - 1 \<and>
    continuous_history 1 (ma_migration_history m) \<and> names_spec m \<and>
    (\<forall>f \<in> set (ma_discovery_facets m).
       \<exists>a. resolves (ma_entities m) (fa_entity f) (fa_field f) a) \<and>
    (\<forall>i \<in> set (ma_indices m). \<forall>f \<in> set (ix_fields i).
       \<exists>a. resolves (ma_entities m) (ix_entity i) f a \<and> at_type a \<noteq> TStringList) \<and>
    (\<forall>r \<in> set (ma_relationships m). relationship_spec (ma_entities m) r) \<and>
    acyclic (required_edges (ma_entities m) (ma_relationships m))"
proof (cases "list_all (\<lambda>g. \<not> fst g) (name_guards m)")
  case False
  then show ?thesis
    using relationship_definitions_distinct
    by (auto simp: validate_references_def guard_simps name_guards_def names_spec_def list_ex_iff)
next
  case True
  then have d: "distinct (map en_name (ma_entities m))"
    and n: "int (length (ma_migration_history m)) = ma_schema_version m - 1 \<and>
      continuous_history 1 (ma_migration_history m) \<and> names_spec m"
    by (auto simp: name_guards_def names_spec_def list_ex_iff)
  have a: "\<forall>e \<in> set (ma_entities m). distinct (map at_name (en_attributes e))"
    using ents by (simp add: entity_spec_def)
  show ?thesis
    using True n map_result_check_facet [OF d a, of "ma_discovery_facets m"]
      map_result_check_index [OF d a, of "ma_indices m"]
    by (auto simp: validate_references_def bind_sum_Inr_iff construct_Inr_iff
        map_result_check_relationship [OF d a] manifest_has_directed_cycle_iff
        required_edges_set [OF d a] simp del: set_concat set_map)
qed

lemma model_validate_iff: "model_validate m = Inr m' \<longleftrightarrow> m' = m \<and> manifest_spec m"
proof -
  have e: "(\<exists>ys. map_result validate_entity (ma_entities m) = Inr ys) \<longleftrightarrow>
      (\<forall>e \<in> set (ma_entities m). entity_spec e)"
    using map_result_total [of validate_entity "\<lambda>x. x" "ma_entities m"]
    by (simp add: validate_entity_iff)
  have r: "(\<exists>ys. map_result validate_relationship (ma_relationships m) = Inr ys) \<longleftrightarrow>
      (\<forall>r \<in> set (ma_relationships m). is_identifier (re_name r) \<and> length (re_name r) \<le> 48 \<and>
        endpoint_ok (re_from r) \<and> endpoint_ok (re_to r))"
    using map_result_total [of validate_relationship "\<lambda>x. x" "ma_relationships m"]
    by (simp add: validate_relationship_iff)
  have i: "(\<exists>ys. map_result validate_index (ma_indices m) = Inr ys) \<longleftrightarrow>
      (\<forall>i \<in> set (ma_indices m). index_spec i)"
    using map_result_total [of validate_index "\<lambda>x. x" "ma_indices m"]
    by (simp add: validate_index_iff)
  have f: "(\<exists>ys. map_result validate_facet (ma_discovery_facets m) = Inr ys) \<longleftrightarrow>
      (\<forall>f \<in> set (ma_discovery_facets m). is_identifier (fa_entity f) \<and> is_identifier (fa_field f))"
    using map_result_total [of validate_facet "\<lambda>x. x" "ma_discovery_facets m"]
    by (simp add: validate_facet_iff)
  have h: "(\<exists>ys. map_result validate_history (ma_migration_history m) = Inr ys) \<longleftrightarrow>
      (\<forall>h \<in> set (ma_migration_history m). validate_history h = Inr h)"
    using map_result_total [of validate_history "\<lambda>x. x" "ma_migration_history m"]
    by (simp add: validate_history_def construct_Inr_iff)
  have hs: "continuous_history 1 (ma_migration_history m) \<and>
        (\<forall>h \<in> set (ma_migration_history m). validate_history h = Inr h) \<and>
        int (length (ma_migration_history m)) = ma_schema_version m - 1 \<longleftrightarrow> history_spec m"
    using validate_history_of_continuous [of "ma_migration_history m"]
    by (auto simp: history_spec_def continuous_history_iff algebra_simps)
  show ?thesis
  proof (cases "\<forall>e \<in> set (ma_entities m). entity_spec e")
    case True
    then show ?thesis
      unfolding model_validate_def manifest_spec_def hs [symmetric]
      using e r i f h by (simp add: bind_sum_Inr_iff validate_references_iff [OF True]) blast
  next
    case False
    then show ?thesis
      using e by (auto simp: model_validate_def manifest_spec_def bind_sum_Inr_iff)
  qed
qed

end
