(* ===== verification/Relational.thy ===== *)
theory Relational
  imports Manifest_Spec
begin

text \<open>
  \<open>relational.py\<close>: the physical shape compiled from a manifest, and the classification of a
  transition between two manifests. Every failure of the module is the one bounded
  \<open>RelationalContractError\<close>; a constructor's \<open>__post_init__\<close> is the predicate \<open>*_ok\<close> and the
  constructor call is \<open>checked\<close>. The dictionaries the code builds by name are looked up in
  the lists they are built from; their keys are distinct.
\<close>

section \<open>Specification values\<close>

datatype relational_error = RelationalContractError

definition checked :: "bool \<Rightarrow> 'a \<Rightarrow> relational_error + 'a" where
  "checked ok x = (if ok then Inr x else Inl RelationalContractError)"

lemma checked_Inr_iff [guard_simps]: "checked ok x = Inr y \<longleftrightarrow> ok \<and> y = x"
  by (auto simp: checked_def)

record rel_field =
  rf_name :: pystr
  rf_type :: logical_type
  rf_required :: bool
  rf_primary_key :: bool

definition rel_field_ok :: "rel_field \<Rightarrow> bool" where
  "rel_field_ok f \<longleftrightarrow> is_identifier (rf_name f) \<and> (rf_primary_key f \<longrightarrow> rf_required f)"

record rel_entity =
  rt_name :: pystr
  rt_fields :: "rel_field list"

definition entity_field :: "rel_entity \<Rightarrow> pystr \<Rightarrow> rel_field option" where
  "entity_field e n = List.find (\<lambda>f. rf_name f = n) (rt_fields e)"

definition rel_entity_ok :: "rel_entity \<Rightarrow> bool" where
  "rel_entity_ok e \<longleftrightarrow>
     is_identifier (rt_name e) \<and> rt_fields e \<noteq> [] \<and>
     length (rt_fields e) \<le> MAX_ATTRIBUTES_PER_ENTITY \<and>
     distinct (map rf_name (rt_fields e)) \<and>
     list_all (\<lambda>x. case x of (n, ty, req, pk) \<Rightarrow>
        (case entity_field e n of None \<Rightarrow> False
         | Some f \<Rightarrow> rf_type f = ty \<and> rf_required f = req \<and> rf_primary_key f = pk))
       SERVER_MANAGED_FIELDS \<and>
     \<not> list_ex (\<lambda>f. rf_primary_key f \<and> rf_name f \<noteq> ascii ''id'') (rt_fields e)"

text \<open>\<open>on_delete\<close>, \<open>on_update\<close> and \<open>constraint_timing\<close> have one admissible value each.\<close>

record rel_relationship =
  rr_name :: pystr
  rr_source_entity :: pystr
  rr_source_field :: pystr
  rr_target_entity :: pystr
  rr_target_field :: pystr

definition rel_relationship_ok :: "rel_relationship \<Rightarrow> bool" where
  "rel_relationship_ok r \<longleftrightarrow>
     is_identifier (rr_name r) \<and> is_identifier (rr_source_entity r) \<and>
     is_identifier (rr_source_field r) \<and> is_identifier (rr_target_entity r) \<and>
     is_identifier (rr_target_field r) \<and> length (rr_name r) \<le> 48"

record rel_index =
  ri_name :: pystr
  ri_entity :: pystr
  ri_fields :: "pystr list"
  ri_unique :: bool

definition rel_index_ok :: "rel_index \<Rightarrow> bool" where
  "rel_index_ok i \<longleftrightarrow>
     is_identifier (ri_name i) \<and> length (ri_name i) \<le> 48 \<and> is_identifier (ri_entity i) \<and>
     ri_fields i \<noteq> [] \<and> length (ri_fields i) \<le> 8 \<and> list_all is_identifier (ri_fields i) \<and>
     distinct (ri_fields i)"

record rel_specification =
  rs_schema_version :: int
  rs_entities :: "rel_entity list"
  rs_relationships :: "rel_relationship list"
  rs_indices :: "rel_index list"

definition find_rel_entity :: "rel_entity list \<Rightarrow> pystr \<Rightarrow> rel_entity option" where
  "find_rel_entity es n = List.find (\<lambda>e. rt_name e = n) es"

text \<open>The loop over the relationships: the endpoints seen so far and the edges of
  \<open>required_graph\<close> are threaded; \<open>None\<close> is the raise.\<close>

fun shape_relationships ::
  "rel_entity list \<Rightarrow> (pystr \<times> pystr) list \<Rightarrow> (pystr \<times> pystr) list \<Rightarrow> rel_relationship list \<Rightarrow>
   (pystr \<times> pystr) list option" where
  "shape_relationships es endpoints edges [] = Some edges"
| "shape_relationships es endpoints edges (r # rs) =
     (case (find_rel_entity es (rr_source_entity r), find_rel_entity es (rr_target_entity r)) of
        (Some se, Some te) \<Rightarrow>
          (case (entity_field se (rr_source_field r), entity_field te (rr_target_field r)) of
             (Some sf, Some tf) \<Rightarrow>
               if rf_type sf \<noteq> TUuid \<or> rf_primary_key sf \<or> rr_target_field r \<noteq> ascii ''id'' \<or>
                  rf_type tf \<noteq> TUuid \<or> \<not> rf_primary_key tf \<or>
                  (rr_source_entity r, rr_source_field r) \<in> set endpoints
               then None
               else shape_relationships es ((rr_source_entity r, rr_source_field r) # endpoints)
                      (if rf_required sf then (rr_source_entity r, rr_target_entity r) # edges
                       else edges) rs
           | _ \<Rightarrow> None)
      | _ \<Rightarrow> None)"

definition required_graph :: "rel_entity list \<Rightarrow> (pystr \<times> pystr) list \<Rightarrow> pystr adjacency" where
  "required_graph es edges =
     map (\<lambda>e. (rt_name e, map snd (filter (\<lambda>d. fst d = rt_name e) edges))) es"

definition rel_index_definition :: "rel_index \<Rightarrow> pystr \<times> pystr list \<times> bool" where
  "rel_index_definition i = (ri_entity i, ri_fields i, ri_unique i)"

fun shape_indices ::
  "rel_entity list \<Rightarrow> (pystr \<times> pystr list \<times> bool) list \<Rightarrow> rel_index list \<Rightarrow> bool" where
  "shape_indices es definitions [] = True"
| "shape_indices es definitions (i # is) =
     (case find_rel_entity es (ri_entity i) of
        None \<Rightarrow> False
      | Some e \<Rightarrow>
          list_all (\<lambda>n. case entity_field e n of None \<Rightarrow> False
                        | Some f \<Rightarrow> rf_type f \<noteq> TStringList) (ri_fields i) \<and>
          rel_index_definition i \<notin> set definitions \<and>
          shape_indices es (rel_index_definition i # definitions) is)"

definition validate_specification_shape :: "rel_specification \<Rightarrow> bool" where
  "validate_specification_shape s \<longleftrightarrow>
     distinct (map rt_name (rs_entities s)) \<and>
     \<not> list_ex (\<lambda>e. starts_with (ascii ''sqlite_'') (rt_name e)) (rs_entities s) \<and>
     distinct (map rr_name (rs_relationships s)) \<and>
     distinct (map ri_name (rs_indices s)) \<and>
     \<not> list_ex (\<lambda>i. starts_with (ascii ''sqlite_'') (ri_name i)) (rs_indices s) \<and>
     \<not> list_ex (\<lambda>e. rt_name e \<in> ri_name ` set (rs_indices s)) (rs_entities s) \<and>
     (case shape_relationships (rs_entities s) [] [] (rs_relationships s) of
        None \<Rightarrow> False
      | Some edges \<Rightarrow> \<not> has_directed_cycle (required_graph (rs_entities s) edges)) \<and>
     shape_indices (rs_entities s) [] (rs_indices s)"

definition rel_specification_ok :: "rel_specification \<Rightarrow> bool" where
  "rel_specification_ok s \<longleftrightarrow>
     1 \<le> rs_schema_version s \<and> rs_schema_version s \<le> 65 \<and> rs_entities s \<noteq> [] \<and>
     length (rs_entities s) \<le> MAX_ENTITIES \<and> length (rs_relationships s) \<le> MAX_RELATIONSHIPS \<and>
     length (rs_indices s) \<le> MAX_INDICES \<and>
     sorted (map rt_name (rs_entities s)) \<and> sorted (map rr_name (rs_relationships s)) \<and>
     sorted (map ri_name (rs_indices s)) \<and> validate_specification_shape s"

definition same_structure_as :: "rel_specification \<Rightarrow> rel_specification \<Rightarrow> bool" where
  "same_structure_as s t \<longleftrightarrow>
     rs_entities s = rs_entities t \<and> rs_relationships s = rs_relationships t \<and>
     rs_indices s = rs_indices t"

section \<open>Compilation\<close>

definition detached_manifest :: "manifest \<Rightarrow> relational_error + manifest" where
  "detached_manifest m =
     (case model_validate m of Inl _ \<Rightarrow> Inl RelationalContractError | Inr d \<Rightarrow> Inr d)"

definition field_of :: "attribute_def \<Rightarrow> rel_field" where
  "field_of a = \<lparr>rf_name = at_name a, rf_type = at_type a, rf_required = at_required a,
     rf_primary_key = at_primary_key a\<rparr>"

definition compile_field :: "attribute_def \<Rightarrow> relational_error + rel_field" where
  "compile_field a = checked (rel_field_ok (field_of a)) (field_of a)"

definition compile_entity :: "entity_def \<Rightarrow> relational_error + rel_entity" where
  "compile_entity e =
     bind_sum (map_result compile_field (en_attributes e)) (\<lambda>fs.
       let r = \<lparr>rt_name = en_name e, rt_fields = fs\<rparr> in checked (rel_entity_ok r) r)"

definition relationship_of :: "relationship_def \<Rightarrow> rel_relationship" where
  "relationship_of r = \<lparr>rr_name = re_name r,
     rr_source_entity = ep_entity (re_from r), rr_source_field = ep_field (re_from r),
     rr_target_entity = ep_entity (re_to r), rr_target_field = ep_field (re_to r)\<rparr>"

definition compile_relationship :: "relationship_def \<Rightarrow> relational_error + rel_relationship" where
  "compile_relationship r = checked (rel_relationship_ok (relationship_of r)) (relationship_of r)"

definition index_of :: "index_def \<Rightarrow> rel_index" where
  "index_of i = \<lparr>ri_name = ix_name i, ri_entity = ix_entity i, ri_fields = ix_fields i,
     ri_unique = ix_unique i\<rparr>"

definition compile_index :: "index_def \<Rightarrow> relational_error + rel_index" where
  "compile_index i = checked (rel_index_ok (index_of i)) (index_of i)"

definition compile_checked_manifest :: "manifest \<Rightarrow> relational_error + rel_specification" where
  "compile_checked_manifest m =
     bind_sum (map_result compile_entity (sort_key en_name (ma_entities m))) (\<lambda>es.
     bind_sum (map_result compile_relationship (sort_key re_name (ma_relationships m))) (\<lambda>rs.
     bind_sum (map_result compile_index (sort_key ix_name (ma_indices m))) (\<lambda>is.
       let s = \<lparr>rs_schema_version = ma_schema_version m, rs_entities = es,
                rs_relationships = rs, rs_indices = is\<rparr>
       in checked (rel_specification_ok s) s)))"

definition compile_manifest :: "manifest \<Rightarrow> relational_error + rel_specification" where
  "compile_manifest m = bind_sum (detached_manifest m) compile_checked_manifest"

end
