(* ===== verification/Relational_Compile.thy ===== *)
theory Relational_Compile
  imports Relational
begin

text \<open>
  The compiler of \<open>relational.py\<close> is total on valid manifests: no constructor of the
  specification can reject what the manifest validator accepted, so the result is the plain
  projection \<open>spec_of\<close>, it is well formed, and it does not depend on the order in which the
  manifest declares its entities, relationships and indices.
\<close>

definition entity_of :: "entity_def \<Rightarrow> rel_entity" where
  "entity_of e = \<lparr>rt_name = en_name e, rt_fields = map field_of (en_attributes e)\<rparr>"

definition spec_of :: "manifest \<Rightarrow> rel_specification" where
  "spec_of m = \<lparr>rs_schema_version = ma_schema_version m,
     rs_entities = map entity_of (sort_key en_name (ma_entities m)),
     rs_relationships = map relationship_of (sort_key re_name (ma_relationships m)),
     rs_indices = map index_of (sort_key ix_name (ma_indices m))\<rparr>"

lemma field_of_simps [simp]:
  "rf_name (field_of a) = at_name a" "rf_type (field_of a) = at_type a"
  "rf_required (field_of a) = at_required a" "rf_primary_key (field_of a) = at_primary_key a"
  by (simp_all add: field_of_def)

lemma entity_of_simps [simp]:
  "rt_name (entity_of e) = en_name e" "rt_fields (entity_of e) = map field_of (en_attributes e)"
  by (simp_all add: entity_of_def)

lemma relationship_of_simps [simp]:
  "rr_name (relationship_of r) = re_name r"
  "rr_source_entity (relationship_of r) = ep_entity (re_from r)"
  "rr_source_field (relationship_of r) = ep_field (re_from r)"
  "rr_target_entity (relationship_of r) = ep_entity (re_to r)"
  "rr_target_field (relationship_of r) = ep_field (re_to r)"
  by (simp_all add: relationship_of_def)

lemma index_of_simps [simp]:
  "ri_name (index_of i) = ix_name i" "ri_entity (index_of i) = ix_entity i"
  "ri_fields (index_of i) = ix_fields i" "ri_unique (index_of i) = ix_unique i"
  by (simp_all add: index_of_def)

lemma spec_of_simps [simp]:
  "rs_schema_version (spec_of m) = ma_schema_version m"
  "rs_entities (spec_of m) = map entity_of (sort_key en_name (ma_entities m))"
  "rs_relationships (spec_of m) = map relationship_of (sort_key re_name (ma_relationships m))"
  "rs_indices (spec_of m) = map index_of (sort_key ix_name (ma_indices m))"
  by (simp_all add: spec_of_def)

lemma map_key_sort [simp]:
  "map rt_name (map entity_of es) = map en_name es"
  "map rr_name (map relationship_of rs) = map re_name rs"
  "map ri_name (map index_of xs) = map ix_name xs"
  by simp_all

section \<open>Constructors accept projections of valid declarations\<close>

lemma attribute_field_ok: "attribute_spec a \<Longrightarrow> rel_field_ok (field_of a)"
  by (simp add: attribute_spec_def rel_field_ok_def)

lemma compile_field_valid: "attribute_spec a \<Longrightarrow> compile_field a = Inr (field_of a)"
  by (simp add: compile_field_def checked_def attribute_field_ok)

lemma find_map_key: "(\<And>x. k (f x) = h x) \<Longrightarrow>
    List.find (\<lambda>y. k y = n) (map f xs) = map_option f (List.find (\<lambda>x. h x = n) xs)"
  by (induction xs) auto

lemma entity_field_entity_of:
  "entity_field (entity_of e) n = map_option field_of (List.find (\<lambda>a. at_name a = n) (en_attributes e))"
  unfolding entity_field_def entity_of_simps by (rule find_map_key) simp

lemma entity_ok: "entity_spec e \<Longrightarrow> rel_entity_ok (entity_of e)"
proof -
  assume e: "entity_spec e"
  then have d: "distinct (map at_name (en_attributes e))" by (simp add: entity_spec_def)
  have "case x of (n, ty, req, pk) \<Rightarrow>
        (case entity_field (entity_of e) n of None \<Rightarrow> False
         | Some f \<Rightarrow> rf_type f = ty \<and> rf_required f = req \<and> rf_primary_key f = pk)"
    if x: "x \<in> set SERVER_MANAGED_FIELDS" for x
  proof -
    obtain a where a: "a \<in> set (en_attributes e)" "at_name a = fst x" "server_declaration a x"
      using e x by (auto simp: entity_spec_def)
    then have "List.find (\<lambda>b. at_name b = fst x) (en_attributes e) = Some a"
      using find_by_name_iff [OF d] by simp
    with a(3) show ?thesis
      by (cases x) (simp add: entity_field_entity_of server_declaration_def)
  qed
  then have "list_all (\<lambda>x. case x of (n, ty, req, pk) \<Rightarrow>
        (case entity_field (entity_of e) n of None \<Rightarrow> False
         | Some f \<Rightarrow> rf_type f = ty \<and> rf_required f = req \<and> rf_primary_key f = pk))
       SERVER_MANAGED_FIELDS"
    unfolding list_all_iff by blast
  moreover have "distinct (map rf_name (rt_fields (entity_of e)))"
    using d by (simp add: o_def)
  ultimately show ?thesis
    using e unfolding rel_entity_ok_def by (auto simp: entity_spec_def list_ex_iff)
qed

lemma compile_entity_valid: "entity_spec e \<Longrightarrow> compile_entity e = Inr (entity_of e)"
proof -
  assume e: "entity_spec e"
  then have "map_result compile_field (en_attributes e) = Inr (map field_of (en_attributes e))"
    by (auto simp: map_result_Inr_iff list_all2_conv_all_nth entity_spec_def
        intro!: compile_field_valid)
  with entity_ok [OF e] show ?thesis
    by (simp add: compile_entity_def entity_of_def checked_def)
qed

lemma map_result_valid:
  "(\<And>x. x \<in> set xs \<Longrightarrow> f x = Inr (g x)) \<Longrightarrow> map_result f xs = Inr (map g xs)"
  by (induction xs) auto

section \<open>The shape check\<close>

lemma find_rel_entity_entity_of:
  "find_rel_entity (map entity_of es) n = map_option entity_of (find_entity es n)"
  unfolding find_rel_entity_def find_entity_def by (rule find_map_key) simp

definition compiled_attribute :: "entity_def list \<Rightarrow> pystr \<Rightarrow> pystr \<Rightarrow> rel_field option" where
  "compiled_attribute es entity field =
     (case find_rel_entity (map entity_of es) entity of None \<Rightarrow> None
      | Some e \<Rightarrow> entity_field e field)"

lemma compiled_attribute_resolves:
  assumes "distinct (map en_name es)" and "\<forall>e \<in> set es. distinct (map at_name (en_attributes e))"
    and "resolves es entity field a"
  shows "\<exists>e. find_rel_entity (map entity_of es) entity = Some e \<and>
    entity_field e field = Some (field_of a)"
  using assms(3) attribute_for_iff [OF assms(1,2), of entity field a]
  by (auto simp: find_rel_entity_entity_of entity_field_entity_of attribute_for_def
      split: option.splits)

lemma required_edges_cons:
  assumes d: "distinct (map en_name es)"
    and a: "\<forall>e \<in> set es. distinct (map at_name (en_attributes e))"
    and s: "resolves es (ep_entity (re_from r)) (ep_field (re_from r)) s"
  shows "required_edges es (r # rs) =
      (if at_required s then {(ep_entity (re_from r), ep_entity (re_to r))} else {}) \<union>
      required_edges es rs"
proof -
  have "resolves es (ep_entity (re_from r)) (ep_field (re_from r)) b \<longleftrightarrow> b = s" for b
    using resolves_unique [OF d a s] s by blast
  then have "required_edges es [r] =
      (if at_required s then {(ep_entity (re_from r), ep_entity (re_to r))} else {})"
    by (simp add: required_edges_def)
  moreover have "required_edges es (r # rs) = required_edges es [r] \<union> required_edges es rs"
    unfolding required_edges_def by (simp, blast)
  ultimately show ?thesis by simp
qed

lemma shape_relationships_valid:
  assumes d: "distinct (map en_name es)"
    and a: "\<forall>e \<in> set es. distinct (map at_name (en_attributes e))"
    and "\<forall>r \<in> set rs. relationship_spec es r"
    and "distinct (map relationship_source rs)"
    and "\<forall>r \<in> set rs. relationship_source r \<notin> set seen"
  shows "\<exists>edges'. shape_relationships (map entity_of es) seen edges (map relationship_of rs) =
      Some edges' \<and> set edges' = set edges \<union> required_edges es rs"
  using assms(3-5)
proof (induction rs arbitrary: seen edges)
  case Nil
  then show ?case by (simp add: required_edges_def)
next
  case (Cons r rs)
  from Cons.prems(1) obtain s t
    where s: "resolves es (ep_entity (re_from r)) (ep_field (re_from r)) s"
      and t: "resolves es (ep_entity (re_to r)) (ep_field (re_to r)) t"
      and ty: "at_type s = TUuid" "\<not> at_primary_key s" "ep_field (re_to r) = ascii ''id''"
        "at_type t = TUuid" "at_primary_key t"
    by (auto simp: relationship_spec_def)
  obtain se te where e: "find_rel_entity (map entity_of es) (ep_entity (re_from r)) = Some se"
      "entity_field se (ep_field (re_from r)) = Some (field_of s)"
      "find_rel_entity (map entity_of es) (ep_entity (re_to r)) = Some te"
      "entity_field te (ep_field (re_to r)) = Some (field_of t)"
    using compiled_attribute_resolves [OF d a s] compiled_attribute_resolves [OF d a t] by blast
  define edges1 where "edges1 =
    (if at_required s then (ep_entity (re_from r), ep_entity (re_to r)) # edges else edges)"
  have step: "shape_relationships (map entity_of es) seen edges (map relationship_of (r # rs)) =
      shape_relationships (map entity_of es) (relationship_source r # seen) edges1
        (map relationship_of rs)"
    using e ty Cons.prems(3) by (simp add: edges1_def relationship_source_def)
  have one: "required_edges es (r # rs) =
      (if at_required s then {(ep_entity (re_from r), ep_entity (re_to r))} else {}) \<union>
      required_edges es rs"
    using required_edges_cons [OF d a s] .
  have prem: "\<forall>x \<in> set rs. relationship_source x \<notin> set (relationship_source r # seen)"
    using Cons.prems(2,3) by (auto simp: image_iff)
  from Cons.IH [OF _ _ prem, of edges1] Cons.prems(1,2)
  obtain edges' where "shape_relationships (map entity_of es) (relationship_source r # seen) edges1
      (map relationship_of rs) = Some edges'" and "set edges' = set edges1 \<union> required_edges es rs"
    by auto
  then show ?case unfolding step one by (auto simp: edges1_def)
qed

lemma shape_indices_valid:
  assumes d: "distinct (map en_name es)"
    and a: "\<forall>e \<in> set es. distinct (map at_name (en_attributes e))"
    and "\<forall>i \<in> set xs. ix_fields i \<noteq> [] \<and>
      (\<forall>f \<in> set (ix_fields i). \<exists>a. resolves es (ix_entity i) f a \<and> at_type a \<noteq> TStringList)"
    and "distinct (map index_definition xs)"
    and "\<forall>i \<in> set xs. index_definition i \<notin> set seen"
  shows "shape_indices (map entity_of es) seen (map index_of xs)"
  using assms(3-5)
proof (induction xs arbitrary: seen)
  case (Cons i xs)
  from Cons.prems(1) obtain f b where "f \<in> set (ix_fields i)" "resolves es (ix_entity i) f b"
    by (cases "ix_fields i") auto
  then obtain e where e: "find_rel_entity (map entity_of es) (ix_entity i) = Some e"
    using compiled_attribute_resolves [OF d a] by blast
  have "\<forall>f \<in> set (ix_fields i).
      case entity_field e f of None \<Rightarrow> False | Some g \<Rightarrow> rf_type g \<noteq> TStringList"
  proof
    fix f assume "f \<in> set (ix_fields i)"
    with Cons.prems(1) obtain b where "resolves es (ix_entity i) f b" "at_type b \<noteq> TStringList"
      by auto
    with compiled_attribute_resolves [OF d a, of "ix_entity i" f b] e
    show "case entity_field e f of None \<Rightarrow> False | Some g \<Rightarrow> rf_type g \<noteq> TStringList" by auto
  qed
  moreover have "shape_indices (map entity_of es) (index_definition i # seen) (map index_of xs)"
    by (rule Cons.IH) (use Cons.prems in \<open>auto simp: image_iff\<close>)
  ultimately show ?case
    using e Cons.prems(3)
    by (simp add: list_all_iff rel_index_definition_def index_definition_def)
qed simp

lemma edges_of_required_graph:
  assumes "fst ` set edges \<subseteq> rt_name ` set es" and "distinct (map rt_name es)"
  shows "edges_of (required_graph es edges) = set edges"
proof -
  have *: "successors (required_graph es edges) n =
      (if n \<in> rt_name ` set es then map snd (filter (\<lambda>d. fst d = n) edges) else [])" for n
    using assms(2) by (induction es) (auto simp: successors_def required_graph_def)
  show ?thesis using assms(1) unfolding edges_of_def * by force
qed

lemma starts_with_casefold:
  "starts_with (ascii ''sqlite_'') n \<Longrightarrow> is_sqlite_reserved n"
proof -
  assume "starts_with (ascii ''sqlite_'') n"
  then have "take 7 n = ascii ''sqlite_''" by (simp add: starts_with_def eval_nat_numeral)
  then have "take 7 (casefold n) = casefold (ascii ''sqlite_'')"
    unfolding casefold_def take_map by simp
  then show ?thesis by (simp add: is_sqlite_reserved_def starts_with_def casefold_def ascii_def
        eval_nat_numeral)
qed

section \<open>Compilation of a valid manifest\<close>

lemma manifest_spec_distinct:
  assumes "manifest_spec m"
  shows "distinct (map en_name (ma_entities m))" "distinct (map re_name (ma_relationships m))"
    "distinct (map ix_name (ma_indices m))"
    "\<forall>e \<in> set (ma_entities m). distinct (map at_name (en_attributes e))"
  using assms by (auto simp: manifest_spec_def names_spec_def entity_spec_def)

lemma distinct_map_sort_key: "distinct (map h (sort_key k xs)) \<longleftrightarrow> distinct (map h xs)"
  by (simp add: distinct_map)

lemma resolves_set_cong: "set es = set es' \<Longrightarrow> resolves es = resolves es'"
  by (intro ext) (simp add: resolves_def)

lemma required_edges_set_cong:
  "set es = set es' \<Longrightarrow> set rs = set rs' \<Longrightarrow> required_edges es rs = required_edges es' rs'"
  by (simp add: required_edges_def resolves_set_cong [of es es'])

lemma specification_shape_valid:
  assumes m: "manifest_spec m"
  shows "validate_specification_shape (spec_of m)"
proof -
  let ?es = "sort_key en_name (ma_entities m)" and ?rs = "sort_key re_name (ma_relationships m)"
    and ?is = "sort_key ix_name (ma_indices m)"
  have res: "resolves ?es = resolves (ma_entities m)" by (rule resolves_set_cong) simp
  have rel: "relationship_spec ?es = relationship_spec (ma_entities m)"
    by (intro ext) (simp add: relationship_spec_def res)
  have d: "distinct (map en_name ?es)"
    and a: "\<forall>e \<in> set ?es. distinct (map at_name (en_attributes e))"
    using manifest_spec_distinct [OF m] by (simp_all add: distinct_map_sort_key)
  have n: "names_spec m" using m by (simp add: manifest_spec_def)
  have "\<forall>r \<in> set ?rs. relationship_spec ?es r" "distinct (map relationship_source ?rs)"
    using m n by (auto simp: manifest_spec_def names_spec_def rel distinct_map_sort_key)
  from shape_relationships_valid [OF d a this, of "[]" "[]"] obtain edges
    where edges: "shape_relationships (map entity_of ?es) [] [] (map relationship_of ?rs) = Some edges"
      "set edges = required_edges (ma_entities m) (ma_relationships m)"
    using required_edges_set_cong [of ?es "ma_entities m" ?rs "ma_relationships m"] by auto
  have "fst ` set edges \<subseteq> rt_name ` set (map entity_of ?es)"
    unfolding edges(2) by (auto simp: required_edges_def resolves_def image_image intro: rev_image_eqI)
  then have "edges_of (required_graph (map entity_of ?es) edges) = set edges"
    by (rule edges_of_required_graph) (use d in \<open>simp add: o_def\<close>)
  then have cyc: "\<not> has_directed_cycle (required_graph (map entity_of ?es) edges)"
    using m by (simp add: has_directed_cycle_iff edges(2) manifest_spec_def)
  have ind: "shape_indices (map entity_of ?es) [] (map index_of ?is)"
    by (rule shape_indices_valid [OF d a])
      (use m n in \<open>auto simp: manifest_spec_def names_spec_def index_spec_def res distinct_map_sort_key\<close>)
  show ?thesis
    using n edges cyc ind d unfolding validate_specification_shape_def
    by (auto simp: names_spec_def list_ex_iff o_def distinct_map_sort_key dest: starts_with_casefold)
qed

lemma specification_ok:
  assumes m: "manifest_spec m"
  shows "rel_specification_ok (spec_of m)"
proof -
  have "ma_entities m \<noteq> []" using m by (auto simp: manifest_spec_def manifest_fields_ok_def)
  then have "sort_key en_name (ma_entities m) \<noteq> []" by (metis set_empty set_sort)
  with specification_shape_valid [OF m] m show ?thesis
    by (auto simp: rel_specification_ok_def manifest_spec_def manifest_fields_ok_def o_def)
qed

lemma relationship_ok:
  "manifest_spec m \<Longrightarrow> r \<in> set (ma_relationships m) \<Longrightarrow> rel_relationship_ok (relationship_of r)"
  by (auto simp: manifest_spec_def rel_relationship_ok_def endpoint_ok_def)

lemma index_ok: "manifest_spec m \<Longrightarrow> i \<in> set (ma_indices m) \<Longrightarrow> rel_index_ok (index_of i)"
  by (auto simp: manifest_spec_def rel_index_ok_def index_spec_def list_all_iff)

lemma compile_checked_valid:
  assumes m: "manifest_spec m"
  shows "compile_checked_manifest m = Inr (spec_of m)"
proof -
  have "map_result compile_entity (sort_key en_name (ma_entities m)) =
      Inr (map entity_of (sort_key en_name (ma_entities m)))"
    by (rule map_result_valid) (use m in \<open>auto simp: manifest_spec_def intro: compile_entity_valid\<close>)
  moreover have "map_result compile_relationship (sort_key re_name (ma_relationships m)) =
      Inr (map relationship_of (sort_key re_name (ma_relationships m)))"
    by (rule map_result_valid)
      (use m in \<open>auto simp: compile_relationship_def checked_def dest: relationship_ok\<close>)
  moreover have "map_result compile_index (sort_key ix_name (ma_indices m)) =
      Inr (map index_of (sort_key ix_name (ma_indices m)))"
    by (rule map_result_valid) (use m in \<open>auto simp: compile_index_def checked_def dest: index_ok\<close>)
  ultimately show ?thesis
    using specification_ok [OF m]
    by (simp add: compile_checked_manifest_def spec_of_def checked_def)
qed

lemma detached_manifest_iff: "detached_manifest m = Inr d \<longleftrightarrow> d = m \<and> manifest_spec m"
  using model_validate_iff [of m]
  by (cases "model_validate m") (auto simp: detached_manifest_def)

lemma compile_manifest_iff: "compile_manifest m = Inr s \<longleftrightarrow> manifest_spec m \<and> s = spec_of m"
  by (auto simp: compile_manifest_def bind_sum_Inr_iff detached_manifest_iff compile_checked_valid)

lemma spec_of_declaration_order:
  assumes "manifest_spec m" "manifest_spec m'" "ma_schema_version m = ma_schema_version m'"
    "set (ma_entities m) = set (ma_entities m')"
    "set (ma_relationships m) = set (ma_relationships m')"
    "set (ma_indices m) = set (ma_indices m')"
  shows "spec_of m = spec_of m'"
proof -
  have "sort_key en_name (ma_entities m) = sort_key en_name (ma_entities m')"
    "sort_key re_name (ma_relationships m) = sort_key re_name (ma_relationships m')"
    "sort_key ix_name (ma_indices m) = sort_key ix_name (ma_indices m')"
    by (rule sort_key_distinct_unique; use assms manifest_spec_distinct in blast)+
  with assms(3) show ?thesis by (simp add: spec_of_def)
qed

end
