(* ===== verification/Transition.thy ===== *)
theory Transition
  imports Relational_Compile
begin

text \<open>
  The classification of a transition in \<open>relational.py\<close>: \<open>classify_transition\<close> and the
  factory check \<open>RelationalTransition._build\<close> with \<open>_expected_additions\<close>. The list of metadata
  changes that the Python helpers append to is returned by each helper and concatenated in
  the order of the calls.
\<close>

section \<open>Values\<close>

record field_addition =
  fd_entity :: pystr
  fd_field :: rel_field

record rel_additions =
  ad_entities :: "rel_entity list"
  ad_fields :: "field_addition list"
  ad_relationships :: "rel_relationship list"
  ad_indices :: "rel_index list"

datatype metadata_kind =
    EntityDescription
  | AttributeDescription
  | RetrievalGuidance
  | QueryPatterns
  | DiscoveryFacets
  | RetrievalMode
  | AllowedValuesExpansion

fun kind_name :: "metadata_kind \<Rightarrow> string" where
  "kind_name EntityDescription = ''entity_description''"
| "kind_name AttributeDescription = ''attribute_description''"
| "kind_name RetrievalGuidance = ''retrieval_guidance''"
| "kind_name QueryPatterns = ''query_patterns''"
| "kind_name DiscoveryFacets = ''discovery_facets''"
| "kind_name RetrievalMode = ''retrieval_mode''"
| "kind_name AllowedValuesExpansion = ''allowed_values_expansion''"

lemma kind_name_inj: "kind_name k = kind_name l \<longleftrightarrow> k = l"
  by (cases k; cases l) simp_all

text \<open>The kinds are strings in the source and compare as strings.\<close>

instantiation metadata_kind :: linorder
begin

definition less_eq_metadata_kind :: "metadata_kind \<Rightarrow> metadata_kind \<Rightarrow> bool" where
  "less_eq_metadata_kind k l \<longleftrightarrow> ascii (kind_name k) \<le> ascii (kind_name l)"

definition less_metadata_kind :: "metadata_kind \<Rightarrow> metadata_kind \<Rightarrow> bool" where
  "less_metadata_kind k l \<longleftrightarrow> ascii (kind_name k) < ascii (kind_name l)"

instance
  by standard
    (auto simp: less_eq_metadata_kind_def less_metadata_kind_def kind_name_inj
      dest: antisym simp flip: kind_name_inj ascii_eq_iff)

end

record metadata_change =
  mc_kind :: metadata_kind
  mc_entity :: "pystr option"
  mc_field :: "pystr option"

definition opt_identifier :: "pystr option \<Rightarrow> bool" where
  "opt_identifier v = (case v of None \<Rightarrow> False | Some s \<Rightarrow> is_identifier s)"

definition metadata_change_ok :: "metadata_change \<Rightarrow> bool" where
  "metadata_change_ok c =
     (if mc_kind c \<in> {RetrievalGuidance, QueryPatterns, DiscoveryFacets}
      then mc_entity c = None \<and> mc_field c = None
      else if mc_kind c = EntityDescription
      then opt_identifier (mc_entity c) \<and> mc_field c = None
      else opt_identifier (mc_entity c) \<and> opt_identifier (mc_field c))"

definition metadata_change_of ::
  "metadata_kind \<Rightarrow> pystr option \<Rightarrow> pystr option \<Rightarrow> metadata_change" where
  "metadata_change_of k e f = \<lparr>mc_kind = k, mc_entity = e, mc_field = f\<rparr>"

definition MetadataChange ::
  "metadata_kind \<Rightarrow> pystr option \<Rightarrow> pystr option \<Rightarrow> relational_error + metadata_change list" where
  "MetadataChange k e f =
     checked (metadata_change_ok (metadata_change_of k e f)) [metadata_change_of k e f]"

definition or_empty :: "pystr option \<Rightarrow> pystr" where
  "or_empty v = (case v of None \<Rightarrow> [] | Some s \<Rightarrow> s)"

definition metadata_sort_key :: "metadata_change \<Rightarrow> metadata_kind \<times> pystr \<times> pystr" where
  "metadata_sort_key c = (mc_kind c, or_empty (mc_entity c), or_empty (mc_field c))"

record rel_transition =
  tr_current :: rel_specification
  tr_target :: rel_specification
  tr_additions :: rel_additions
  tr_metadata_changes :: "metadata_change list"

section \<open>Helpers of the classification\<close>

text \<open>\<open>if differs: changes.append(...)\<close>.\<close>

definition note_change ::
  "bool \<Rightarrow> metadata_kind \<Rightarrow> pystr option \<Rightarrow> pystr option \<Rightarrow>
   relational_error + metadata_change list" where
  "note_change differs k e f = (if differs then MetadataChange k e f else Inr [])"

definition classify_entity_metadata ::
  "entity_def \<Rightarrow> entity_def \<Rightarrow> relational_error + metadata_change list" where
  "classify_entity_metadata c t =
     note_change (en_description c \<noteq> en_description t) EntityDescription (Some (en_name c)) None"

definition classify_allowed_values ::
  "pystr \<Rightarrow> attribute_def \<Rightarrow> attribute_def \<Rightarrow> relational_error + metadata_change list" where
  "classify_allowed_values entity c t =
     (case (at_allowed_values c, at_allowed_values t) of
        (None, None) \<Rightarrow> Inr []
      | (Some source, Some target) \<Rightarrow>
          if set source = set target then Inr []
          else if set source \<subset> set target
          then MetadataChange AllowedValuesExpansion (Some entity) (Some (at_name c))
          else Inl RelationalContractError
      | _ \<Rightarrow> Inl RelationalContractError)"

definition classify_attribute_change ::
  "pystr \<Rightarrow> attribute_def \<Rightarrow> attribute_def \<Rightarrow> relational_error + metadata_change list" where
  "classify_attribute_change entity c t =
     (if at_name c \<noteq> at_name t \<or> at_type c \<noteq> at_type t \<or> at_required c \<noteq> at_required t \<or>
         at_primary_key c \<noteq> at_primary_key t
      then Inl RelationalContractError
      else
        bind_sum (note_change (at_description c \<noteq> at_description t) AttributeDescription
          (Some entity) (Some (at_name c))) (\<lambda>d.
        bind_sum (note_change (at_retrieval_mode c \<noteq> at_retrieval_mode t) RetrievalMode
          (Some entity) (Some (at_name c))) (\<lambda>r.
        bind_sum (classify_allowed_values entity c t) (\<lambda>v. Inr (d @ r @ v)))))"

definition classify_new_field ::
  "pystr \<Rightarrow> attribute_def \<Rightarrow> relational_error + field_addition" where
  "classify_new_field entity a =
     (if at_required a \<or> at_primary_key a then Inl RelationalContractError
      else bind_sum (compile_field a) (\<lambda>f.
        checked (is_identifier entity) \<lparr>fd_entity = entity, fd_field = f\<rparr>))"

text \<open>The body of the loop over the current entities.\<close>

definition classify_entity ::
  "entity_def \<Rightarrow> entity_def \<Rightarrow>
   relational_error + (metadata_change list \<times> field_addition list)" where
  "classify_entity c t =
     bind_sum (classify_entity_metadata c t) (\<lambda>m.
       if length (en_attributes t) < length (en_attributes c) then Inl RelationalContractError
       else
         bind_sum (map_result (\<lambda>p. classify_attribute_change (en_name c) (fst p) (snd p))
           (zip (en_attributes c) (take (length (en_attributes c)) (en_attributes t)))) (\<lambda>ms.
         bind_sum (map_result (classify_new_field (en_name c))
           (drop (length (en_attributes c)) (en_attributes t))) (\<lambda>fs.
           Inr (m @ concat ms, fs))))"

definition classify_global_metadata ::
  "manifest \<Rightarrow> manifest \<Rightarrow> relational_error + metadata_change list" where
  "classify_global_metadata c t =
     bind_sum (note_change (ma_retrieval_guidance c \<noteq> ma_retrieval_guidance t)
       RetrievalGuidance None None) (\<lambda>g.
     bind_sum (note_change (ma_query_patterns c \<noteq> ma_query_patterns t)
       QueryPatterns None None) (\<lambda>q.
     bind_sum (note_change (map facet_key (ma_discovery_facets c) \<noteq>
         map facet_key (ma_discovery_facets t)) DiscoveryFacets None None) (\<lambda>f.
       Inr (g @ q @ f))))"

text \<open>\<open>keep_by_name\<close> is the check the code makes three times: every source name is a target
  name and names the same value there.\<close>

definition keep_by_name :: "('a \<Rightarrow> pystr) \<Rightarrow> 'a list \<Rightarrow> 'a list \<Rightarrow> bool" where
  "keep_by_name name source target \<longleftrightarrow>
     list_all (\<lambda>x. List.find (\<lambda>y. name y = name x) target = Some x) source"

definition new_by_name :: "('a \<Rightarrow> pystr) \<Rightarrow> 'a list \<Rightarrow> 'a list \<Rightarrow> 'a list" where
  "new_by_name name source target =
     sort_key name (filter (\<lambda>y. name y \<notin> name ` set source) target)"

definition classify_new_relationship ::
  "pystr list \<Rightarrow> relationship_def \<Rightarrow> relational_error + rel_relationship" where
  "classify_new_relationship new_entity_names r =
     (if ep_entity (re_from r) \<notin> set new_entity_names then Inl RelationalContractError
      else compile_relationship r)"

definition classify_relationships ::
  "manifest \<Rightarrow> manifest \<Rightarrow> pystr list \<Rightarrow> relational_error + rel_relationship list" where
  "classify_relationships c t new_entity_names =
     (if \<not> keep_by_name re_name (ma_relationships c) (ma_relationships t)
      then Inl RelationalContractError
      else map_result (classify_new_relationship new_entity_names)
        (new_by_name re_name (ma_relationships c) (ma_relationships t)))"

definition classify_indices ::
  "manifest \<Rightarrow> manifest \<Rightarrow> relational_error + rel_index list" where
  "classify_indices c t =
     (if \<not> keep_by_name ix_name (ma_indices c) (ma_indices t) then Inl RelationalContractError
      else map_result compile_index (new_by_name ix_name (ma_indices c) (ma_indices t)))"

text \<open>\<open>target_history[-1]\<close> would raise on an empty list; the caller has established
  \<open>schema_version >= 2\<close>, for which a valid manifest has a non-empty history.\<close>

definition history_is_one_entry_extension :: "manifest \<Rightarrow> manifest \<Rightarrow> bool" where
  "history_is_one_entry_extension c t \<longleftrightarrow>
     ma_migration_history t \<noteq> [] \<and>
     butlast (ma_migration_history t) = ma_migration_history c \<and>
     hi_from (last (ma_migration_history t)) = ma_schema_version c \<and>
     hi_to (last (ma_migration_history t)) = ma_schema_version t"

section \<open>The factory check\<close>

definition expected_entity_fields ::
  "rel_entity list \<Rightarrow> rel_entity \<Rightarrow> relational_error + field_addition list" where
  "expected_entity_fields target source =
     (case find_rel_entity target (rt_name source) of
        None \<Rightarrow> Inl RelationalContractError
      | Some destination \<Rightarrow>
          if take (length (rt_fields source)) (rt_fields destination) \<noteq> rt_fields source
          then Inl RelationalContractError
          else map_result (\<lambda>f. if rf_required f \<or> rf_primary_key f then Inl RelationalContractError
              else checked (is_identifier (rt_name source))
                     \<lparr>fd_entity = rt_name source, fd_field = f\<rparr>)
            (drop (length (rt_fields source)) (rt_fields destination)))"

definition expected_additions ::
  "rel_specification \<Rightarrow> rel_specification \<Rightarrow> relational_error + rel_additions" where
  "expected_additions c t =
     (let new_names = filter (\<lambda>n. n \<notin> rt_name ` set (rs_entities c)) (map rt_name (rs_entities t));
          relationships = filter (\<lambda>r. rr_source_entity r \<in> set new_names)
            (new_by_name rr_name (rs_relationships c) (rs_relationships t))
      in
      if \<not> list_all (\<lambda>e. rt_name e \<in> rt_name ` set (rs_entities t)) (rs_entities c)
      then Inl RelationalContractError
      else
        bind_sum (map_result (expected_entity_fields (rs_entities t))
          (sort_key rt_name (rs_entities c))) (\<lambda>fields.
        if \<not> keep_by_name rr_name (rs_relationships c) (rs_relationships t) \<or>
           length relationships + length (rs_relationships c) \<noteq> length (rs_relationships t) \<or>
           \<not> keep_by_name ri_name (rs_indices c) (rs_indices t)
        then Inl RelationalContractError
        else Inr \<lparr>ad_entities = new_by_name rt_name (rs_entities c) (rs_entities t),
                  ad_fields = concat fields, ad_relationships = relationships,
                  ad_indices = new_by_name ri_name (rs_indices c) (rs_indices t)\<rparr>))"

definition no_additions :: "rel_additions \<Rightarrow> bool" where
  "no_additions a \<longleftrightarrow>
     ad_entities a = [] \<and> ad_fields a = [] \<and> ad_relationships a = [] \<and> ad_indices a = []"

definition build_transition ::
  "rel_specification \<Rightarrow> rel_specification \<Rightarrow> rel_additions \<Rightarrow> metadata_change list \<Rightarrow>
   relational_error + rel_transition" where
  "build_transition c t additions changes =
     (if changes \<noteq> sort_key metadata_sort_key changes \<or> \<not> distinct changes \<or>
         rs_schema_version t \<noteq> rs_schema_version c + 1
      then Inl RelationalContractError
      else bind_sum (expected_additions c t) (\<lambda>expected.
        checked (additions = expected \<and> \<not> (no_additions additions \<and> changes = []))
          \<lparr>tr_current = c, tr_target = t, tr_additions = additions,
           tr_metadata_changes = changes\<rparr>))"

section \<open>Classification\<close>

definition classify_source_entity ::
  "entity_def list \<Rightarrow> entity_def \<Rightarrow>
   relational_error + (metadata_change list \<times> field_addition list)" where
  "classify_source_entity target e =
     (case find_entity target (en_name e) of
        None \<Rightarrow> Inl RelationalContractError
      | Some t \<Rightarrow> classify_entity e t)"

definition classify_transition :: "manifest \<Rightarrow> manifest \<Rightarrow> relational_error + rel_transition" where
  "classify_transition current target =
     bind_sum (detached_manifest current) (\<lambda>c.
     bind_sum (detached_manifest target) (\<lambda>t.
       if ma_schema_version t \<noteq> ma_schema_version c + 1 \<or> \<not> history_is_one_entry_extension c t
       then Inl RelationalContractError
       else
         bind_sum (compile_checked_manifest c) (\<lambda>cs.
         bind_sum (compile_checked_manifest t) (\<lambda>ts.
           if \<not> list_all (\<lambda>e. en_name e \<in> en_name ` set (ma_entities t)) (ma_entities c)
           then Inl RelationalContractError
           else
             let new_names = filter (\<lambda>n. n \<notin> en_name ` set (ma_entities c))
                   (map en_name (ma_entities t)) in
             bind_sum (map_result (classify_source_entity (ma_entities t))
               (sort_key en_name (ma_entities c))) (\<lambda>per_entity.
             bind_sum (classify_global_metadata c t) (\<lambda>global.
             bind_sum (classify_relationships c t new_names) (\<lambda>new_relationships.
             bind_sum (classify_indices c t) (\<lambda>new_indices.
               let additions =
                     \<lparr>ad_entities = sort_key rt_name
                        (filter (\<lambda>e. rt_name e \<in> set new_names) (rs_entities ts)),
                      ad_fields = concat (map snd per_entity),
                      ad_relationships = new_relationships,
                      ad_indices = new_indices\<rparr>;
                   frozen = sort_key metadata_sort_key (concat (map fst per_entity) @ global)
               in
               if no_additions additions \<and> frozen = [] then Inl RelationalContractError
               else build_transition cs ts additions frozen))))))))"

end
