(* ===== verification/Transition_Spec.thy ===== *)
theory Transition_Spec
  imports Transition
begin

text \<open>
  What an additive transition is, stated on the two manifests: histories extended by one
  entry, every entity kept with its attributes as a prefix and only optional new ones, all
  relationships and indices kept, new relationships only out of new entities, and at least
  one difference. \<open>classify_transition\<close> accepts exactly these pairs; the factory check that
  recomputes the additions from the compiled specifications never rejects what the
  classification accepted; and the additions applied to the current specification give the
  target specification.
\<close>

section \<open>The declarative specification\<close>

definition values_expand :: "pyval list option \<Rightarrow> pyval list option \<Rightarrow> bool" where
  "values_expand v w =
     (case (v, w) of (None, None) \<Rightarrow> True | (Some xs, Some ys) \<Rightarrow> set xs \<subseteq> set ys | _ \<Rightarrow> False)"

definition attribute_compat :: "attribute_def \<Rightarrow> attribute_def \<Rightarrow> bool" where
  "attribute_compat a b \<longleftrightarrow>
     field_of a = field_of b \<and> values_expand (at_allowed_values a) (at_allowed_values b)"

definition extends_entity :: "entity_def \<Rightarrow> entity_def \<Rightarrow> bool" where
  "extends_entity e e' \<longleftrightarrow>
     (\<exists>old new. en_attributes e' = old @ new \<and>
        list_all2 attribute_compat (en_attributes e) old \<and> (\<forall>a \<in> set new. \<not> at_required a))"

definition keeps_everything :: "manifest \<Rightarrow> manifest \<Rightarrow> bool" where
  "keeps_everything c t \<longleftrightarrow>
     (\<forall>e \<in> set (ma_entities c). \<exists>e' \<in> set (ma_entities t).
        en_name e' = en_name e \<and> extends_entity e e') \<and>
     set (ma_relationships c) \<subseteq> set (ma_relationships t) \<and>
     (\<forall>r \<in> set (ma_relationships t) - set (ma_relationships c).
        ep_entity (re_from r) \<notin> en_name ` set (ma_entities c)) \<and>
     set (ma_indices c) \<subseteq> set (ma_indices t)"

text \<open>The parts of a manifest that are not physical shape.\<close>

definition entity_notes :: "manifest \<Rightarrow> (pystr \<times> pystr option) set" where
  "entity_notes m = (\<lambda>e. (en_name e, en_description e)) ` set (ma_entities m)"

definition attribute_notes ::
  "manifest \<Rightarrow> (pystr \<times> pystr \<times> pystr option \<times> retrieval_mode option \<times> pyval set option) set" where
  "attribute_notes m =
     (\<Union>e \<in> set (ma_entities m). (\<lambda>a. (en_name e, at_name a, at_description a,
        at_retrieval_mode a, map_option set (at_allowed_values a))) ` set (en_attributes e))"

definition unchanged :: "manifest \<Rightarrow> manifest \<Rightarrow> bool" where
  "unchanged c t \<longleftrightarrow>
     same_structure_as (spec_of c) (spec_of t) \<and>
     ma_retrieval_guidance c = ma_retrieval_guidance t \<and>
     ma_query_patterns c = ma_query_patterns t \<and>
     map facet_key (ma_discovery_facets c) = map facet_key (ma_discovery_facets t) \<and>
     entity_notes c = entity_notes t \<and> attribute_notes c = attribute_notes t"

definition additive :: "manifest \<Rightarrow> manifest \<Rightarrow> bool" where
  "additive c t \<longleftrightarrow>
     manifest_spec c \<and> manifest_spec t \<and> ma_schema_version t = ma_schema_version c + 1 \<and>
     (\<exists>h. ma_migration_history t = ma_migration_history c @ [h]) \<and>
     keeps_everything c t \<and> \<not> unchanged c t"

section \<open>Classification of one entity\<close>

definition attribute_changes ::
  "pystr \<Rightarrow> attribute_def \<Rightarrow> attribute_def \<Rightarrow> metadata_change list" where
  "attribute_changes entity c t =
     (if at_description c \<noteq> at_description t
      then [metadata_change_of AttributeDescription (Some entity) (Some (at_name c))] else []) @
     (if at_retrieval_mode c \<noteq> at_retrieval_mode t
      then [metadata_change_of RetrievalMode (Some entity) (Some (at_name c))] else []) @
     (if map_option set (at_allowed_values c) \<noteq> map_option set (at_allowed_values t)
      then [metadata_change_of AllowedValuesExpansion (Some entity) (Some (at_name c))] else [])"

definition entity_changes :: "entity_def \<Rightarrow> entity_def \<Rightarrow> metadata_change list" where
  "entity_changes c t =
     (if en_description c \<noteq> en_description t
      then [metadata_change_of EntityDescription (Some (en_name c)) None] else []) @
     concat (map (\<lambda>p. attribute_changes (en_name c) (fst p) (snd p))
       (zip (en_attributes c) (take (length (en_attributes c)) (en_attributes t))))"

definition new_fields :: "entity_def \<Rightarrow> entity_def \<Rightarrow> field_addition list" where
  "new_fields c t = map (\<lambda>a. \<lparr>fd_entity = en_name c, fd_field = field_of a\<rparr>)
     (drop (length (en_attributes c)) (en_attributes t))"

lemma MetadataChange_field:
  "is_identifier e \<Longrightarrow> is_identifier f \<Longrightarrow>
   k \<in> {AttributeDescription, RetrievalMode, AllowedValuesExpansion} \<Longrightarrow>
   MetadataChange k (Some e) (Some f) = Inr [metadata_change_of k (Some e) (Some f)]"
  by (auto simp: MetadataChange_def checked_def metadata_change_ok_def metadata_change_of_def
      opt_identifier_def)

lemma field_of_eq_iff:
  "field_of a = field_of b \<longleftrightarrow> at_name a = at_name b \<and> at_type a = at_type b \<and>
     at_required a = at_required b \<and> at_primary_key a = at_primary_key b"
  by (simp add: field_of_def)

lemma classify_allowed_values_iff:
  assumes "is_identifier e" "is_identifier (at_name a)"
  shows "classify_allowed_values e a b = Inr cs \<longleftrightarrow>
    values_expand (at_allowed_values a) (at_allowed_values b) \<and>
    cs = (if map_option set (at_allowed_values a) \<noteq> map_option set (at_allowed_values b)
      then [metadata_change_of AllowedValuesExpansion (Some e) (Some (at_name a))] else [])"
  using MetadataChange_field [OF assms, of AllowedValuesExpansion]
  by (auto simp: classify_allowed_values_def values_expand_def split: option.splits)

lemma classify_attribute_change_iff:
  assumes "is_identifier e" "is_identifier (at_name a)"
  shows "classify_attribute_change e a b = Inr cs \<longleftrightarrow>
    attribute_compat a b \<and> cs = attribute_changes e a b"
  using MetadataChange_field [OF assms, of AttributeDescription]
    MetadataChange_field [OF assms, of RetrievalMode]
  by (auto simp: classify_attribute_change_def note_change_def bind_sum_Inr_iff
      classify_allowed_values_iff [OF assms] attribute_compat_def attribute_changes_def
      field_of_eq_iff)

lemma classify_new_field_iff:
  assumes "is_identifier e" "attribute_spec a"
  shows "classify_new_field e a = Inr d \<longleftrightarrow>
    \<not> at_required a \<and> d = \<lparr>fd_entity = e, fd_field = field_of a\<rparr>"
  using assms compile_field_valid [of a]
  by (auto simp: classify_new_field_def checked_def attribute_spec_def)

lemma map_result_rel_iff:
  assumes "\<And>x y. x \<in> set xs \<Longrightarrow> f x = Inr y \<longleftrightarrow> P x \<and> y = g x"
  shows "map_result f xs = Inr ys \<longleftrightarrow> (\<forall>x \<in> set xs. P x) \<and> ys = map g xs"
  using assms by (induction xs arbitrary: ys) (auto simp: bind_sum_Inr_iff)

lemma extends_entity_alt:
  "extends_entity e e' \<longleftrightarrow> length (en_attributes e) \<le> length (en_attributes e') \<and>
    (\<forall>p \<in> set (zip (en_attributes e) (take (length (en_attributes e)) (en_attributes e'))).
       attribute_compat (fst p) (snd p)) \<and>
    (\<forall>a \<in> set (drop (length (en_attributes e)) (en_attributes e')). \<not> at_required a)"
    (is "_ \<longleftrightarrow> ?r")
proof
  assume "extends_entity e e'"
  then obtain old new where "en_attributes e' = old @ new"
    and "list_all2 attribute_compat (en_attributes e) old" and "\<forall>a \<in> set new. \<not> at_required a"
    by (auto simp: extends_entity_def)
  then show ?r by (auto simp: list_all2_iff)
next
  assume r: ?r
  let ?n = "length (en_attributes e)"
  have "en_attributes e' = take ?n (en_attributes e') @ drop ?n (en_attributes e')" by simp
  moreover have "list_all2 attribute_compat (en_attributes e) (take ?n (en_attributes e'))"
    using r by (auto simp: list_all2_iff)
  ultimately show "extends_entity e e'" using r unfolding extends_entity_def by blast
qed

lemma classify_entity_iff:
  assumes e: "entity_spec e" and e': "entity_spec e'"
  shows "classify_entity e e' = Inr r \<longleftrightarrow>
    extends_entity e e' \<and> r = (entity_changes e e', new_fields e e')"
proof -
  have name: "is_identifier (en_name e)" using e by (simp add: entity_spec_def)
  have attrs: "map_result (\<lambda>p. classify_attribute_change (en_name e) (fst p) (snd p))
      (zip (en_attributes e) (take (length (en_attributes e)) (en_attributes e'))) = Inr ms \<longleftrightarrow>
      (\<forall>p \<in> set (zip (en_attributes e) (take (length (en_attributes e)) (en_attributes e'))).
         attribute_compat (fst p) (snd p)) \<and>
      ms = map (\<lambda>p. attribute_changes (en_name e) (fst p) (snd p))
       (zip (en_attributes e) (take (length (en_attributes e)) (en_attributes e')))" for ms
  proof (rule map_result_rel_iff)
    fix p y
    assume "p \<in> set (zip (en_attributes e) (take (length (en_attributes e)) (en_attributes e')))"
    then have "fst p \<in> set (en_attributes e)" by (metis in_set_zipE prod.collapse)
    then have "is_identifier (at_name (fst p))"
      using e by (auto simp: entity_spec_def attribute_spec_def)
    with name show "(classify_attribute_change (en_name e) (fst p) (snd p) = Inr y) =
        (attribute_compat (fst p) (snd p) \<and> y = attribute_changes (en_name e) (fst p) (snd p))"
      by (rule classify_attribute_change_iff)
  qed
  have flds: "map_result (classify_new_field (en_name e))
      (drop (length (en_attributes e)) (en_attributes e')) = Inr fs \<longleftrightarrow>
      (\<forall>a \<in> set (drop (length (en_attributes e)) (en_attributes e')). \<not> at_required a) \<and>
      fs = new_fields e e'" for fs
    unfolding new_fields_def
    by (rule map_result_rel_iff)
      (use e' in \<open>auto intro!: classify_new_field_iff [OF name] dest: in_set_dropD simp: entity_spec_def\<close>)
  have "classify_entity_metadata e e' = Inr (if en_description e \<noteq> en_description e'
      then [metadata_change_of EntityDescription (Some (en_name e)) None] else [])"
    using name by (simp add: classify_entity_metadata_def note_change_def MetadataChange_def
        checked_def metadata_change_ok_def metadata_change_of_def opt_identifier_def)
  then show ?thesis
    by (auto simp: classify_entity_def bind_sum_Inr_iff attrs flds extends_entity_alt
        entity_changes_def)
qed

section \<open>Named collections\<close>

lemma keep_by_name_iff:
  assumes "distinct (map name ys)"
  shows "keep_by_name name xs ys \<longleftrightarrow> set xs \<subseteq> set ys"
  using find_by_name_iff [OF assms] by (auto simp: keep_by_name_def list_all_iff)

lemma set_new_by_name:
  assumes "distinct (map name ys)" and "set xs \<subseteq> set ys"
  shows "set (new_by_name name xs ys) = set ys - set xs"
proof -
  have "y \<in> set xs" if "y \<in> set ys" "name y \<in> name ` set xs" for y
    using that assms by (auto simp: distinct_map inj_on_def dest: subsetD)
  then show ?thesis by (auto simp: new_by_name_def)
qed

lemma set_new_by_name_names:
  "set (new_by_name name xs ys) = {y \<in> set ys. name y \<notin> name ` set xs}"
  by (auto simp: new_by_name_def)

lemma new_by_name_compiled:
  assumes "\<And>x. k (f x) = h x"
  shows "new_by_name k (map f (sort_key h xs)) (map f (sort_key h ys)) =
    map f (new_by_name h xs ys)"
proof -
  have "k ` set (map f (sort_key h xs)) = h ` set xs" by (simp add: image_image assms)
  then have "filter (\<lambda>y. k y \<notin> k ` set (map f (sort_key h xs))) (map f (sort_key h ys)) =
      map f (sort_key h (filter (\<lambda>y. h y \<notin> h ` set xs) ys))"
    by (simp add: filter_map o_def assms filter_sort)
  then show ?thesis
    unfolding new_by_name_def by (simp add: sort_key_map [of k f h] assms)
qed

lemma keep_by_name_compiled:
  assumes "\<And>x. k (f x) = h x" and "distinct (map h ys)" and "set xs \<subseteq> set ys"
  shows "keep_by_name k (map f (sort_key h xs)) (map f (sort_key h ys))"
proof -
  have "distinct (map k (map f (sort_key h ys)))"
    using assms(1,2) by (simp add: o_def distinct_map_sort_key)
  then show ?thesis using assms(3) by (auto simp: keep_by_name_iff)
qed

lemma length_new_by_name:
  assumes "distinct (map name xs)" "distinct (map name ys)" and "set xs \<subseteq> set ys"
  shows "length (new_by_name name xs ys) + length xs = length ys"
proof -
  have "distinct xs" "distinct ys" "distinct (new_by_name name xs ys)"
    using assms by (auto simp: distinct_map new_by_name_def)
  then have "length (new_by_name name xs ys) = card (set ys - set xs)"
    "length xs = card (set xs)" "length ys = card (set ys)"
    using set_new_by_name [OF assms(2,3)] by (simp_all add: distinct_card [symmetric])
  then show ?thesis using assms(3) by (simp add: card_Diff_subset card_mono)
qed

section \<open>The transition between two valid manifests\<close>

definition counterpart :: "manifest \<Rightarrow> entity_def \<Rightarrow> entity_def" where
  "counterpart t e = (case find_entity (ma_entities t) (en_name e) of None \<Rightarrow> e | Some x \<Rightarrow> x)"

definition global_changes :: "manifest \<Rightarrow> manifest \<Rightarrow> metadata_change list" where
  "global_changes c t =
     (if ma_retrieval_guidance c \<noteq> ma_retrieval_guidance t
      then [metadata_change_of RetrievalGuidance None None] else []) @
     (if ma_query_patterns c \<noteq> ma_query_patterns t
      then [metadata_change_of QueryPatterns None None] else []) @
     (if map facet_key (ma_discovery_facets c) \<noteq> map facet_key (ma_discovery_facets t)
      then [metadata_change_of DiscoveryFacets None None] else [])"

definition additions_of :: "manifest \<Rightarrow> manifest \<Rightarrow> rel_additions" where
  "additions_of c t =
     \<lparr>ad_entities = map entity_of (new_by_name en_name (ma_entities c) (ma_entities t)),
      ad_fields = concat (map (\<lambda>e. new_fields e (counterpart t e)) (sort_key en_name (ma_entities c))),
      ad_relationships =
        map relationship_of (new_by_name re_name (ma_relationships c) (ma_relationships t)),
      ad_indices = map index_of (new_by_name ix_name (ma_indices c) (ma_indices t))\<rparr>"

definition changes_of :: "manifest \<Rightarrow> manifest \<Rightarrow> metadata_change list" where
  "changes_of c t = sort_key metadata_sort_key
     (concat (map (\<lambda>e. entity_changes e (counterpart t e)) (sort_key en_name (ma_entities c))) @
      global_changes c t)"

definition transition_of :: "manifest \<Rightarrow> manifest \<Rightarrow> rel_transition" where
  "transition_of c t =
     \<lparr>tr_current = spec_of c, tr_target = spec_of t, tr_additions = additions_of c t,
      tr_metadata_changes = changes_of c t\<rparr>"

lemma counterpart_eq:
  assumes "manifest_spec t" and "e' \<in> set (ma_entities t)" and "en_name e' = en_name e"
  shows "counterpart t e = e'" "find_entity (ma_entities t) (en_name e) = Some e'"
  using assms find_by_name_iff [OF manifest_spec_distinct(1) [OF assms(1)], of "en_name e" e']
  by (simp_all add: counterpart_def find_entity_def)

lemma counterpart_kept:
  assumes "manifest_spec t" and "keeps_everything c t" and "e \<in> set (ma_entities c)"
  shows "counterpart t e \<in> set (ma_entities t)" "en_name (counterpart t e) = en_name e"
    "extends_entity e (counterpart t e)"
    "find_entity (ma_entities t) (en_name e) = Some (counterpart t e)"
proof -
  obtain e' where "e' \<in> set (ma_entities t)" "en_name e' = en_name e" "extends_entity e e'"
    using assms(2,3) by (auto simp: keeps_everything_def)
  with counterpart_eq [OF assms(1) this(1,2)]
  show "counterpart t e \<in> set (ma_entities t)" "en_name (counterpart t e) = en_name e"
    "extends_entity e (counterpart t e)"
    "find_entity (ma_entities t) (en_name e) = Some (counterpart t e)" by simp_all
qed

lemma classify_source_entity_iff:
  assumes "manifest_spec c" "manifest_spec t" "e \<in> set (ma_entities c)"
  shows "classify_source_entity (ma_entities t) e = Inr r \<longleftrightarrow>
    (\<exists>e' \<in> set (ma_entities t). en_name e' = en_name e \<and> extends_entity e e') \<and>
    r = (entity_changes e (counterpart t e), new_fields e (counterpart t e))"
proof (cases "find_entity (ma_entities t) (en_name e)")
  case None
  then have "\<forall>e' \<in> set (ma_entities t). en_name e' \<noteq> en_name e"
    by (auto simp: find_entity_def find_None_iff)
  with None show ?thesis by (auto simp: classify_source_entity_def)
next
  case (Some e')
  then have e': "e' \<in> set (ma_entities t)" "en_name e' = en_name e"
    by (auto simp: find_entity_def dest: find_Some_iff_first)
  have u: "x = e'" if "x \<in> set (ma_entities t)" "en_name x = en_name e" for x
    using counterpart_eq(2) [OF assms(2) that] Some by simp
  have "entity_spec e" "entity_spec e'" using assms e' by (auto simp: manifest_spec_def)
  note entity = classify_entity_iff [OF this, of r]
  have "(\<exists>x \<in> set (ma_entities t). en_name x = en_name e \<and> extends_entity e x) \<longleftrightarrow>
      extends_entity e e'"
    using e' u by blast
  then show ?thesis
    using entity Some counterpart_eq(1) [OF assms(2) e']
    by (simp add: classify_source_entity_def)
qed

lemma classify_global_metadata_eq: "classify_global_metadata c t = Inr (global_changes c t)"
  by (simp add: classify_global_metadata_def note_change_def MetadataChange_def checked_def
      metadata_change_ok_def metadata_change_of_def global_changes_def)

lemma history_extension_iff:
  assumes "manifest_spec c" "manifest_spec t" "ma_schema_version t = ma_schema_version c + 1"
  shows "history_is_one_entry_extension c t \<longleftrightarrow>
    (\<exists>h. ma_migration_history t = ma_migration_history c @ [h])"
proof
  assume "history_is_one_entry_extension c t"
  then show "\<exists>h. ma_migration_history t = ma_migration_history c @ [h]"
    unfolding history_is_one_entry_extension_def by (metis append_butlast_last_id)
next
  assume "\<exists>h. ma_migration_history t = ma_migration_history c @ [h]"
  then obtain h where h: "ma_migration_history t = ma_migration_history c @ [h]" ..
  let ?n = "length (ma_migration_history c)"
  have "hi_from (ma_migration_history t ! ?n) = int ?n + 1"
    "hi_to (ma_migration_history t ! ?n) = int ?n + 2"
    using assms(2) h by (auto simp: manifest_spec_def history_spec_def)
  moreover have "int ?n = ma_schema_version c - 1"
    using assms(1) by (simp add: manifest_spec_def history_spec_def)
  ultimately show "history_is_one_entry_extension c t"
    using h assms(3) by (simp add: history_is_one_entry_extension_def)
qed

lemma classify_relationships_iff:
  assumes c: "manifest_spec c" and t: "manifest_spec t"
    and n: "set new = en_name ` set (ma_entities t) - en_name ` set (ma_entities c)"
  shows "classify_relationships c t new = Inr rs \<longleftrightarrow>
    set (ma_relationships c) \<subseteq> set (ma_relationships t) \<and>
    (\<forall>r \<in> set (ma_relationships t) - set (ma_relationships c).
        ep_entity (re_from r) \<notin> en_name ` set (ma_entities c)) \<and>
    rs = map relationship_of (new_by_name re_name (ma_relationships c) (ma_relationships t))"
proof -
  have d: "distinct (map re_name (ma_relationships t))"
    using manifest_spec_distinct [OF t] by simp
  have one: "classify_new_relationship new r = Inr y \<longleftrightarrow>
      ep_entity (re_from r) \<notin> en_name ` set (ma_entities c) \<and> y = relationship_of r"
    if r: "r \<in> set (ma_relationships t)" for r y
  proof -
    have "ep_entity (re_from r) \<in> en_name ` set (ma_entities t)"
      using t r by (auto simp: manifest_spec_def relationship_spec_def resolves_def rev_image_eqI)
    with n relationship_ok [OF t r] show ?thesis
      by (auto simp: classify_new_relationship_def compile_relationship_def checked_def)
  qed
  have "map_result (classify_new_relationship new)
      (new_by_name re_name (ma_relationships c) (ma_relationships t)) = Inr rs \<longleftrightarrow>
      (\<forall>r \<in> set (new_by_name re_name (ma_relationships c) (ma_relationships t)).
         ep_entity (re_from r) \<notin> en_name ` set (ma_entities c)) \<and>
      rs = map relationship_of (new_by_name re_name (ma_relationships c) (ma_relationships t))"
    by (rule map_result_rel_iff) (auto simp: set_new_by_name_names intro!: one)
  then show ?thesis
    by (auto simp: classify_relationships_def keep_by_name_iff [OF d] set_new_by_name [OF d])
qed

lemma classify_indices_iff:
  assumes t: "manifest_spec t"
  shows "classify_indices c t = Inr is \<longleftrightarrow>
    set (ma_indices c) \<subseteq> set (ma_indices t) \<and>
    is = map index_of (new_by_name ix_name (ma_indices c) (ma_indices t))"
proof -
  have d: "distinct (map ix_name (ma_indices t))" using manifest_spec_distinct [OF t] by simp
  have "map_result compile_index (new_by_name ix_name (ma_indices c) (ma_indices t)) =
      Inr (map index_of (new_by_name ix_name (ma_indices c) (ma_indices t)))"
    by (rule map_result_valid)
      (auto simp: set_new_by_name_names compile_index_def checked_def intro: index_ok [OF t])
  then show ?thesis by (auto simp: classify_indices_def keep_by_name_iff [OF d])
qed

section \<open>The factory check accepts the classification\<close>

lemma distinct_attribute_changes: "distinct (attribute_changes n a b)"
  by (simp add: attribute_changes_def metadata_change_of_def)

lemma attribute_changes_key:
  "x \<in> set (attribute_changes n a b) \<Longrightarrow> mc_entity x = Some n \<and> mc_field x = Some (at_name a)"
  by (auto simp: attribute_changes_def metadata_change_of_def split: if_splits)

lemma entity_changes_key: "x \<in> set (entity_changes e e') \<Longrightarrow> mc_entity x = Some (en_name e)"
  by (auto simp: entity_changes_def metadata_change_of_def dest: attribute_changes_key
      split: if_splits)

lemma distinct_entity_changes:
  assumes "distinct (map at_name (en_attributes e))"
  shows "distinct (entity_changes e e')"
proof -
  let ?z = "zip (en_attributes e) (take (length (en_attributes e)) (en_attributes e'))"
  have "distinct (map at_name (map fst ?z))"
    using assms by (simp add: map_fst_zip_take distinct_map take_map [symmetric] del: map_map)
  then have "distinct (map (\<lambda>p. Some (at_name (fst p))) ?z)"
    by (simp add: o_def distinct_map inj_on_def)
  then have "distinct (concat (map (\<lambda>p. attribute_changes (en_name e) (fst p) (snd p)) ?z))"
    by (rule distinct_concat_keyed [rotated 1, where k = mc_field])
      (auto simp: distinct_attribute_changes dest: attribute_changes_key)
  moreover have "metadata_change_of EntityDescription (Some (en_name e)) None
      \<notin> set (concat (map (\<lambda>p. attribute_changes (en_name e) (fst p) (snd p)) ?z))"
    by (auto dest!: attribute_changes_key simp: metadata_change_of_def)
  ultimately show ?thesis by (simp add: entity_changes_def)
qed

lemma distinct_changes_of:
  assumes "manifest_spec c"
  shows "distinct (changes_of c t)"
proof -
  have d: "distinct (map en_name (sort_key en_name (ma_entities c)))"
    using manifest_spec_distinct [OF assms] by (simp add: distinct_map_sort_key)
  then have "distinct (map (\<lambda>e. Some (en_name e)) (sort_key en_name (ma_entities c)))"
    by (simp add: distinct_map inj_on_def)
  then have "distinct (concat (map (\<lambda>e. entity_changes e (counterpart t e))
      (sort_key en_name (ma_entities c))))"
    by (rule distinct_concat_keyed [rotated 1, where k = mc_entity])
      (use manifest_spec_distinct(4) [OF assms] in
        \<open>auto intro: distinct_entity_changes dest: entity_changes_key\<close>)
  moreover have "distinct (global_changes c t)"
    by (simp add: global_changes_def metadata_change_of_def)
  moreover have "mc_entity x = None" if "x \<in> set (global_changes c t)" for x
    using that by (auto simp: global_changes_def metadata_change_of_def split: if_splits)
  ultimately show ?thesis
    unfolding changes_of_def by (auto dest!: entity_changes_key)
qed

lemma new_fields_key: "d \<in> set (new_fields e e') \<Longrightarrow> fd_entity d = en_name e"
  by (auto simp: new_fields_def)

lemma extends_prefix:
  assumes "extends_entity e e'"
  shows "map field_of (en_attributes e') =
    map field_of (en_attributes e) @ map fd_field (new_fields e e')"
proof -
  obtain old new where *: "en_attributes e' = old @ new"
    and old: "list_all2 attribute_compat (en_attributes e) old"
    using assms by (auto simp: extends_entity_def)
  have "map field_of (en_attributes e) = map field_of old"
    using old by (induction rule: list_all2_induct) (auto simp: attribute_compat_def)
  moreover have "length (en_attributes e) = length old" using old by (rule list_all2_lengthD)
  ultimately show ?thesis by (simp add: * new_fields_def o_def)
qed

lemma expected_entity_fields_valid:
  assumes c: "manifest_spec c" and t: "manifest_spec t" and k: "keeps_everything c t"
    and e: "e \<in> set (ma_entities c)"
  shows "expected_entity_fields (rs_entities (spec_of t)) (entity_of e) =
    Inr (new_fields e (counterpart t e))"
proof -
  note e' = counterpart_kept [OF t k e]
  let ?x = "counterpart t e" and ?n = "length (en_attributes e)"
  have "find_entity (sort_key en_name (ma_entities t)) (en_name e) = Some ?x"
    unfolding find_entity_def
    by (rule find_by_name_iff [THEN iffD2])
      (use e' manifest_spec_distinct [OF t] in \<open>simp_all add: distinct_map_sort_key\<close>)
  then have f: "find_rel_entity (rs_entities (spec_of t)) (rt_name (entity_of e)) = Some (entity_of ?x)"
    by (simp add: find_rel_entity_entity_of)
  have le: "?n \<le> length (en_attributes ?x)" using e'(3) by (simp add: extends_entity_alt)
  have "take ?n (map field_of (en_attributes ?x)) = map field_of (en_attributes e)"
    unfolding extends_prefix [OF e'(3)] by simp
  moreover have "map_result (\<lambda>f. if rf_required f \<or> rf_primary_key f then Inl RelationalContractError
       else checked (is_identifier (en_name e)) \<lparr>fd_entity = en_name e, fd_field = f\<rparr>)
      (drop ?n (map field_of (en_attributes ?x))) =
      Inr (map (\<lambda>f. \<lparr>fd_entity = en_name e, fd_field = f\<rparr>) (drop ?n (map field_of (en_attributes ?x))))"
  proof (rule map_result_valid)
    fix f assume "f \<in> set (drop ?n (map field_of (en_attributes ?x)))"
    then obtain a where a: "a \<in> set (drop ?n (en_attributes ?x))" "f = field_of a"
      by (auto simp: drop_map)
    then have "\<not> at_required a" "attribute_spec a"
      using e'(1,3) t by (auto simp: extends_entity_alt manifest_spec_def entity_spec_def
          dest: in_set_dropD)
    moreover have "is_identifier (en_name e)"
      using c e by (auto simp: manifest_spec_def entity_spec_def)
    ultimately show "(if rf_required f \<or> rf_primary_key f then Inl RelationalContractError
       else checked (is_identifier (en_name e)) \<lparr>fd_entity = en_name e, fd_field = f\<rparr>) =
      Inr \<lparr>fd_entity = en_name e, fd_field = f\<rparr>"
      using a(2) by (auto simp: checked_def attribute_spec_def)
  qed
  ultimately show ?thesis
    using f le by (simp add: expected_entity_fields_def new_fields_def drop_map o_def
        cong: if_cong)
qed

lemma expected_additions_valid:
  assumes c: "manifest_spec c" and t: "manifest_spec t" and k: "keeps_everything c t"
  shows "expected_additions (spec_of c) (spec_of t) = Inr (additions_of c t)"
proof -
  note dc = manifest_spec_distinct [OF c] and dt = manifest_spec_distinct [OF t]
  have rel: "set (ma_relationships c) \<subseteq> set (ma_relationships t)"
    and ind: "set (ma_indices c) \<subseteq> set (ma_indices t)"
    using k by (auto simp: keeps_everything_def)
  let ?new = "filter (\<lambda>n. n \<notin> rt_name ` set (rs_entities (spec_of c)))
    (map rt_name (rs_entities (spec_of t)))"
  let ?rels = "map relationship_of (new_by_name re_name (ma_relationships c) (ma_relationships t))"
  have names: "list_all (\<lambda>e. rt_name e \<in> rt_name ` set (rs_entities (spec_of t)))
      (rs_entities (spec_of c))"
  proof -
    have "en_name e \<in> en_name ` set (ma_entities t)" if "e \<in> set (ma_entities c)" for e
      using counterpart_kept(1,2) [OF t k that] by (metis image_eqI)
    then show ?thesis by (simp add: list_all_iff image_image)
  qed
  have fields: "map_result (expected_entity_fields (rs_entities (spec_of t)))
      (sort_key rt_name (rs_entities (spec_of c))) =
      Inr (map (\<lambda>e. new_fields e (counterpart t e)) (sort_key en_name (ma_entities c)))"
  proof -
    have "sort_key rt_name (rs_entities (spec_of c)) =
        map entity_of (sort_key en_name (ma_entities c))"
      by (simp add: sort_key_map [of rt_name entity_of en_name])
    moreover have "map_result (\<lambda>e. expected_entity_fields (rs_entities (spec_of t)) (entity_of e))
        (sort_key en_name (ma_entities c)) =
        Inr (map (\<lambda>e. new_fields e (counterpart t e)) (sort_key en_name (ma_entities c)))"
      by (rule map_result_valid) (simp add: expected_entity_fields_valid [OF c t k] del: spec_of_simps)
    ultimately show ?thesis by (simp add: map_result_map o_def)
  qed
  have "filter (\<lambda>r. rr_source_entity r \<in> set ?new) ?rels = ?rels"
  proof (rule filter_True, rule ballI)
    fix x assume "x \<in> set ?rels"
    then obtain r where r: "r \<in> set (ma_relationships t)" "r \<notin> set (ma_relationships c)"
      "x = relationship_of r"
      by (auto simp: set_new_by_name [OF dt(2) rel])
    then have "ep_entity (re_from r) \<notin> en_name ` set (ma_entities c)"
      using k by (auto simp: keeps_everything_def)
    moreover have "ep_entity (re_from r) \<in> en_name ` set (ma_entities t)"
      using t r by (auto simp: manifest_spec_def relationship_spec_def resolves_def rev_image_eqI)
    ultimately show "rr_source_entity x \<in> set ?new" using r(3) by (auto simp: image_image)
  qed
  moreover have "new_by_name rr_name (rs_relationships (spec_of c)) (rs_relationships (spec_of t)) = ?rels"
    by (simp add: new_by_name_compiled)
  ultimately have rels: "filter (\<lambda>r. rr_source_entity r \<in> set ?new)
      (new_by_name rr_name (rs_relationships (spec_of c)) (rs_relationships (spec_of t))) = ?rels"
    by simp
  have "length ?rels + length (rs_relationships (spec_of c)) = length (rs_relationships (spec_of t))"
    using length_new_by_name [OF dc(2) dt(2) rel] by simp
  moreover have "keep_by_name rr_name (rs_relationships (spec_of c)) (rs_relationships (spec_of t))"
    "keep_by_name ri_name (rs_indices (spec_of c)) (rs_indices (spec_of t))"
    using rel ind dt by (auto intro: keep_by_name_compiled)
  moreover have "new_by_name rt_name (rs_entities (spec_of c)) (rs_entities (spec_of t)) =
      map entity_of (new_by_name en_name (ma_entities c) (ma_entities t))"
    "new_by_name ri_name (rs_indices (spec_of c)) (rs_indices (spec_of t)) =
      map index_of (new_by_name ix_name (ma_indices c) (ma_indices t))"
    by (simp_all add: new_by_name_compiled)
  ultimately show ?thesis
    unfolding expected_additions_def Let_def rels fields additions_of_def
    using names by (simp only: bind_sum.simps if_False if_True simp_thms)
qed

lemma build_transition_valid:
  assumes c: "manifest_spec c" and t: "manifest_spec t" and k: "keeps_everything c t"
    and v: "ma_schema_version t = ma_schema_version c + 1"
    and n: "\<not> (no_additions (additions_of c t) \<and> changes_of c t = [])"
  shows "build_transition (spec_of c) (spec_of t) (additions_of c t) (changes_of c t) =
    Inr (transition_of c t)"
proof -
  have "sort_key metadata_sort_key (changes_of c t) = changes_of c t"
    by (simp add: changes_of_def)
  then show ?thesis
    using distinct_changes_of [OF c] expected_additions_valid [OF c t k] v n
    by (auto simp: build_transition_def transition_of_def checked_def)
qed

section \<open>No difference\<close>

lemma attribute_changes_Nil_iff:
  "attribute_changes n a b = [] \<longleftrightarrow>
     at_description a = at_description b \<and> at_retrieval_mode a = at_retrieval_mode b \<and>
     map_option set (at_allowed_values a) = map_option set (at_allowed_values b)"
  by (auto simp: attribute_changes_def)

definition attribute_note ::
  "attribute_def \<Rightarrow> pystr \<times> pystr option \<times> retrieval_mode option \<times> pyval set option" where
  "attribute_note a = (at_name a, at_description a, at_retrieval_mode a,
     map_option set (at_allowed_values a))"

lemma entity_changes_Nil_iff:
  assumes "extends_entity e e'"
  shows "entity_changes e e' = [] \<longleftrightarrow> en_description e = en_description e' \<and>
    map attribute_note (en_attributes e) =
    map attribute_note (take (length (en_attributes e)) (en_attributes e'))"
proof -
  define old where "old = take (length (en_attributes e)) (en_attributes e')"
  have len: "length (en_attributes e) = length old"
    using assms by (simp add: extends_entity_alt old_def)
  have "list_all2 attribute_compat (en_attributes e) old"
    using len assms unfolding list_all2_iff extends_entity_alt case_prod_unfold old_def by blast
  then have names: "at_name (en_attributes e ! i) = at_name (old ! i)"
    if "i < length (en_attributes e)" for i
    using that by (auto simp: list_all2_conv_all_nth attribute_compat_def field_of_eq_iff)
  have "(\<forall>p \<in> set (zip (en_attributes e) old). attribute_changes (en_name e) (fst p) (snd p) = []) \<longleftrightarrow>
      (\<forall>i < length (en_attributes e).
        attribute_changes (en_name e) (en_attributes e ! i) (old ! i) = [])"
    using len by (auto simp: set_zip)
  also have "\<dots> \<longleftrightarrow>
      (\<forall>i < length (en_attributes e). attribute_note (en_attributes e ! i) = attribute_note (old ! i))"
    using names by (simp add: attribute_changes_Nil_iff attribute_note_def)
  also have "\<dots> \<longleftrightarrow> map attribute_note (en_attributes e) = map attribute_note old"
    using len by (simp add: list_eq_iff_nth_eq [of "map attribute_note (en_attributes e)"])
  finally show ?thesis by (auto simp: entity_changes_def old_def)
qed

lemma changes_of_Nil_iff:
  "changes_of c t = [] \<longleftrightarrow>
     (\<forall>e \<in> set (ma_entities c). entity_changes e (counterpart t e) = []) \<and> global_changes c t = []"
proof -
  have "sort_key k xs = [] \<longleftrightarrow> xs = []" for k :: "metadata_change \<Rightarrow> _" and xs
    by (metis set_empty set_sort)
  then show ?thesis unfolding changes_of_def by auto
qed

lemma new_by_name_Nil_iff:
  "new_by_name name xs ys = [] \<longleftrightarrow> name ` set ys \<subseteq> name ` set xs"
proof -
  have "new_by_name name xs ys = [] \<longleftrightarrow> set (new_by_name name xs ys) = {}" by simp
  then show ?thesis by (auto simp: set_new_by_name_names)
qed

lemma no_additions_iff:
  "no_additions (additions_of c t) \<longleftrightarrow>
     en_name ` set (ma_entities t) \<subseteq> en_name ` set (ma_entities c) \<and>
     re_name ` set (ma_relationships t) \<subseteq> re_name ` set (ma_relationships c) \<and>
     ix_name ` set (ma_indices t) \<subseteq> ix_name ` set (ma_indices c) \<and>
     (\<forall>e \<in> set (ma_entities c).
        length (en_attributes (counterpart t e)) \<le> length (en_attributes e))"
  by (auto simp: no_additions_def additions_of_def new_by_name_Nil_iff new_fields_def)

text \<open>The notes of one manifest are the notes of its entities.\<close>

lemma attribute_notes_alt:
  "attribute_notes m =
    (\<Union>e \<in> set (ma_entities m). Pair (en_name e) ` set (map attribute_note (en_attributes e)))"
  by (auto simp: attribute_notes_def attribute_note_def image_image)

lemma map_eq_by_key:
  assumes "map k xs = map k ys" and "distinct (map k xs)"
    and "\<And>x. x \<in> set xs \<Longrightarrow> \<exists>y \<in> set ys. f x = f y \<and> k x = k y"
  shows "map f xs = map f ys"
proof (rule nth_equalityI)
  show len: "length (map f xs) = length (map f ys)" using assms(1) map_eq_imp_length_eq by force
  fix i assume i: "i < length (map f xs)"
  then obtain y where "y \<in> set ys" "f (xs ! i) = f y" "k (xs ! i) = k y"
    using assms(3) [of "xs ! i"] by auto
  then obtain j where j: "j < length ys" "f (xs ! i) = f (ys ! j)" "k (xs ! i) = k (ys ! j)"
    by (auto simp: in_set_conv_nth)
  have "map k ys ! i = map k ys ! j"
    using i j len assms(1) by (metis length_map nth_map)
  then have "i = j" using assms(1,2) i j(1) len by (metis length_map nth_eq_iff_index_eq)
  with i j show "map f xs ! i = map f ys ! i" by simp
qed

lemma sort_key_compiled:
  assumes "\<And>x. k (f x) = h x" and "distinct (map h xs)" "distinct (map h ys)"
    and "f ` set xs = f ` set ys"
  shows "map f (sort_key h xs) = map f (sort_key h ys)"
proof -
  have "sort_key k (map f xs) = sort_key k (map f ys)"
    by (rule sort_key_distinct_unique) (use assms in \<open>simp_all add: o_def\<close>)
  then show ?thesis by (simp add: sort_key_map [of k f h] assms(1))
qed

lemma no_difference_unchanged:
  assumes c: "manifest_spec c" and t: "manifest_spec t" and k: "keeps_everything c t"
    and none: "no_additions (additions_of c t)" "changes_of c t = []"
  shows "unchanged c t"
proof -
  note dc = manifest_spec_distinct [OF c] and dt = manifest_spec_distinct [OF t]
  have same: "entity_of (counterpart t e) = entity_of e \<and>
      en_description (counterpart t e) = en_description e \<and>
      map attribute_note (en_attributes (counterpart t e)) = map attribute_note (en_attributes e)"
    if e: "e \<in> set (ma_entities c)" for e
  proof -
    note x = counterpart_kept [OF t k e]
    have le: "length (en_attributes (counterpart t e)) \<le> length (en_attributes e)"
      using none(1) e by (simp add: no_additions_iff)
    then have "new_fields e (counterpart t e) = []" by (simp add: new_fields_def)
    with extends_prefix [OF x(3)] x(2) have "entity_of (counterpart t e) = entity_of e"
      by (simp add: entity_of_def)
    moreover have "entity_changes e (counterpart t e) = []"
      using none(2) e by (simp add: changes_of_Nil_iff)
    ultimately show ?thesis using le by (simp add: entity_changes_Nil_iff [OF x(3)])
  qed
  have ents: "set (ma_entities t) = counterpart t ` set (ma_entities c)"
  proof (rule set_eqI, rule iffI)
    fix x assume x: "x \<in> set (ma_entities t)"
    then have "en_name x \<in> en_name ` set (ma_entities c)"
      using none(1) by (auto simp: no_additions_iff)
    then obtain e where e: "e \<in> set (ma_entities c)" "en_name x = en_name e" by auto
    then have "counterpart t e = x" using counterpart_eq(1) [OF t x] by simp
    with e show "x \<in> counterpart t ` set (ma_entities c)" by (metis image_eqI)
  qed (use counterpart_kept(1) [OF t k] in auto)
  have rels: "set (ma_relationships c) = set (ma_relationships t)"
    and inds: "set (ma_indices c) = set (ma_indices t)"
    using k none(1) set_new_by_name [OF dt(2), of "ma_relationships c"]
      set_new_by_name [OF dt(3), of "ma_indices c"]
    by (auto simp: keeps_everything_def no_additions_def additions_of_def)
  have "entity_of ` set (ma_entities c) = entity_of ` set (ma_entities t)"
    unfolding ents image_image using same by simp
  then have "same_structure_as (spec_of c) (spec_of t)"
    using sort_key_compiled [of rt_name entity_of en_name "ma_entities c" "ma_entities t"]
      sort_key_distinct_unique [OF dc(2) dt(2) rels] sort_key_distinct_unique [OF dc(3) dt(3) inds]
      dc(1) dt(1) by (simp add: same_structure_as_def)
  moreover have "entity_notes c = entity_notes t"
    unfolding entity_notes_def ents image_image using same counterpart_kept(2) [OF t k] by simp
  moreover have "attribute_notes c = attribute_notes t"
    unfolding attribute_notes_alt ents using same counterpart_kept(2) [OF t k]
    by (simp del: set_map)
  moreover have "global_changes c t = []" using none(2) by (simp add: changes_of_Nil_iff)
  ultimately show ?thesis by (auto simp: unchanged_def global_changes_def split: if_splits)
qed

lemma unchanged_no_difference:
  assumes c: "manifest_spec c" and t: "manifest_spec t" and k: "keeps_everything c t"
    and u: "unchanged c t"
  shows "no_additions (additions_of c t)" "changes_of c t = []"
proof -
  note dc = manifest_spec_distinct [OF c]
  have s: "map entity_of (sort_key en_name (ma_entities c)) =
      map entity_of (sort_key en_name (ma_entities t))"
    "map relationship_of (sort_key re_name (ma_relationships c)) =
      map relationship_of (sort_key re_name (ma_relationships t))"
    "map index_of (sort_key ix_name (ma_indices c)) = map index_of (sort_key ix_name (ma_indices t))"
    using u by (simp_all add: unchanged_def same_structure_as_def)
  have im: "entity_of ` set (ma_entities c) = entity_of ` set (ma_entities t)"
    "relationship_of ` set (ma_relationships c) = relationship_of ` set (ma_relationships t)"
    "index_of ` set (ma_indices c) = index_of ` set (ma_indices t)"
    using s [THEN arg_cong [where f = set]] by simp_all
  have names: "en_name ` set (ma_entities c) = en_name ` set (ma_entities t)"
    "re_name ` set (ma_relationships c) = re_name ` set (ma_relationships t)"
    "ix_name ` set (ma_indices c) = ix_name ` set (ma_indices t)"
    using im(1) [THEN arg_cong [where f = "image rt_name"]]
      im(2) [THEN arg_cong [where f = "image rr_name"]]
      im(3) [THEN arg_cong [where f = "image ri_name"]] by (simp_all add: image_image)
  have eq: "entity_of (counterpart t e) = entity_of e \<and> entity_changes e (counterpart t e) = []"
    if e: "e \<in> set (ma_entities c)" for e
  proof -
    note x = counterpart_kept [OF t k e]
    let ?x = "counterpart t e"
    have uniq: "y = ?x" if "y \<in> set (ma_entities t)" "en_name y = en_name e" for y
      using counterpart_eq(1) [OF t that] by simp
    have "entity_of e \<in> entity_of ` set (ma_entities t)" using im(1) e by blast
    then obtain y where y: "y \<in> set (ma_entities t)" "entity_of e = entity_of y" by auto
    then have "en_name y = en_name e" by (metis entity_of_simps(1))
    with uniq y have ent: "entity_of ?x = entity_of e" by simp
    then have fl: "map field_of (en_attributes e) = map field_of (en_attributes ?x)"
      by (simp add: entity_of_def)
    then have len: "length (en_attributes e) = length (en_attributes ?x)"
      by (rule map_eq_imp_length_eq)
    have "(en_name e, en_description e) \<in> entity_notes t"
      using u e by (auto simp: unchanged_def entity_notes_def)
    then have desc: "en_description e = en_description ?x"
      using uniq by (auto simp: entity_notes_def)
    have "map attribute_note (en_attributes e) = map attribute_note (en_attributes ?x)"
    proof (rule map_eq_by_key)
      show "map at_name (en_attributes e) = map at_name (en_attributes ?x)"
        using fl [THEN arg_cong [where f = "map rf_name"]] by (simp add: o_def)
      show "distinct (map at_name (en_attributes e))" using dc(4) e by simp
      fix a assume a: "a \<in> set (en_attributes e)"
      then have "(en_name e, attribute_note a) \<in> attribute_notes c"
        using e by (auto simp: attribute_notes_alt)
      then have "(en_name e, attribute_note a) \<in> attribute_notes t"
        using u by (simp add: unchanged_def)
      then obtain y b where "y \<in> set (ma_entities t)" "en_name y = en_name e"
        "b \<in> set (en_attributes y)" "attribute_note a = attribute_note b"
        by (auto simp: attribute_notes_alt)
      with uniq show "\<exists>b \<in> set (en_attributes ?x).
          attribute_note a = attribute_note b \<and> at_name a = at_name b"
        by (auto simp: attribute_note_def)
    qed
    then have "entity_changes e ?x = []"
      using desc len by (simp add: entity_changes_Nil_iff [OF x(3)])
    with ent show ?thesis by simp
  qed
  have "length (en_attributes (counterpart t e)) = length (en_attributes e)"
    if "e \<in> set (ma_entities c)" for e
    using eq [OF that] by (auto simp: entity_of_def dest: map_eq_imp_length_eq)
  then show "no_additions (additions_of c t)" using names by (simp add: no_additions_iff)
  show "changes_of c t = []"
    using eq u by (simp add: changes_of_Nil_iff unchanged_def global_changes_def)
qed

section \<open>The classification implements the specification\<close>

lemma classify_transition_iff:
  "classify_transition c t = Inr tr \<longleftrightarrow> additive c t \<and> tr = transition_of c t"
proof (cases "manifest_spec c \<and> manifest_spec t \<and> ma_schema_version t = ma_schema_version c + 1 \<and>
    (\<exists>h. ma_migration_history t = ma_migration_history c @ [h])")
  case False
  then show ?thesis
    by (auto simp: classify_transition_def bind_sum_Inr_iff detached_manifest_iff additive_def
        history_extension_iff)
next
  case True
  then have c: "manifest_spec c" and t: "manifest_spec t"
    and v: "ma_schema_version t = ma_schema_version c + 1"
    and h: "history_is_one_entry_extension c t" by (auto simp: history_extension_iff)
  let ?new = "filter (\<lambda>n. n \<notin> en_name ` set (ma_entities c)) (map en_name (ma_entities t))"
  have new: "set ?new = en_name ` set (ma_entities t) - en_name ` set (ma_entities c)" by auto
  have per: "map_result (classify_source_entity (ma_entities t)) (sort_key en_name (ma_entities c)) =
      Inr ps \<longleftrightarrow> (\<forall>e \<in> set (ma_entities c). \<exists>e' \<in> set (ma_entities t).
        en_name e' = en_name e \<and> extends_entity e e') \<and>
      ps = map (\<lambda>e. (entity_changes e (counterpart t e), new_fields e (counterpart t e)))
        (sort_key en_name (ma_entities c))" for ps
    using map_result_rel_iff [where f = "classify_source_entity (ma_entities t)" and ys = ps
        and xs = "sort_key en_name (ma_entities c)"
        and P = "\<lambda>e. \<exists>e' \<in> set (ma_entities t). en_name e' = en_name e \<and> extends_entity e e'"
        and g = "\<lambda>e. (entity_changes e (counterpart t e), new_fields e (counterpart t e))"]
      classify_source_entity_iff [OF c t] by simp
  have "sort_key rt_name (filter (\<lambda>e. rt_name e \<in> set ?new) (rs_entities (spec_of t))) =
      map entity_of (new_by_name en_name (ma_entities c) (ma_entities t))"
  proof -
    have "filter (\<lambda>e. rt_name e \<in> set ?new) (rs_entities (spec_of t)) =
        map entity_of (sort_key en_name (filter (\<lambda>e. en_name e \<notin> en_name ` set (ma_entities c))
          (ma_entities t)))"
      unfolding spec_of_simps filter_map o_def entity_of_simps filter_sort [symmetric] new
      by (rule arg_cong [where f = "map entity_of"], rule filter_cong) (auto simp: image_iff)
    then show ?thesis by (simp add: new_by_name_def sort_key_map [of rt_name entity_of en_name])
  qed
  then have ad: "sort_key rt_name (filter (\<lambda>e. rt_name e \<in> en_name ` set (ma_entities t) \<and>
        rt_name e \<notin> en_name ` set (ma_entities c)) (rs_entities (spec_of t))) =
      map entity_of (new_by_name en_name (ma_entities c) (ma_entities t))"
    by (simp del: spec_of_simps)
  show ?thesis
  proof (cases "keeps_everything c t")
    case k: True
    then have names: "list_all (\<lambda>e. en_name e \<in> en_name ` set (ma_entities t)) (ma_entities c)"
      using counterpart_kept(1,2) [OF t k] by (metis (mono_tags, lifting) image_eqI list_all_iff)
    have unch: "unchanged c t \<longleftrightarrow> no_additions (additions_of c t) \<and> changes_of c t = []"
      using no_difference_unchanged [OF c t k] unchanged_no_difference [OF c t k] by blast
    have "classify_transition c t =
        (if no_additions (additions_of c t) \<and> changes_of c t = [] then Inl RelationalContractError
         else build_transition (spec_of c) (spec_of t) (additions_of c t) (changes_of c t))"
      using c t v h names k
        classify_relationships_iff [OF c t new, THEN iffD2] classify_indices_iff [OF t, THEN iffD2]
      by (simp add: classify_transition_def detached_manifest_iff [THEN iffD2] compile_checked_valid
          per [THEN iffD2] classify_global_metadata_eq Let_def keeps_everything_def ad
          additions_of_def changes_of_def o_def del: spec_of_simps)
    then show ?thesis
      using build_transition_valid [OF c t k v] True k unch by (auto simp: additive_def)
  next
    case False
    have "keeps_everything c t" if "classify_transition c t = Inr tr"
      using that c t
      by (auto simp: classify_transition_def bind_sum_Inr_iff detached_manifest_iff per
          classify_relationships_iff [OF c t new] classify_indices_iff [OF t] Let_def
          keeps_everything_def split: if_splits)
    with False show ?thesis by (auto simp: additive_def)
  qed
qed

section \<open>Applying the additions\<close>

definition extend_fields :: "field_addition list \<Rightarrow> rel_entity \<Rightarrow> rel_entity" where
  "extend_fields ds e = e\<lparr>rt_fields := rt_fields e @
     map fd_field (filter (\<lambda>d. fd_entity d = rt_name e) ds)\<rparr>"

definition apply_additions :: "rel_specification \<Rightarrow> rel_additions \<Rightarrow> rel_specification" where
  "apply_additions s a =
     \<lparr>rs_schema_version = rs_schema_version s + 1,
      rs_entities = sort_key rt_name (map (extend_fields (ad_fields a)) (rs_entities s) @ ad_entities a),
      rs_relationships = sort_key rr_name (rs_relationships s @ ad_relationships a),
      rs_indices = sort_key ri_name (rs_indices s @ ad_indices a)\<rparr>"

lemma additions_for_entity:
  assumes c: "manifest_spec c" and e: "e \<in> set (ma_entities c)"
  shows "filter (\<lambda>d. fd_entity d = en_name e) (ad_fields (additions_of c t)) =
    new_fields e (counterpart t e)"
proof -
  have "distinct (map en_name es) \<Longrightarrow> e \<in> set es \<Longrightarrow>
      filter (\<lambda>d. fd_entity d = en_name e) (concat (map (\<lambda>e. new_fields e (counterpart t e)) es)) =
      new_fields e (counterpart t e)" for es
  proof (induction es)
    case (Cons x es)
    have other: "filter (\<lambda>d. fd_entity d = en_name e) (new_fields y z) = []"
      if "en_name y \<noteq> en_name e" for y z
      using that by (auto simp: filter_empty_conv dest: new_fields_key)
    have same: "filter (\<lambda>d. fd_entity d = en_name e) (new_fields e z) = new_fields e z" for z
      by (auto simp: filter_id_conv dest: new_fields_key)
    show ?case
    proof (cases "x = e")
      case True
      then have "filter (\<lambda>d. fd_entity d = en_name e)
          (concat (map (\<lambda>e. new_fields e (counterpart t e)) es)) = []"
        using Cons.prems(1) by (auto simp: filter_empty_conv dest!: new_fields_key intro: rev_image_eqI)
      with True same show ?thesis by simp
    next
      case False
      then have "en_name x \<noteq> en_name e" using Cons.prems by (auto simp: rev_image_eqI)
      with other Cons False show ?thesis by simp
    qed
  qed simp
  from this [of "sort_key en_name (ma_entities c)"] e manifest_spec_distinct(1) [OF c]
  show ?thesis by (simp add: additions_of_def distinct_map_sort_key)
qed

lemma extend_fields_entity:
  assumes "manifest_spec c" "manifest_spec t" "keeps_everything c t" "e \<in> set (ma_entities c)"
  shows "extend_fields (ad_fields (additions_of c t)) (entity_of e) = entity_of (counterpart t e)"
  using additions_for_entity [OF assms(1,4)] counterpart_kept [OF assms(2-4)]
    extends_prefix [of e "counterpart t e"]
  by (simp add: extend_fields_def entity_of_def)

lemma sorted_recompose:
  assumes "\<And>x. k (f x) = h x" and "distinct (map h ys)" and "set xs \<union> set zs = set ys"
    and "distinct (map h (xs @ zs))"
  shows "sort_key k (map f (sort_key h xs) @ map f zs) = map f (sort_key h ys)"
proof -
  have "sort_key k (map f (sort_key h xs) @ map f zs) = map f (sort_key h (sort_key h xs @ zs))"
    using sort_key_map [of k f h "sort_key h xs @ zs"] assms(1) by simp
  also have "sort_key h (sort_key h xs @ zs) = sort_key h ys"
    by (rule sort_key_distinct_unique) (use assms in \<open>auto simp: distinct_map inj_on_Un\<close>)
  finally show ?thesis .
qed

lemma distinct_kept_and_new:
  assumes "distinct (map h xs)" "distinct (map h ys)"
  shows "distinct (map h (xs @ new_by_name h xs ys))"
proof -
  have "distinct (map h (new_by_name h xs ys))"
    unfolding new_by_name_def distinct_map_sort_key using assms(2) by (rule distinct_map_filter)
  with assms(1) show ?thesis by (auto simp: set_new_by_name_names image_iff)
qed

lemma apply_additions_of:
  assumes c: "manifest_spec c" and t: "manifest_spec t" and k: "keeps_everything c t"
    and v: "ma_schema_version t = ma_schema_version c + 1"
  shows "apply_additions (spec_of c) (additions_of c t) = spec_of t"
proof -
  note dc = manifest_spec_distinct [OF c] and dt = manifest_spec_distinct [OF t]
  have rel: "set (ma_relationships c) \<subseteq> set (ma_relationships t)"
    and ind: "set (ma_indices c) \<subseteq> set (ma_indices t)"
    using k by (auto simp: keeps_everything_def)
  let ?cp = "map (counterpart t) (ma_entities c)"
  have cp: "map en_name ?cp = map en_name (ma_entities c)"
    using counterpart_kept(2) [OF t k] by simp
  have "map (extend_fields (ad_fields (additions_of c t))) (rs_entities (spec_of c)) =
      map entity_of (map (counterpart t) (sort_key en_name (ma_entities c)))"
    using extend_fields_entity [OF c t k] by simp
  also have "map (counterpart t) (sort_key en_name (ma_entities c)) = sort_key en_name ?cp"
  proof -
    have "sort_key en_name (map (counterpart t) xs) = map (counterpart t) (sort_key en_name xs)"
      if "set xs \<subseteq> set (ma_entities c)" for xs
    proof -
      have "insort_key en_name (counterpart t x) (map (counterpart t) ys) =
          map (counterpart t) (insort_key en_name x ys)"
        if "x \<in> set (ma_entities c)" "set ys \<subseteq> set (ma_entities c)" for x ys
        using that counterpart_kept(2) [OF t k] by (induction ys) auto
      with that show ?thesis by (induction xs) auto
    qed
    then show ?thesis by simp
  qed
  finally have ext: "map (extend_fields (ad_fields (additions_of c t))) (rs_entities (spec_of c)) =
      map entity_of (sort_key en_name ?cp)" .
  have nb: "new_by_name en_name (ma_entities c) (ma_entities t) =
      new_by_name en_name ?cp (ma_entities t)"
    using cp [THEN arg_cong [where f = set]] by (simp add: new_by_name_def image_image)
  have ents: "set ?cp \<union> set (new_by_name en_name ?cp (ma_entities t)) = set (ma_entities t)"
    using set_new_by_name [OF dt(1), of ?cp] counterpart_kept(1) [OF t k] by auto
  have "sort_key rt_name (map entity_of (sort_key en_name ?cp) @
      map entity_of (new_by_name en_name ?cp (ma_entities t))) =
      map entity_of (sort_key en_name (ma_entities t))"
    by (rule sorted_recompose [OF _ dt(1) ents])
      (use distinct_kept_and_new [of en_name ?cp] cp dc(1) dt(1) in \<open>simp_all del: map_map map_append\<close>)
  moreover have "sort_key rr_name (rs_relationships (spec_of c) @
      map relationship_of (new_by_name re_name (ma_relationships c) (ma_relationships t))) =
      rs_relationships (spec_of t)"
    unfolding spec_of_simps
    by (rule sorted_recompose [OF _ dt(2)])
      (use set_new_by_name [OF dt(2) rel] rel distinct_kept_and_new [OF dc(2) dt(2)] in auto)
  moreover have "sort_key ri_name (rs_indices (spec_of c) @
      map index_of (new_by_name ix_name (ma_indices c) (ma_indices t))) = rs_indices (spec_of t)"
    unfolding spec_of_simps
    by (rule sorted_recompose [OF _ dt(3)])
      (use set_new_by_name [OF dt(3) ind] ind distinct_kept_and_new [OF dc(3) dt(3)] in auto)
  ultimately show ?thesis
    unfolding apply_additions_def ext
    by (simp add: additions_of_def nb spec_of_def v)
qed

end
