(* ===== verification/Records.thy ===== *)
theory Records
  imports Transition_Spec
begin

text \<open>
  The record-facing half of \<open>records.py\<close>: the specification compiled from a manifest and the
  validation of records, updates and filters against it, with the canonical JSON text that
  bounds a record's size. \<open>RecordField\<close> and \<open>RecordEntity\<close> carry the same components as
  \<open>AttributeDefinition\<close> and \<open>EntityDefinition\<close> (and \<open>RecordRelationship\<close> those of
  \<open>RelationalRelationship\<close>), so the same record types serve; the entity's fields are sorted.
  A Python mapping is the association list of its items, in insertion order.
\<close>

datatype record_error = RecordContractError

definition accept :: "bool \<Rightarrow> 'a \<Rightarrow> record_error + 'a" where
  "accept ok x = (if ok then Inr x else Inl RecordContractError)"

lemma accept_Inr_iff [guard_simps]: "accept ok x = Inr y \<longleftrightarrow> ok \<and> y = x"
  by (auto simp: accept_def)

definition MAX_RECORD_JSON_BYTES :: nat where "MAX_RECORD_JSON_BYTES = 64 * 1024"
definition MAX_STRING_BYTES :: nat where "MAX_STRING_BYTES = 16 * 1024"
definition MAX_STRING_LIST_ITEMS :: nat where "MAX_STRING_LIST_ITEMS = 256"
definition MAX_STRING_LIST_ITEM_CHARS :: nat where "MAX_STRING_LIST_ITEM_CHARS = 256"

section \<open>Canonical JSON\<close>

text \<open>\<open>json.dumps(value, separators=(",", ":"), ensure_ascii=False)\<close>: short escapes for the
  quote, the backslash and five control characters, \<open>\\u00xx\<close> for the other control
  characters, every other character as it is.\<close>

definition json_char :: "nat \<Rightarrow> pystr" where
  "json_char c =
     (if c = 34 then [92, 34] else if c = 92 then [92, 92] else if c = 10 then [92, 110]
      else if c = 13 then [92, 114] else if c = 9 then [92, 116] else if c = 12 then [92, 102]
      else if c = 8 then [92, 98]
      else if c < 32 then [92, 117] @ hex_digits 4 c else [c])"

definition json_string :: "pystr \<Rightarrow> pystr" where
  "json_string s = [34] @ concat (map json_char s) @ [34]"

function decimal :: "nat \<Rightarrow> pystr" where
  "decimal n = (if n < 10 then [48 + n] else decimal (n div 10) @ [48 + n mod 10])"
  by pat_completeness auto
termination by (relation "measure id") auto

declare decimal.simps [simp del]

definition json_int :: "int \<Rightarrow> pystr" where
  "json_int n = (if n < 0 then 45 # decimal (nat (- n)) else decimal (nat n))"

fun json_float :: "runtime \<Rightarrow> pyfloat \<Rightarrow> pystr" where
  "json_float rt (Fin q) = float_repr rt q"
| "json_float rt PosInf = ascii ''Infinity''"
| "json_float rt NegInf = ascii ''-Infinity''"
| "json_float rt NaN = ascii ''NaN''"

fun json_text :: "runtime \<Rightarrow> pyval \<Rightarrow> pystr"
  and json_items :: "runtime \<Rightarrow> pyval list \<Rightarrow> pystr"
  and json_members :: "runtime \<Rightarrow> (pystr \<times> pyval) list \<Rightarrow> pystr" where
  "json_text rt PNone = ascii ''null''"
| "json_text rt (PBool b) = (if b then ascii ''true'' else ascii ''false'')"
| "json_text rt (PInt n) = json_int n"
| "json_text rt (PFloat f) = json_float rt f"
| "json_text rt (PStr s) = json_string s"
| "json_text rt (PList vs) = [91] @ json_items rt vs @ [93]"
| "json_text rt (PObj kvs) = [123] @ json_members rt kvs @ [125]"
| "json_items rt [] = []"
| "json_items rt [v] = json_text rt v"
| "json_items rt (v # vs) = json_text rt v @ [44] @ json_items rt vs"
| "json_members rt [] = []"
| "json_members rt [(k, v)] = json_string k @ [58] @ json_text rt v"
| "json_members rt ((k, v) # kvs) =
     json_string k @ [58] @ json_text rt v @ [44] @ json_members rt kvs"

definition json_size :: "runtime \<Rightarrow> pyval \<Rightarrow> nat" where
  "json_size rt v = utf8_length (json_text rt v)"

text \<open>\<open>_freeze_json\<close> with the \<open>_validate_json\<close> of the leaves. An object is frozen by
  \<open>FrozenJsonObject.from_mapping\<close>: its items in key order, each frozen, then the checks of
  \<open>__post_init__\<close> on the names and on the size.\<close>

definition frozen_object_ok :: "runtime \<Rightarrow> (pystr \<times> pyval) list \<Rightarrow> bool" where
  "frozen_object_ok rt entries \<longleftrightarrow>
     list_all (\<lambda>n. n \<noteq> [] \<and> \<not> has_nul n) (map fst entries) \<and> distinct (map fst entries) \<and>
     json_size rt (PObj entries) \<le> MAX_RECORD_JSON_BYTES"

fun validate_scalar_json :: "pyval \<Rightarrow> bool" where
  "validate_scalar_json (PStr s) = (utf8_length s \<le> MAX_STRING_BYTES)"
| "validate_scalar_json v = is_scalar_json v"

fun freeze_json :: "runtime \<Rightarrow> pyval \<Rightarrow> record_error + pyval"
  and freeze_items :: "runtime \<Rightarrow> pyval list \<Rightarrow> record_error + pyval list"
  and freeze_entries :: "runtime \<Rightarrow> (pystr \<times> pyval) list \<Rightarrow> record_error + (pystr \<times> pyval) list" where
  "freeze_json rt (PList vs) = bind_sum (freeze_items rt vs) (\<lambda>fs. Inr (PList fs))"
| "freeze_json rt (PObj kvs) =
     bind_sum (freeze_entries rt kvs) (\<lambda>fs.
       let entries = sort_key fst fs in accept (frozen_object_ok rt entries) (PObj entries))"
| "freeze_json rt v = accept (validate_scalar_json v) v"
| "freeze_items rt [] = Inr []"
| "freeze_items rt (v # vs) =
     bind_sum (freeze_json rt v) (\<lambda>f. bind_sum (freeze_items rt vs) (\<lambda>fs. Inr (f # fs)))"
| "freeze_entries rt [] = Inr []"
| "freeze_entries rt ((k, v) # kvs) =
     bind_sum (freeze_json rt v) (\<lambda>f.
       bind_sum (freeze_entries rt kvs) (\<lambda>fs. Inr ((k, f) # fs)))"

definition from_mapping ::
  "runtime \<Rightarrow> (pystr \<times> pyval) list \<Rightarrow> record_error + (pystr \<times> pyval) list" where
  "from_mapping rt kvs =
     bind_sum (freeze_entries rt kvs) (\<lambda>fs.
       let entries = sort_key fst fs in accept (frozen_object_ok rt entries) entries)"

section \<open>Values of a logical type\<close>

text \<open>\<open>str(UUID(value)) == value and UUID(value).int != 0\<close>: the canonical lower-case form with
  dashes after 8, 4, 4 and 4 digits, and not the nil UUID.\<close>

definition uuid_dashes :: "nat list" where "uuid_dashes = [8, 13, 18, 23]"

definition canonical_uuid :: "pystr \<Rightarrow> bool" where
  "canonical_uuid s \<longleftrightarrow>
     length s = 36 \<and>
     list_all (\<lambda>i. if i \<in> set uuid_dashes then s ! i = 45 else is_hex (s ! i)) [0..<36] \<and>
     list_ex (\<lambda>c. c \<noteq> 45 \<and> c \<noteq> 48) s"

definition string_item_ok :: "pyval \<Rightarrow> bool" where
  "string_item_ok v \<longleftrightarrow>
     is_str v \<and> 0 < length (str_text v) \<and> length (str_text v) \<le> MAX_STRING_LIST_ITEM_CHARS \<and>
     \<not> has_nul (str_text v)"

fun matches_type :: "runtime \<Rightarrow> pyval \<Rightarrow> logical_type \<Rightarrow> bool" where
  "matches_type rt v TString =
     (is_str v \<and> utf8_length (str_text v) \<le> MAX_STRING_BYTES \<and> \<not> has_nul (str_text v))"
| "matches_type rt v TInteger = is_signed_64_integer v"
| "matches_type rt v TNumber = is_exact_number v"
| "matches_type rt v TBoolean = is_bool v"
| "matches_type rt v TUuid = (is_str v \<and> canonical_uuid (str_text v))"
| "matches_type rt v TDatetime = (is_str v \<and> iso_utc rt (str_text v))"
| "matches_type rt v TStringList =
     (case v of
        PList vs \<Rightarrow> length vs \<le> MAX_STRING_LIST_ITEMS \<and> list_all string_item_ok vs \<and> distinct vs
      | _ \<Rightarrow> False)"

definition matches_allowed_value :: "runtime \<Rightarrow> pyval \<Rightarrow> logical_type \<Rightarrow> bool" where
  "matches_allowed_value rt v ty =
     (if ty = TStringList then string_item_ok v else matches_type rt v ty)"

definition matches_enumeration :: "pyval \<Rightarrow> logical_type \<Rightarrow> pyval list \<Rightarrow> bool" where
  "matches_enumeration v ty allowed =
     (if ty = TStringList
      then (case v of PList vs \<Rightarrow> list_all (\<lambda>x. py_in x allowed) vs | _ \<Rightarrow> False)
      else py_in v allowed)"

section \<open>The record specification\<close>

definition record_field_ok :: "runtime \<Rightarrow> attribute_def \<Rightarrow> bool" where
  "record_field_ok rt f \<longleftrightarrow>
     is_identifier (at_name f) \<and> (at_primary_key f \<longrightarrow> at_required f) \<and>
     (at_retrieval_mode f = Some Annotation \<longrightarrow> at_type f = TString) \<and>
     (at_retrieval_mode f = Some Membership \<longrightarrow> at_type f = TStringList) \<and>
     (case at_allowed_values f of None \<Rightarrow> True
      | Some vs \<Rightarrow> vs \<noteq> [] \<and> length vs \<le> 32 \<and> typed_distinct vs \<and>
          list_all (\<lambda>v. matches_allowed_value rt v (at_type f)) vs)"

datatype filter_mode = Exact | MembershipFilter | NoFilter

definition filter_mode :: "attribute_def \<Rightarrow> filter_mode" where
  "filter_mode f =
     (if at_retrieval_mode f = Some Annotation then NoFilter
      else if at_type f = TStringList
      then (if at_retrieval_mode f = Some Membership then MembershipFilter else NoFilter)
      else Exact)"

definition find_field :: "entity_def \<Rightarrow> pystr \<Rightarrow> attribute_def option" where
  "find_field e n = List.find (\<lambda>a. at_name a = n) (en_attributes e)"

definition domain_fields :: "entity_def \<Rightarrow> attribute_def list" where
  "domain_fields e = filter (\<lambda>f. \<not> is_server_field (at_name f)) (en_attributes e)"

definition record_entity_ok :: "entity_def \<Rightarrow> bool" where
  "record_entity_ok e \<longleftrightarrow>
     is_identifier (en_name e) \<and> en_attributes e \<noteq> [] \<and> length (en_attributes e) \<le> 64 \<and>
     distinct (map at_name (en_attributes e)) \<and> sorted (map at_name (en_attributes e)) \<and>
     list_all (\<lambda>x. case find_field e (fst x) of None \<Rightarrow> False
                   | Some f \<Rightarrow> server_declaration f x) SERVER_MANAGED_FIELDS"

record discovery_facet =
  df_entity :: pystr
  df_field :: pystr
  df_mode :: filter_mode

record record_specification =
  sp_schema_version :: int
  sp_entities :: "entity_def list"
  sp_relationships :: "rel_relationship list"
  sp_facets :: "discovery_facet list"
  sp_query_patterns :: "pystr list"
  sp_guidance :: "pystr option"

definition spec_field ::
  "record_specification \<Rightarrow> pystr \<Rightarrow> pystr \<Rightarrow> attribute_def option" where
  "spec_field s entity field =
     (case find_entity (sp_entities s) entity of None \<Rightarrow> None | Some e \<Rightarrow> find_field e field)"

definition record_relationship_ok :: "rel_relationship \<Rightarrow> bool" where
  "record_relationship_ok r \<longleftrightarrow>
     is_identifier (rr_name r) \<and> is_identifier (rr_source_entity r) \<and>
     is_identifier (rr_source_field r) \<and> is_identifier (rr_target_entity r) \<and>
     is_identifier (rr_target_field r)"

definition record_specification_ok :: "record_specification \<Rightarrow> bool" where
  "record_specification_ok s \<longleftrightarrow>
     1 \<le> sp_schema_version s \<and> sp_schema_version s \<le> 65 \<and>
     sp_entities s \<noteq> [] \<and> length (sp_entities s) \<le> 32 \<and>
     sorted (map en_name (sp_entities s)) \<and>
     length (sp_relationships s) \<le> 128 \<and> sorted (map rr_name (sp_relationships s)) \<and>
     length (sp_facets s) \<le> 64 \<and> length (sp_query_patterns s) \<le> 32 \<and>
     list_all (\<lambda>q. q \<noteq> [] \<and> length q \<le> 240) (sp_query_patterns s) \<and>
     distinct (map en_name (sp_entities s)) \<and>
     list_all (\<lambda>r. spec_field s (rr_source_entity r) (rr_source_field r) \<noteq> None \<and>
                   spec_field s (rr_target_entity r) (rr_target_field r) \<noteq> None)
       (sp_relationships s) \<and>
     list_all (\<lambda>f. case spec_field s (df_entity f) (df_field f) of None \<Rightarrow> False
                   | Some a \<Rightarrow> filter_mode a = df_mode f) (sp_facets s)"

section \<open>Compilation\<close>

definition compile_record_field :: "runtime \<Rightarrow> attribute_def \<Rightarrow> record_error + attribute_def" where
  "compile_record_field rt a = accept (record_field_ok rt a) a"

definition sorted_entity :: "entity_def \<Rightarrow> entity_def" where
  "sorted_entity e = e\<lparr>en_attributes := sort_key at_name (en_attributes e)\<rparr>"

definition compile_record_entity :: "runtime \<Rightarrow> entity_def \<Rightarrow> record_error + entity_def" where
  "compile_record_entity rt e =
     bind_sum (map_result (compile_record_field rt) (sort_key at_name (en_attributes e))) (\<lambda>fs.
       let r = e\<lparr>en_attributes := fs\<rparr> in accept (record_entity_ok r) r)"

text \<open>\<open>entity_by_name[facet.entity].field(facet.field).filter_mode\<close>: a missing entity or field
  would be a \<open>KeyError\<close> or \<open>AttributeError\<close>; the validated manifest has both.\<close>

definition compile_facet ::
  "entity_def list \<Rightarrow> facet_def \<Rightarrow> record_error + discovery_facet" where
  "compile_facet es f =
     (case find_entity es (fa_entity f) of
        None \<Rightarrow> Inl RecordContractError
      | Some e \<Rightarrow>
          (case find_field e (fa_field f) of
             None \<Rightarrow> Inl RecordContractError
           | Some a \<Rightarrow>
               accept (is_identifier (fa_entity f) \<and> is_identifier (fa_field f))
                 \<lparr>df_entity = fa_entity f, df_field = fa_field f, df_mode = filter_mode a\<rparr>))"

definition compile_record_relationship ::
  "relationship_def \<Rightarrow> record_error + rel_relationship" where
  "compile_record_relationship r =
     accept (record_relationship_ok (relationship_of r)) (relationship_of r)"

definition compile_record_specification ::
  "runtime \<Rightarrow> manifest \<Rightarrow> record_error + record_specification" where
  "compile_record_specification rt manifest =
     (case model_validate manifest of
        Inl _ \<Rightarrow> Inl RecordContractError
      | Inr m \<Rightarrow>
          bind_sum (map_result (compile_record_entity rt) (sort_key en_name (ma_entities m))) (\<lambda>es.
          bind_sum (map_result (compile_facet es)
            (sort_key facet_key (ma_discovery_facets m))) (\<lambda>fs.
          bind_sum (map_result compile_record_relationship
            (sort_key re_name (ma_relationships m))) (\<lambda>rs.
            let s = \<lparr>sp_schema_version = ma_schema_version m, sp_entities = es,
                     sp_relationships = rs, sp_facets = fs,
                     sp_query_patterns = ma_query_patterns m,
                     sp_guidance = ma_retrieval_guidance m\<rparr>
            in accept (record_specification_ok s) s))))"

section \<open>Validation of records\<close>

definition field_value_ok :: "runtime \<Rightarrow> attribute_def \<Rightarrow> pyval \<Rightarrow> bool" where
  "field_value_ok rt f v =
     (if v = PNone then \<not> at_required f
      else matches_type rt v (at_type f) \<and>
           (case at_allowed_values f of None \<Rightarrow> True
            | Some allowed \<Rightarrow> matches_enumeration v (at_type f) allowed))"

definition validate_record ::
  "runtime \<Rightarrow> record_specification \<Rightarrow> pystr \<Rightarrow> (pystr \<times> pyval) list \<Rightarrow> bool \<Rightarrow> bool \<Rightarrow>
   record_error + (pystr \<times> pyval) list" where
  "validate_record rt s entity_name record require_required require_nonempty =
     (case find_entity (sp_entities s) entity_name of
        None \<Rightarrow> Inl RecordContractError
      | Some e \<Rightarrow>
          let fields = domain_fields e in
          if require_nonempty \<and> record = [] then Inl RecordContractError
          else if \<not> list_all (\<lambda>p. fst p \<in> at_name ` set fields) record \<or>
                  list_ex (\<lambda>p. is_server_field (fst p)) record
          then Inl RecordContractError
          else if require_required \<and>
                  list_ex (\<lambda>f. at_required f \<and> at_name f \<notin> fst ` set record) fields
          then Inl RecordContractError
          else if \<not> list_all (\<lambda>p. case List.find (\<lambda>f. at_name f = fst p) fields of
                     None \<Rightarrow> False | Some f \<Rightarrow> field_value_ok rt f (snd p)) record
          then Inl RecordContractError
          else from_mapping rt record)"

definition validate_create ::
  "runtime \<Rightarrow> record_specification \<Rightarrow> pystr \<Rightarrow> (pystr \<times> pyval) list \<Rightarrow>
   record_error + (pystr \<times> pyval) list" where
  "validate_create rt s entity_name record = validate_record rt s entity_name record True False"

definition validate_updates ::
  "runtime \<Rightarrow> record_specification \<Rightarrow> pystr \<Rightarrow> (pystr \<times> pyval) list \<Rightarrow>
   record_error + (pystr \<times> pyval) list" where
  "validate_updates rt s entity_name updates = validate_record rt s entity_name updates False True"

record record_filter =
  rq_entity :: pystr
  rq_field :: pystr
  rq_mode :: filter_mode
  rq_value :: pyval

definition validate_filter ::
  "runtime \<Rightarrow> record_specification \<Rightarrow> pystr \<Rightarrow> pystr \<Rightarrow> pyval \<Rightarrow> record_error + record_filter" where
  "validate_filter rt s entity_name field_name v =
     (case spec_field s entity_name field_name of
        None \<Rightarrow> Inl RecordContractError
      | Some f \<Rightarrow>
          if is_server_field (at_name f) \<or> filter_mode f = NoFilter then Inl RecordContractError
          else if filter_mode f = MembershipFilter \<and>
                  \<not> (is_str v \<and> str_text v \<noteq> [] \<and>
                     length (str_text v) \<le> MAX_STRING_LIST_ITEM_CHARS)
          then Inl RecordContractError
          else if filter_mode f \<noteq> MembershipFilter \<and> \<not> matches_type rt v (at_type f)
          then Inl RecordContractError
          else bind_sum (freeze_json rt v) (\<lambda>fv.
            accept (is_identifier entity_name \<and> is_identifier field_name)
              \<lparr>rq_entity = entity_name, rq_field = field_name, rq_mode = filter_mode f,
               rq_value = fv\<rparr>))"

end
