(* ===== verification/Records_Spec.thy ===== *)
theory Records_Spec
  imports Records
begin

text \<open>
  Correctness of the record specification: compilation is total on valid manifests, and
  \<open>validate_create\<close> and \<open>validate_updates\<close> accept exactly the mappings that conform to the
  manifest's declarations and fit the size bounds, returning them in key order. Conformance
  is stated on the manifest itself.
\<close>

section \<open>Compilation is total\<close>

definition record_spec_of :: "manifest \<Rightarrow> record_specification" where
  "record_spec_of m =
     (let es = map sorted_entity (sort_key en_name (ma_entities m)) in
      \<lparr>sp_schema_version = ma_schema_version m, sp_entities = es,
       sp_relationships = map relationship_of (sort_key re_name (ma_relationships m)),
       sp_facets = map (\<lambda>f. \<lparr>df_entity = fa_entity f, df_field = fa_field f,
         df_mode = (case attribute_for (ma_entities m) (fa_entity f) (fa_field f) of
            Inl _ \<Rightarrow> NoFilter | Inr a \<Rightarrow> filter_mode a)\<rparr>)
         (sort_key facet_key (ma_discovery_facets m)),
       sp_query_patterns = ma_query_patterns m, sp_guidance = ma_retrieval_guidance m\<rparr>)"

lemma sorted_entity_simps [simp]:
  "en_name (sorted_entity e) = en_name e"
  "en_attributes (sorted_entity e) = sort_key at_name (en_attributes e)"
  "en_description (sorted_entity e) = en_description e"
  by (simp_all add: sorted_entity_def)

lemma record_spec_of_simps [simp]:
  "sp_schema_version (record_spec_of m) = ma_schema_version m"
  "sp_entities (record_spec_of m) = map sorted_entity (sort_key en_name (ma_entities m))"
  "sp_relationships (record_spec_of m) = map relationship_of (sort_key re_name (ma_relationships m))"
  "sp_query_patterns (record_spec_of m) = ma_query_patterns m"
  by (simp_all add: record_spec_of_def Let_def)

lemma allowed_value_ok:
  assumes "allowed_value_matches_type v ty"
    and "\<forall>s. v = PStr s \<longrightarrow> 1 \<le> length s \<and> length s \<le> 96 \<and> 0 \<notin> set s"
  shows "matches_allowed_value rt v ty"
proof -
  have "utf8_length s \<le> MAX_STRING_BYTES" if "length s \<le> 96" for s
    using utf8_length_le [of s] that by (simp add: MAX_STRING_BYTES_def)
  then show ?thesis
    using assms by (cases ty; cases v)
      (auto simp: matches_allowed_value_def string_item_ok_def MAX_STRING_LIST_ITEM_CHARS_def
        has_nul_def)
qed

lemma record_field_ok_valid: "attribute_spec a \<Longrightarrow> record_field_ok rt a"
proof -
  assume a: "attribute_spec a"
  have "list_all (\<lambda>v. matches_allowed_value rt v (at_type a)) vs \<and> typed_distinct vs \<and> vs \<noteq> []"
    if "at_allowed_values a = Some vs" for vs
  proof -
    have vs: "allowed_values_spec (at_type a) vs" using a that by (simp add: attribute_spec_def)
    then have "list_all (\<lambda>v. allowed_value_matches_type v (at_type a)) vs"
      by (simp add: allowed_values_spec_def list_all_iff)
    from typed_distinct_of_match [OF this] vs show ?thesis
      by (auto simp: allowed_values_spec_def list_all_iff intro!: allowed_value_ok)
  qed
  with a show ?thesis
    by (auto simp: record_field_ok_def attribute_spec_def allowed_values_spec_def split: option.splits)
qed

lemma find_sort_key:
  assumes "distinct (map k xs)"
  shows "List.find (\<lambda>x. k x = n) (sort_key h xs) = List.find (\<lambda>x. k x = n) xs"
proof -
  have "distinct (map k (sort_key h xs))" using assms by (simp add: distinct_map_sort_key)
  then have "List.find (\<lambda>x. k x = n) (sort_key h xs) = Some x \<longleftrightarrow>
      List.find (\<lambda>x. k x = n) xs = Some x" for x
    using assms by (simp add: find_by_name_iff)
  then show ?thesis by (metis option.exhaust)
qed

lemma find_field_sorted:
  assumes "distinct (map at_name (en_attributes e))"
  shows "find_field (sorted_entity e) n = find_field e n"
  using find_sort_key [OF assms] by (simp add: find_field_def)

lemma find_entity_sorted:
  assumes "distinct (map en_name es)"
  shows "find_entity (map sorted_entity (sort_key en_name es)) n =
    map_option sorted_entity (find_entity es n)"
proof -
  have "find_entity (map sorted_entity (sort_key en_name es)) n =
      map_option sorted_entity (find_entity (sort_key en_name es) n)"
    unfolding find_entity_def by (rule find_map_key) simp
  also have "find_entity (sort_key en_name es) n = find_entity es n"
    unfolding find_entity_def by (rule find_sort_key [OF assms])
  finally show ?thesis .
qed

lemma find_entity_field_resolves:
  assumes "distinct (map en_name es)" and "\<forall>e \<in> set es. distinct (map at_name (en_attributes e))"
    and "resolves es entity field a"
  shows "\<exists>e. find_entity (map sorted_entity (sort_key en_name es)) entity = Some (sorted_entity e) \<and>
    find_field (sorted_entity e) field = Some a"
proof -
  from assms(3) obtain e where e: "e \<in> set es" "en_name e = entity" "a \<in> set (en_attributes e)"
    "at_name a = field" by (auto simp: resolves_def)
  then have "find_entity es entity = Some e"
    using find_by_name_iff [OF assms(1)] by (simp add: find_entity_def)
  moreover have "find_field e field = Some a"
    using e assms(2) by (simp add: find_field_def find_by_name_iff)
  ultimately show ?thesis
    using e assms(2) by (auto simp: find_entity_sorted [OF assms(1)] find_field_sorted)
qed

lemma compile_record_entity_valid:
  assumes e: "entity_spec e"
  shows "compile_record_entity rt e = Inr (sorted_entity e)"
proof -
  have d: "distinct (map at_name (en_attributes e))" using e by (simp add: entity_spec_def)
  have "map_result (compile_record_field rt) (sort_key at_name (en_attributes e)) =
      Inr (map (\<lambda>a. a) (sort_key at_name (en_attributes e)))"
    by (rule map_result_valid)
      (use e in \<open>auto simp: compile_record_field_def accept_def entity_spec_def record_field_ok_valid\<close>)
  moreover have "record_entity_ok (sorted_entity e)"
  proof -
    have "list_all (\<lambda>x. case find_field (sorted_entity e) (fst x) of None \<Rightarrow> False
        | Some f \<Rightarrow> server_declaration f x) SERVER_MANAGED_FIELDS"
      unfolding find_field_sorted [OF d] list_all_iff
    proof
      fix x assume "x \<in> set SERVER_MANAGED_FIELDS"
      then obtain a where "a \<in> set (en_attributes e)" "at_name a = fst x" "server_declaration a x"
        using e by (auto simp: entity_spec_def)
      then show "case find_field e (fst x) of None \<Rightarrow> False | Some f \<Rightarrow> server_declaration f x"
        using find_by_name_iff [OF d, of "fst x" a] by (simp add: find_field_def)
    qed
    moreover have "en_attributes (sorted_entity e) \<noteq> []"
      using e by (auto simp: entity_spec_def simp flip: length_0_conv)
    ultimately show ?thesis
      using e unfolding record_entity_ok_def
      by (auto simp: entity_spec_def distinct_map_sort_key manifest_limits)
  qed
  ultimately show ?thesis by (simp add: compile_record_entity_def accept_def sorted_entity_def)
qed

lemma record_specification_ok_valid:
  assumes m: "manifest_spec m"
  shows "record_specification_ok (record_spec_of m)"
proof -
  note d = manifest_spec_distinct [OF m]
  have field: "spec_field (record_spec_of m) entity field = Some a"
    if "resolves (ma_entities m) entity field a" for entity field a
    using find_entity_field_resolves [OF d(1,4) that] by (auto simp: spec_field_def)
  have rels: "list_all (\<lambda>r. spec_field (record_spec_of m) (rr_source_entity r) (rr_source_field r) \<noteq> None \<and>
      spec_field (record_spec_of m) (rr_target_entity r) (rr_target_field r) \<noteq> None)
      (sp_relationships (record_spec_of m))"
  proof -
    have "\<exists>a b. spec_field (record_spec_of m) (ep_entity (re_from r)) (ep_field (re_from r)) = Some a \<and>
        spec_field (record_spec_of m) (ep_entity (re_to r)) (ep_field (re_to r)) = Some b"
      if "r \<in> set (ma_relationships m)" for r
      using m that field by (fastforce simp: manifest_spec_def relationship_spec_def)
    then show ?thesis by (force simp: list_all_iff)
  qed
  have facets: "list_all (\<lambda>f. case spec_field (record_spec_of m) (df_entity f) (df_field f) of
      None \<Rightarrow> False | Some a \<Rightarrow> filter_mode a = df_mode f) (sp_facets (record_spec_of m))"
  proof -
    have "\<exists>a. spec_field (record_spec_of m) (fa_entity f) (fa_field f) = Some a \<and>
        attribute_for (ma_entities m) (fa_entity f) (fa_field f) = Inr a"
      if "f \<in> set (ma_discovery_facets m)" for f
      using m that field attribute_for_iff [OF d(1,4)] by (auto simp: manifest_spec_def)
    then show ?thesis unfolding list_all_iff by (fastforce simp: record_spec_of_def Let_def)
  qed
  have "ma_entities m \<noteq> []" using m by (auto simp: manifest_spec_def manifest_fields_ok_def)
  then have "sort_key en_name (ma_entities m) \<noteq> []" by (metis set_empty set_sort)
  moreover have "map en_name (sp_entities (record_spec_of m)) =
      map en_name (sort_key en_name (ma_entities m))" by simp
  moreover have "map rr_name (sp_relationships (record_spec_of m)) =
      map re_name (sort_key re_name (ma_relationships m))" by simp
  moreover have "length (sp_facets (record_spec_of m)) = length (ma_discovery_facets m)"
    by (simp add: record_spec_of_def Let_def)
  ultimately show ?thesis
    unfolding record_specification_ok_def using rels facets m d
    by (auto simp: manifest_spec_def manifest_fields_ok_def manifest_limits distinct_map_sort_key
        list_all_iff simp del: map_map)
qed

lemma compile_record_specification_iff:
  "compile_record_specification rt m = Inr s \<longleftrightarrow> manifest_spec m \<and> s = record_spec_of m"
proof (cases "manifest_spec m")
  case False
  then show ?thesis
    using model_validate_iff [of m]
    by (cases "model_validate m") (auto simp: compile_record_specification_def)
next
  case m: True
  note d = manifest_spec_distinct [OF m]
  let ?es = "map sorted_entity (sort_key en_name (ma_entities m))"
  have es: "map_result (compile_record_entity rt) (sort_key en_name (ma_entities m)) = Inr ?es"
    by (rule map_result_valid)
      (use m in \<open>auto simp: manifest_spec_def intro: compile_record_entity_valid\<close>)
  have fs: "map_result (compile_facet ?es) (sort_key facet_key (ma_discovery_facets m)) =
      Inr (sp_facets (record_spec_of m))"
    unfolding record_spec_of_def Let_def record_specification.simps
  proof (rule map_result_valid)
    fix f assume "f \<in> set (sort_key facet_key (ma_discovery_facets m))"
    then obtain a where a: "resolves (ma_entities m) (fa_entity f) (fa_field f) a"
      and "is_identifier (fa_entity f)" "is_identifier (fa_field f)"
      using m by (auto simp: manifest_spec_def)
    moreover from a have "attribute_for (ma_entities m) (fa_entity f) (fa_field f) = Inr a"
      using attribute_for_iff [OF d(1,4)] by simp
    ultimately
    show "compile_facet ?es f = Inr \<lparr>df_entity = fa_entity f, df_field = fa_field f,
         df_mode = (case attribute_for (ma_entities m) (fa_entity f) (fa_field f) of
            Inl _ \<Rightarrow> NoFilter | Inr a \<Rightarrow> filter_mode a)\<rparr>"
      using find_entity_field_resolves [OF d(1,4) a] by (auto simp: compile_facet_def accept_def)
  qed
  have rs: "map_result compile_record_relationship (sort_key re_name (ma_relationships m)) =
      Inr (map relationship_of (sort_key re_name (ma_relationships m)))"
    by (rule map_result_valid)
      (use m in \<open>auto simp: manifest_spec_def compile_record_relationship_def accept_def
        record_relationship_ok_def endpoint_ok_def\<close>)
  have "model_validate m = Inr m" using model_validate_iff m by blast
  moreover have "\<lparr>sp_schema_version = ma_schema_version m, sp_entities = ?es,
      sp_relationships = map relationship_of (sort_key re_name (ma_relationships m)),
      sp_facets = sp_facets (record_spec_of m), sp_query_patterns = ma_query_patterns m,
      sp_guidance = ma_retrieval_guidance m\<rparr> = record_spec_of m"
    by (simp add: record_spec_of_def Let_def)
  ultimately show ?thesis
    using m record_specification_ok_valid [OF m]
    by (auto simp: compile_record_specification_def es fs rs accept_def Let_def)
qed

section \<open>Conformance of a record to a manifest\<close>

definition record_conforms ::
  "runtime \<Rightarrow> manifest \<Rightarrow> pystr \<Rightarrow> (pystr \<times> pyval) list \<Rightarrow> bool" where
  "record_conforms rt m entity record \<longleftrightarrow>
     entity \<in> en_name ` set (ma_entities m) \<and>
     (\<forall>(k, v) \<in> set record. \<not> is_server_field k \<and>
        (\<exists>a. resolves (ma_entities m) entity k a \<and> field_value_ok rt a v))"

definition required_present :: "manifest \<Rightarrow> pystr \<Rightarrow> (pystr \<times> pyval) list \<Rightarrow> bool" where
  "required_present m entity record \<longleftrightarrow>
     (\<forall>k a. resolves (ma_entities m) entity k a \<and> at_required a \<and> \<not> is_server_field k \<longrightarrow>
        k \<in> fst ` set record)"

fun string_fits :: "pyval \<Rightarrow> bool" where
  "string_fits (PStr s) = (utf8_length s \<le> MAX_STRING_BYTES)"
| "string_fits _ = True"

definition record_fits :: "runtime \<Rightarrow> (pystr \<times> pyval) list \<Rightarrow> bool" where
  "record_fits rt record \<longleftrightarrow>
     list_all (string_fits \<circ> snd) record \<and>
     json_size rt (PObj (sort_key fst record)) \<le> MAX_RECORD_JSON_BYTES"

lemma freeze_items_strings:
  "list_all string_item_ok vs \<Longrightarrow> freeze_items rt vs = Inr vs"
proof (induction vs)
  case (Cons v vs)
  then obtain s where v: "v = PStr s" "length s \<le> 256"
    by (auto simp: string_item_ok_def is_str_iff MAX_STRING_LIST_ITEM_CHARS_def)
  then have "utf8_length s \<le> MAX_STRING_BYTES"
    using utf8_length_le [of s] by (simp add: MAX_STRING_BYTES_def)
  with v Cons show ?case by (simp add: accept_def)
qed simp

lemma freeze_conforming:
  assumes "field_value_ok rt a v"
  shows "freeze_json rt v = Inr w \<longleftrightarrow> string_fits v \<and> w = v"
proof (cases "v = PNone")
  case True
  then show ?thesis by (auto simp: accept_def)
next
  case False
  then have m: "matches_type rt v (at_type a)" using assms by (simp add: field_value_ok_def)
  show ?thesis
  proof (cases "at_type a = TStringList")
    case True
    then obtain vs where "v = PList vs" "list_all string_item_ok vs"
      using m by (auto split: pyval.splits)
    then show ?thesis by (auto simp: freeze_items_strings)
  next
    case nl: False
    show ?thesis
    proof (cases v)
      case (PInt n)
      then show ?thesis
        using m nl exact_integer_is_signed_64 [of n] by (cases "at_type a") (auto simp: accept_def)
    next
      case (PFloat f)
      then show ?thesis using m nl by (cases "at_type a") (auto simp: accept_def)
    qed (use m nl in \<open>(cases "at_type a"; simp add: accept_def; auto)\<close>)+
  qed
qed

lemma freeze_entries_conforming:
  assumes "\<forall>p \<in> set kvs. \<exists>a. field_value_ok rt a (snd p)"
  shows "freeze_entries rt kvs = Inr fs \<longleftrightarrow> list_all (string_fits \<circ> snd) kvs \<and> fs = kvs"
  using assms
proof (induction kvs arbitrary: fs)
  case (Cons p kvs)
  then obtain k v a where p: "p = (k, v)" "field_value_ok rt a v" by (cases p) auto
  from freeze_conforming [OF p(2)] Cons show ?case by (auto simp: p(1) bind_sum_Inr_iff)
qed auto

lemma identifier_no_nul: "is_identifier s \<Longrightarrow> \<not> has_nul s"
  by (auto simp: is_identifier_def has_nul_def list_all_iff is_lower_def is_digit_def
      split: list.splits)

lemma from_mapping_conforming:
  assumes "distinct (map fst record)" and "\<forall>p \<in> set record. is_identifier (fst p)"
    and "\<forall>p \<in> set record. \<exists>a. field_value_ok rt a (snd p)"
  shows "from_mapping rt record = Inr fs \<longleftrightarrow> fs = sort_key fst record \<and> record_fits rt record"
proof -
  have "list_all (\<lambda>n. n \<noteq> [] \<and> \<not> has_nul n) (map fst (sort_key fst record))"
    using assms(2) identifier_no_nul by (fastforce simp: list_all_iff)
  then show ?thesis
    using assms(1)
    by (auto simp: from_mapping_def bind_sum_Inr_iff freeze_entries_conforming [OF assms(3)]
        accept_Inr_iff frozen_object_ok_def record_fits_def Let_def distinct_map_sort_key)
qed

section \<open>Validation implements conformance\<close>

lemma resolves_in_entity:
  assumes "distinct (map en_name es)" and "e \<in> set es"
  shows "resolves es (en_name e) k a \<longleftrightarrow> a \<in> set (en_attributes e) \<and> at_name a = k"
proof -
  have "x = e" if "x \<in> set es" "en_name x = en_name e" for x
    using assms that by (auto simp: distinct_map inj_on_def)
  with assms(2) show ?thesis by (auto simp: resolves_def)
qed

lemma find_domain_field:
  assumes "distinct (map at_name (en_attributes e))"
  shows "List.find (\<lambda>f. at_name f = k) (domain_fields (sorted_entity e)) = Some a \<longleftrightarrow>
    a \<in> set (en_attributes e) \<and> at_name a = k \<and> \<not> is_server_field k"
proof -
  have "distinct (map at_name (domain_fields (sorted_entity e)))"
    unfolding domain_fields_def
    by (rule distinct_map_filter) (use assms in \<open>simp add: distinct_map_sort_key\<close>)
  from find_by_name_iff [OF this] show ?thesis by (auto simp: domain_fields_def)
qed

lemma validate_record_iff:
  assumes m: "manifest_spec m" and dr: "distinct (map fst record)"
  shows "validate_record rt (record_spec_of m) entity record rr ne = Inr fr \<longleftrightarrow>
    fr = sort_key fst record \<and> record_conforms rt m entity record \<and>
    (rr \<longrightarrow> required_present m entity record) \<and> (ne \<longrightarrow> record \<noteq> []) \<and> record_fits rt record"
proof (cases "find_entity (ma_entities m) entity")
  case None
  then have "entity \<notin> en_name ` set (ma_entities m)"
    by (auto simp: find_entity_def find_None_iff)
  with None show ?thesis
    by (simp add: validate_record_def find_entity_sorted [OF manifest_spec_distinct(1) [OF m]]
        record_conforms_def)
next
  case (Some e)
  note d = manifest_spec_distinct [OF m]
  have e: "e \<in> set (ma_entities m)" "en_name e = entity"
    using Some by (auto simp: find_entity_def dest: find_Some_iff_first)
  have de: "distinct (map at_name (en_attributes e))" using d(4) e(1) by simp
  have res: "resolves (ma_entities m) entity k a \<longleftrightarrow> a \<in> set (en_attributes e) \<and> at_name a = k" for k a
    using resolves_in_entity [OF d(1) e(1)] e(2) by simp
  have ent: "find_entity (sp_entities (record_spec_of m)) entity = Some (sorted_entity e)"
    using Some by (simp add: find_entity_sorted [OF d(1)])
  let ?fields = "domain_fields (sorted_entity e)"
  have vals: "list_all (\<lambda>p. case List.find (\<lambda>f. at_name f = fst p) ?fields of
        None \<Rightarrow> False | Some f \<Rightarrow> field_value_ok rt f (snd p)) record \<longleftrightarrow>
      record_conforms rt m entity record"
  proof -
    have "(case List.find (\<lambda>f. at_name f = k) ?fields of
        None \<Rightarrow> False | Some f \<Rightarrow> field_value_ok rt f v) \<longleftrightarrow>
        \<not> is_server_field k \<and> (\<exists>a. resolves (ma_entities m) entity k a \<and> field_value_ok rt a v)" for k v
    proof (cases "List.find (\<lambda>f. at_name f = k) ?fields")
      case None
      with find_domain_field [OF de, of k] show ?thesis by (auto simp: res)
    next
      case (Some f)
      have "a = f" if "a \<in> set (en_attributes e)" "at_name a = k" "\<not> is_server_field k" for a
        using find_domain_field [OF de, of k a] that Some by simp
      with Some find_domain_field [OF de, of k f] show ?thesis by (auto simp: res)
    qed
    moreover have "entity \<in> en_name ` set (ma_entities m)" using e by auto
    ultimately show ?thesis by (simp add: record_conforms_def list_all_iff case_prod_unfold)
  qed
  have names: "list_all (\<lambda>p. fst p \<in> at_name ` set ?fields) record \<and>
      \<not> list_ex (\<lambda>p. is_server_field (fst p)) record" if "record_conforms rt m entity record"
    using that by (auto simp: record_conforms_def list_all_iff list_ex_iff res domain_fields_def)
  have required: "\<not> list_ex (\<lambda>f. at_required f \<and> at_name f \<notin> fst ` set record) ?fields \<longleftrightarrow>
      required_present m entity record"
    by (auto simp: required_present_def res list_ex_iff domain_fields_def)
  have map: "from_mapping rt record = Inr fr \<longleftrightarrow> fr = sort_key fst record \<and> record_fits rt record"
    if conf: "record_conforms rt m entity record"
  proof (rule from_mapping_conforming [OF dr])
    show "\<forall>p \<in> set record. is_identifier (fst p)" "\<forall>p \<in> set record. \<exists>a. field_value_ok rt a (snd p)"
      using conf m e(1) by (fastforce simp: record_conforms_def res manifest_spec_def entity_spec_def
          attribute_spec_def)+
  qed
  show ?thesis
    unfolding validate_record_def ent Let_def option.case vals
    using names required map by auto
qed

lemmas validate_create_iff =
  validate_record_iff [where rr = True and ne = False, folded validate_create_def, simplified]

lemmas validate_updates_iff =
  validate_record_iff [where rr = False and ne = True, folded validate_updates_def, simplified]

section \<open>Evolution keeps records valid\<close>

lemma enumeration_mono:
  "matches_enumeration v ty xs \<Longrightarrow> set xs \<subseteq> set ys \<Longrightarrow> matches_enumeration v ty ys"
  by (auto simp: matches_enumeration_def list_all_iff split: if_splits pyval.splits
      intro: py_in_mono)

lemma field_value_ok_compat:
  assumes "attribute_compat a b" and "field_value_ok rt a v"
  shows "field_value_ok rt b v"
  using assms enumeration_mono [of v "at_type a"]
  by (auto simp: attribute_compat_def field_of_eq_iff values_expand_def field_value_ok_def
      split: option.splits if_splits)

lemma additive_attribute:
  assumes "additive c t" and "resolves (ma_entities c) entity k a"
  shows "\<exists>b. resolves (ma_entities t) entity k b \<and> attribute_compat a b"
proof -
  from assms(2) obtain e where e: "e \<in> set (ma_entities c)" "en_name e = entity"
    "a \<in> set (en_attributes e)" "at_name a = k" by (auto simp: resolves_def)
  then obtain e' old new where e': "e' \<in> set (ma_entities t)" "en_name e' = entity"
    "en_attributes e' = old @ new" "list_all2 attribute_compat (en_attributes e) old"
    using assms(1) by (auto simp: additive_def keeps_everything_def extends_entity_def)
  from e'(4) e(3) obtain b where "b \<in> set old" "attribute_compat a b"
    by (metis list_all2_conv_all_nth in_set_conv_nth)
  moreover from this have "at_name b = k"
    using e(4) by (simp add: attribute_compat_def field_of_eq_iff)
  ultimately have "resolves (ma_entities t) entity k b"
    using e' unfolding resolves_def by auto
  with \<open>attribute_compat a b\<close> show ?thesis by blast
qed

lemma additive_required:
  assumes "additive c t" and "resolves (ma_entities t) entity k b" and "at_required b"
    and "entity \<in> en_name ` set (ma_entities c)"
  shows "\<exists>a. resolves (ma_entities c) entity k a \<and> at_required a"
proof -
  have t: "manifest_spec t" and k: "keeps_everything c t" using assms(1) by (auto simp: additive_def)
  from assms(4) obtain e where e: "e \<in> set (ma_entities c)" "en_name e = entity" by auto
  note x = counterpart_kept [OF t k e(1)]
  have b: "b \<in> set (en_attributes (counterpart t e))" "at_name b = k"
    using assms(2) resolves_in_entity [OF manifest_spec_distinct(1) [OF t] x(1)] x(2) e(2) by auto
  from x(3) obtain old new where o: "en_attributes (counterpart t e) = old @ new"
    "list_all2 attribute_compat (en_attributes e) old" "\<forall>a \<in> set new. \<not> at_required a"
    by (auto simp: extends_entity_def)
  with b(1) assms(3) have "b \<in> set old" by auto
  with o(2) obtain a where "a \<in> set (en_attributes e)" "attribute_compat a b"
    by (metis list_all2_conv_all_nth in_set_conv_nth)
  with e b(2) assms(3) show ?thesis by (auto simp: resolves_def attribute_compat_def field_of_eq_iff)
qed

lemma additive_conforms:
  assumes "additive c t" and "record_conforms rt c entity rec"
  shows "record_conforms rt t entity rec"
proof -
  have "entity \<in> en_name ` set (ma_entities t)"
  proof -
    obtain e where "e \<in> set (ma_entities c)" "en_name e = entity"
      using assms(2) by (auto simp: record_conforms_def)
    with assms(1) obtain e' where "e' \<in> set (ma_entities t)" "en_name e' = entity"
      unfolding additive_def keeps_everything_def by blast
    then show ?thesis by auto
  qed
  moreover have "\<exists>b. resolves (ma_entities t) entity k b \<and> field_value_ok rt b v"
    if "(k, v) \<in> set rec" for k v
    using that assms additive_attribute [OF assms(1)] field_value_ok_compat
    by (fastforce simp: record_conforms_def)
  ultimately show ?thesis using assms(2) by (auto simp: record_conforms_def)
qed

lemma additive_required_present:
  assumes "additive c t" and "record_conforms rt c entity rec" and "required_present c entity rec"
  shows "required_present t entity rec"
  using assms additive_required [OF assms(1)]
  by (meson record_conforms_def required_present_def)

lemma validate_create_additive:
  assumes "additive c t" and "distinct (map fst rec)"
    and "validate_create rt (record_spec_of c) entity rec = Inr fr"
  shows "validate_create rt (record_spec_of t) entity rec = Inr fr"
  using assms additive_conforms [OF assms(1)] additive_required_present [OF assms(1)]
  by (auto simp: validate_create_iff additive_def)

end
