(* ===== verification/Lifecycle.thy ===== *)
theory Lifecycle
  imports Manifest_Spec
begin

text \<open>
  \<open>lifecycle.py\<close>: the vocabulary of durable lifecycle operations. Commands, the immutable
  intent with its fingerprint and monotone phase, claims and admissions, the recovery
  observations and the pure decision \<open>plan_recovery\<close>. A constructor that validates is a
  function into \<open>lifecycle_error + 'a\<close> with one error constructor per message; the stored
  target manifest is the manifest itself, its canonical JSON being an encoding of it, and
  reading it back is its revalidation.
\<close>

section \<open>Enumerations\<close>

datatype lifecycle_error =
    InvalidPrincipal | InvalidCreatedVia | InvalidServiceId | InvalidServiceRevision
  | InvalidSchemaVersion | InvalidIdempotencyKey | MaterialiseVersion | EvolveBound
  | EvolveAdvance | InvalidFingerprint | InvalidTargetManifest | MaterialiseIntentTarget
  | EvolveIntentTarget | FingerprintMismatch | PhaseNotMonotonic | ClaimCarriesIntent
  | ClaimNeedsIntent | ClaimPhaseMismatch | AdmissionPhaseMismatch | MaterialiseTargetVersion
  | EvolveTargetMismatch | TerminalObservation | ReadyNeedsTarget | NonReadyWithTarget
  | InvalidFoundationObservation | ReadyTargetWithSource | TransientTargetWithSource
  | UnmaterialisedTargetSource | IncompatibleTargetSource | InvalidEvolveTarget
  | DeferredNeedsResult | ResultNotDeferred | ObservationKindMismatch | ObservationPhaseMismatch

datatype lifecycle_kind = Materialise | Evolve

datatype lifecycle_phase = Prepared | Completed | RecoveryRequiredPhase

datatype recovery_state = Clear | Pending | RecoveryRequiredState

datatype foundation_observation =
    FoundationUninitialised | FoundationOutdated | FoundationReady | FoundationDirty
  | FoundationIncompatible | FoundationNotObserved | FoundationBusy | FoundationUnavailable
  | FoundationUncertain

datatype domain_observation =
    DomainUnmaterialised | DomainReady | DomainIncompatible | DomainNotObserved | DomainBusy
  | DomainUnavailable | DomainUncertain

datatype recovery_action =
    PrepareFoundation | ApplyInitialSchema | ApplyTransition | FinalizeRegistry
  | ReplayCompleteAction | DeferObservation | RecoveryRequiredAction

datatype deferred_result = DeferredBusy | DeferredUncertain | DeferredUnavailable

datatype result_category =
    MalformedInput | UnsupportedTransition | StaleRevision | ChangedFingerprint
  | OperationInProgress | RecoveryRequired | StorageBusy | OperationUncertain
  | StorageUnavailable | InternalFailure

datatype claim_status =
    ClaimNew | ClaimConflict | ClaimReplayComplete | ClaimResumePrepared | ClaimRecoveryRequired

datatype admission_status =
    AdmissionPrepared | AdmissionInProgress | AdmissionRecoveryRequired

definition FOUNDATION_NON_STATE :: "foundation_observation list" where
  "FOUNDATION_NON_STATE = [FoundationBusy, FoundationUnavailable, FoundationUncertain]"

definition FOUNDATION_EXACT_NON_READY :: "foundation_observation list" where
  "FOUNDATION_EXACT_NON_READY =
     [FoundationUninitialised, FoundationOutdated, FoundationDirty, FoundationIncompatible]"

definition DOMAIN_NON_STATE :: "domain_observation list" where
  "DOMAIN_NON_STATE = [DomainBusy, DomainUnavailable, DomainUncertain]"

lemmas observation_sets = FOUNDATION_NON_STATE_def FOUNDATION_EXACT_NON_READY_def
  DOMAIN_NON_STATE_def

definition MAX_SERVICE_REVISION :: int where "MAX_SERVICE_REVISION = 2 ^ 63 - 1"
definition MAX_SCHEMA_VERSION :: int where "MAX_SCHEMA_VERSION = 65"

section \<open>Commands\<close>

record command_fields =
  cf_principal_id :: pystr
  cf_created_via :: pystr
  cf_service_id :: uuid
  cf_expected_service_revision :: int
  cf_expected_schema_version :: int
  cf_idempotency_key :: pystr

datatype lifecycle_command =
    MaterialiseCommand (command_fields: command_fields)
  | EvolveCommand (command_fields: command_fields) (target_manifest: manifest)

fun command_kind :: "lifecycle_command \<Rightarrow> lifecycle_kind" where
  "command_kind (MaterialiseCommand f) = Materialise"
| "command_kind (EvolveCommand f t) = Evolve"

definition common_field_guards :: "command_fields \<Rightarrow> (bool \<times> lifecycle_error) list" where
  "common_field_guards f =
     [(\<not> valid_text (cf_principal_id f) 128, InvalidPrincipal),
      (\<not> valid_text (cf_created_via f) 64, InvalidCreatedVia),
      (cf_service_id f = 0, InvalidServiceId),
      (\<not> (1 \<le> cf_expected_service_revision f \<and>
           cf_expected_service_revision f \<le> MAX_SERVICE_REVISION), InvalidServiceRevision),
      (\<not> (1 \<le> cf_expected_schema_version f \<and>
           cf_expected_schema_version f \<le> MAX_SCHEMA_VERSION), InvalidSchemaVersion),
      (\<not> valid_text (cf_idempotency_key f) 128, InvalidIdempotencyKey)]"

definition manifest_snapshot :: "manifest \<Rightarrow> lifecycle_error + manifest" where
  "manifest_snapshot m =
     (case model_validate m of Inl _ \<Rightarrow> Inl InvalidTargetManifest | Inr s \<Rightarrow> Inr s)"

definition materialise_command :: "command_fields \<Rightarrow> lifecycle_error + lifecycle_command" where
  "materialise_command f =
     construct (common_field_guards f @
       [(cf_expected_schema_version f \<noteq> 1, MaterialiseVersion)]) (MaterialiseCommand f)"

definition evolve_command ::
  "command_fields \<Rightarrow> manifest \<Rightarrow> lifecycle_error + lifecycle_command" where
  "evolve_command f target =
     bind_sum (construct (common_field_guards f @
       [(cf_expected_schema_version f \<ge> MAX_SCHEMA_VERSION, EvolveBound)]) ()) (\<lambda>_.
     bind_sum (manifest_snapshot target) (\<lambda>snapshot.
       construct [(ma_schema_version snapshot \<noteq> cf_expected_schema_version f + 1, EvolveAdvance)]
         (EvolveCommand f snapshot)))"

section \<open>Canonical payloads and fingerprints\<close>

definition uuid_str :: "uuid \<Rightarrow> pystr" where
  "uuid_str u =
     (let h = uuid_hex u in
      take 8 h @ [45] @ take 4 (drop 8 h) @ [45] @ take 4 (drop 12 h) @ [45] @
      take 4 (drop 16 h) @ [45] @ drop 20 h)"

definition dump_text :: "string \<Rightarrow> pyval" where
  "dump_text s = PStr (ascii s)"

definition dump_optional :: "pystr option \<Rightarrow> pyval" where
  "dump_optional v = (case v of None \<Rightarrow> PNone | Some s \<Rightarrow> PStr s)"

fun dump_type :: "logical_type \<Rightarrow> pyval" where
  "dump_type TString = dump_text ''string''"
| "dump_type TInteger = dump_text ''integer''"
| "dump_type TNumber = dump_text ''number''"
| "dump_type TBoolean = dump_text ''boolean''"
| "dump_type TDatetime = dump_text ''datetime''"
| "dump_type TUuid = dump_text ''uuid''"
| "dump_type TStringList = dump_text ''string_list''"

fun dump_mode :: "retrieval_mode option \<Rightarrow> pyval" where
  "dump_mode None = PNone"
| "dump_mode (Some Annotation) = dump_text ''annotation''"
| "dump_mode (Some Membership) = dump_text ''membership''"

text \<open>\<open>model_dump(mode="json", by_alias=True)\<close>.\<close>

definition dump_attribute :: "attribute_def \<Rightarrow> pyval" where
  "dump_attribute a = PObj
     [(ascii ''name'', PStr (at_name a)), (ascii ''type'', dump_type (at_type a)),
      (ascii ''required'', PBool (at_required a)),
      (ascii ''primary_key'', PBool (at_primary_key a)),
      (ascii ''description'', dump_optional (at_description a)),
      (ascii ''allowed_values'',
         (case at_allowed_values a of None \<Rightarrow> PNone | Some vs \<Rightarrow> PList vs)),
      (ascii ''retrieval_mode'', dump_mode (at_retrieval_mode a))]"

definition dump_entity :: "entity_def \<Rightarrow> pyval" where
  "dump_entity e = PObj
     [(ascii ''name'', PStr (en_name e)),
      (ascii ''attributes'', PList (map dump_attribute (en_attributes e))),
      (ascii ''description'', dump_optional (en_description e))]"

definition dump_endpoint :: "endpoint \<Rightarrow> pyval" where
  "dump_endpoint p = PObj
     [(ascii ''entity'', PStr (ep_entity p)), (ascii ''field'', PStr (ep_field p))]"

definition dump_relationship :: "relationship_def \<Rightarrow> pyval" where
  "dump_relationship r = PObj
     [(ascii ''name'', PStr (re_name r)), (ascii ''from'', dump_endpoint (re_from r)),
      (ascii ''to'', dump_endpoint (re_to r)), (ascii ''on_delete'', dump_text ''restrict'')]"

definition dump_index :: "index_def \<Rightarrow> pyval" where
  "dump_index i = PObj
     [(ascii ''name'', PStr (ix_name i)), (ascii ''entity'', PStr (ix_entity i)),
      (ascii ''fields'', PList (map PStr (ix_fields i))), (ascii ''unique'', PBool (ix_unique i))]"

definition dump_facet :: "facet_def \<Rightarrow> pyval" where
  "dump_facet f = PObj
     [(ascii ''entity'', PStr (fa_entity f)), (ascii ''field'', PStr (fa_field f))]"

definition dump_history :: "history_entry \<Rightarrow> pyval" where
  "dump_history h = PObj
     [(ascii ''from_schema_version'', PInt (hi_from h)),
      (ascii ''to_schema_version'', PInt (hi_to h)),
      (ascii ''operations'', PList (map PStr (hi_operations h)))]"

definition dump_manifest :: "manifest \<Rightarrow> pyval" where
  "dump_manifest m = PObj
     [(ascii ''manifest_version'', PInt 2),
      (ascii ''schema_version'', PInt (ma_schema_version m)),
      (ascii ''entities'', PList (map dump_entity (ma_entities m))),
      (ascii ''relationships'', PList (map dump_relationship (ma_relationships m))),
      (ascii ''indices'', PList (map dump_index (ma_indices m))),
      (ascii ''query_patterns'', PList (map PStr (ma_query_patterns m))),
      (ascii ''discovery_facets'', PList (map dump_facet (ma_discovery_facets m))),
      (ascii ''retrieval_guidance'', dump_optional (ma_retrieval_guidance m)),
      (ascii ''migration_history'', PList (map dump_history (ma_migration_history m)))]"

fun kind_value :: "lifecycle_kind \<Rightarrow> pyval" where
  "kind_value Materialise = dump_text ''materialise''"
| "kind_value Evolve = dump_text ''evolve''"

definition canonical_lifecycle_payload :: "lifecycle_command \<Rightarrow> pyval" where
  "canonical_lifecycle_payload c =
     (let f = command_fields c in
      PObj
       ([(ascii ''kind'', kind_value (command_kind c)),
         (ascii ''principal'', PStr (cf_principal_id f)),
         (ascii ''created_via'', PStr (cf_created_via f)),
         (ascii ''service_id'', PStr (uuid_str (cf_service_id f))),
         (ascii ''expected_service_revision'', PInt (cf_expected_service_revision f)),
         (ascii ''expected_schema_version'', PInt (cf_expected_schema_version f))] @
        (case c of MaterialiseCommand _ \<Rightarrow> []
         | EvolveCommand _ t \<Rightarrow> [(ascii ''target_manifest'', dump_manifest t)])))"

definition lifecycle_fingerprint :: "runtime \<Rightarrow> lifecycle_command \<Rightarrow> pystr" where
  "lifecycle_fingerprint rt c = sha256_json rt (canonical_lifecycle_payload c)"

section \<open>Intents\<close>

record lifecycle_intent =
  li_kind :: lifecycle_kind
  li_phase :: lifecycle_phase
  li_fields :: command_fields
  li_fingerprint :: pystr
  li_target_manifest :: manifest

definition command_for_intent :: "lifecycle_intent \<Rightarrow> lifecycle_error + lifecycle_command" where
  "command_for_intent i =
     (case li_kind i of
        Materialise \<Rightarrow> materialise_command (li_fields i)
      | Evolve \<Rightarrow> evolve_command (li_fields i) (li_target_manifest i))"

text \<open>\<open>LifecycleIntent.__init__\<close>.\<close>

definition make_lifecycle_intent ::
  "runtime \<Rightarrow> lifecycle_intent \<Rightarrow> lifecycle_error + lifecycle_intent" where
  "make_lifecycle_intent rt i =
     bind_sum (construct (common_field_guards (li_fields i) @
       [(\<not> valid_digest (li_fingerprint i), InvalidFingerprint)]) ()) (\<lambda>_.
     bind_sum (manifest_snapshot (li_target_manifest i)) (\<lambda>snapshot.
     bind_sum (construct
       [(li_kind i = Materialise \<and>
           (cf_expected_schema_version (li_fields i) \<noteq> 1 \<or> ma_schema_version snapshot \<noteq> 1),
         MaterialiseIntentTarget),
        (li_kind i = Evolve \<and>
           ma_schema_version snapshot \<noteq> cf_expected_schema_version (li_fields i) + 1,
         EvolveIntentTarget)] (i\<lparr>li_target_manifest := snapshot\<rparr>)) (\<lambda>j.
     bind_sum (command_for_intent j) (\<lambda>c.
       construct [(li_fingerprint j \<noteq> lifecycle_fingerprint rt c, FingerprintMismatch)] j))))"

definition with_phase ::
  "runtime \<Rightarrow> lifecycle_intent \<Rightarrow> lifecycle_phase \<Rightarrow> lifecycle_error + lifecycle_intent" where
  "with_phase rt i phase =
     (if li_phase i \<noteq> Prepared \<or> phase \<notin> {Completed, RecoveryRequiredPhase}
      then Inl PhaseNotMonotonic
      else make_lifecycle_intent rt (i\<lparr>li_phase := phase\<rparr>))"

definition prepare_intent ::
  "runtime \<Rightarrow> lifecycle_command \<Rightarrow> manifest \<Rightarrow> lifecycle_error + lifecycle_intent" where
  "prepare_intent rt c target =
     bind_sum (manifest_snapshot target) (\<lambda>t.
     bind_sum (case c of
        MaterialiseCommand f \<Rightarrow>
          construct [(ma_schema_version t \<noteq> cf_expected_schema_version f, MaterialiseTargetVersion)] ()
      | EvolveCommand f t' \<Rightarrow> construct [(t \<noteq> t', EvolveTargetMismatch)] ()) (\<lambda>_.
       make_lifecycle_intent rt
         \<lparr>li_kind = command_kind c, li_phase = Prepared, li_fields = command_fields c,
          li_fingerprint = lifecycle_fingerprint rt c, li_target_manifest = t\<rparr>))"

section \<open>Claims and admissions\<close>

record lifecycle_claim =
  lc_status :: claim_status
  lc_intent :: "lifecycle_intent option"

fun claim_phase :: "claim_status \<Rightarrow> lifecycle_phase option" where
  "claim_phase ClaimReplayComplete = Some Completed"
| "claim_phase ClaimResumePrepared = Some Prepared"
| "claim_phase ClaimRecoveryRequired = Some RecoveryRequiredPhase"
| "claim_phase _ = None"

definition make_lifecycle_claim ::
  "claim_status \<Rightarrow> lifecycle_intent option \<Rightarrow> lifecycle_error + lifecycle_claim" where
  "make_lifecycle_claim status intent =
     (let claim = \<lparr>lc_status = status, lc_intent = intent\<rparr> in
      case claim_phase status of
        None \<Rightarrow> construct [(intent \<noteq> None, ClaimCarriesIntent)] claim
      | Some phase \<Rightarrow>
          (case intent of
             None \<Rightarrow> Inl ClaimNeedsIntent
           | Some i \<Rightarrow> construct [(li_phase i \<noteq> phase, ClaimPhaseMismatch)] claim))"

record lifecycle_admission =
  la_status :: admission_status
  la_intent :: lifecycle_intent

fun admission_phase :: "admission_status \<Rightarrow> lifecycle_phase" where
  "admission_phase AdmissionPrepared = Prepared"
| "admission_phase AdmissionInProgress = Prepared"
| "admission_phase AdmissionRecoveryRequired = RecoveryRequiredPhase"

definition make_lifecycle_admission ::
  "admission_status \<Rightarrow> lifecycle_intent \<Rightarrow> lifecycle_error + lifecycle_admission" where
  "make_lifecycle_admission status i =
     construct [(li_phase i \<noteq> admission_phase status, AdmissionPhaseMismatch)]
       \<lparr>la_status = status, la_intent = i\<rparr>"

section \<open>Recovery observations\<close>

datatype lifecycle_observation =
    MaterialiseRecoveryObservation (ob_phase: lifecycle_phase)
      (ob_foundation: foundation_observation) (ob_target: domain_observation)
  | EvolveRecoveryObservation (ob_phase: lifecycle_phase)
      (ob_foundation: foundation_observation) (ob_target: domain_observation)
      (ob_source: domain_observation)

definition materialise_observation ::
  "lifecycle_phase \<Rightarrow> foundation_observation \<Rightarrow> domain_observation \<Rightarrow>
   lifecycle_error + lifecycle_observation" where
  "materialise_observation phase foundation target =
     (let ob = MaterialiseRecoveryObservation phase foundation target in
      if phase \<noteq> Prepared then
        construct [(foundation \<noteq> FoundationNotObserved \<or> target \<noteq> DomainNotObserved,
          TerminalObservation)] ob
      else if foundation = FoundationReady then
        construct [(target = DomainNotObserved, ReadyNeedsTarget)] ob
      else if foundation \<in> set (FOUNDATION_EXACT_NON_READY @ FOUNDATION_NON_STATE) then
        construct [(target \<noteq> DomainNotObserved, NonReadyWithTarget)] ob
      else Inl InvalidFoundationObservation)"

definition validate_ready_evolve_observation ::
  "domain_observation \<Rightarrow> domain_observation \<Rightarrow> 'a \<Rightarrow> lifecycle_error + 'a" where
  "validate_ready_evolve_observation target source ob =
     (if target = DomainReady then
        construct [(source \<noteq> DomainNotObserved, ReadyTargetWithSource)] ob
      else if target \<in> set DOMAIN_NON_STATE then
        construct [(source \<noteq> DomainNotObserved, TransientTargetWithSource)] ob
      else if target = DomainUnmaterialised then
        construct [(source \<notin> set (DomainUnmaterialised # DOMAIN_NON_STATE),
          UnmaterialisedTargetSource)] ob
      else if target = DomainIncompatible then
        construct [(source \<notin> set (DomainReady # DomainIncompatible # DOMAIN_NON_STATE),
          IncompatibleTargetSource)] ob
      else Inl InvalidEvolveTarget)"

definition evolve_observation ::
  "lifecycle_phase \<Rightarrow> foundation_observation \<Rightarrow> domain_observation \<Rightarrow> domain_observation \<Rightarrow>
   lifecycle_error + lifecycle_observation" where
  "evolve_observation phase foundation target source =
     (let ob = EvolveRecoveryObservation phase foundation target source in
      if phase \<noteq> Prepared then
        construct [(foundation \<noteq> FoundationNotObserved \<or> target \<noteq> DomainNotObserved \<or>
          source \<noteq> DomainNotObserved, TerminalObservation)] ob
      else if foundation \<in> set (FOUNDATION_EXACT_NON_READY @ FOUNDATION_NON_STATE) then
        construct [(target \<noteq> DomainNotObserved \<or> source \<noteq> DomainNotObserved,
          NonReadyWithTarget)] ob
      else if foundation \<noteq> FoundationReady then Inl InvalidFoundationObservation
      else validate_ready_evolve_observation target source ob)"

text \<open>An observation value the program can hold.\<close>

fun valid_observation :: "lifecycle_observation \<Rightarrow> bool" where
  "valid_observation (MaterialiseRecoveryObservation p f t) =
     (materialise_observation p f t = Inr (MaterialiseRecoveryObservation p f t))"
| "valid_observation (EvolveRecoveryObservation p f t s) =
     (evolve_observation p f t s = Inr (EvolveRecoveryObservation p f t s))"

section \<open>Recovery plans\<close>

record recovery_plan =
  rp_action :: recovery_action
  rp_deferred :: "deferred_result option"

definition make_recovery_plan ::
  "recovery_action \<Rightarrow> deferred_result option \<Rightarrow> lifecycle_error + recovery_plan" where
  "make_recovery_plan action deferred =
     construct
       [(action = DeferObservation \<and> deferred = None, DeferredNeedsResult),
        (action \<noteq> DeferObservation \<and> deferred \<noteq> None, ResultNotDeferred)]
       \<lparr>rp_action = action, rp_deferred = deferred\<rparr>"

fun deferred_category :: "deferred_result option \<Rightarrow> result_category option" where
  "deferred_category (Some DeferredBusy) = Some StorageBusy"
| "deferred_category (Some DeferredUncertain) = Some OperationUncertain"
| "deferred_category (Some DeferredUnavailable) = Some StorageUnavailable"
| "deferred_category None = None"

definition plan_category :: "recovery_plan \<Rightarrow> result_category option" where
  "plan_category p =
     (if rp_action p = RecoveryRequiredAction then Some RecoveryRequired
      else deferred_category (rp_deferred p))"

definition lifecycle_result_retryable :: "result_category \<Rightarrow> bool" where
  "lifecycle_result_retryable c \<longleftrightarrow> c \<in> {StorageBusy, OperationInProgress, OperationUncertain}"

definition plan_retryable :: "recovery_plan \<Rightarrow> bool" where
  "plan_retryable p =
     (case plan_category p of None \<Rightarrow> False | Some c \<Rightarrow> lifecycle_result_retryable c)"

definition plan :: "recovery_action \<Rightarrow> lifecycle_error + recovery_plan" where
  "plan action = make_recovery_plan action None"

fun deferred_foundation :: "foundation_observation \<Rightarrow> deferred_result option" where
  "deferred_foundation FoundationBusy = Some DeferredBusy"
| "deferred_foundation FoundationUncertain = Some DeferredUncertain"
| "deferred_foundation FoundationUnavailable = Some DeferredUnavailable"
| "deferred_foundation _ = None"

fun deferred_domain :: "domain_observation \<Rightarrow> deferred_result option" where
  "deferred_domain DomainBusy = Some DeferredBusy"
| "deferred_domain DomainUncertain = Some DeferredUncertain"
| "deferred_domain DomainUnavailable = Some DeferredUnavailable"
| "deferred_domain _ = None"

text \<open>\<open>if deferred is not None: return deferred\<close>.\<close>

definition or_defer ::
  "deferred_result option \<Rightarrow> lifecycle_error + recovery_plan \<Rightarrow> lifecycle_error + recovery_plan" where
  "or_defer d rest =
     (case d of None \<Rightarrow> rest | Some r \<Rightarrow> make_recovery_plan DeferObservation (Some r))"

definition plan_materialise ::
  "foundation_observation \<Rightarrow> domain_observation \<Rightarrow> lifecycle_error + recovery_plan" where
  "plan_materialise foundation target =
     (if foundation \<in> {FoundationUninitialised, FoundationOutdated, FoundationDirty}
      then plan PrepareFoundation
      else if foundation = FoundationIncompatible then plan RecoveryRequiredAction
      else or_defer (deferred_domain target)
        (if target = DomainUnmaterialised then plan ApplyInitialSchema
         else if target = DomainReady then plan FinalizeRegistry
         else plan RecoveryRequiredAction))"

definition plan_evolve ::
  "foundation_observation \<Rightarrow> domain_observation \<Rightarrow> domain_observation \<Rightarrow>
   lifecycle_error + recovery_plan" where
  "plan_evolve foundation target source =
     (if foundation \<in> {FoundationOutdated, FoundationDirty} then plan PrepareFoundation
      else if foundation \<noteq> FoundationReady then plan RecoveryRequiredAction
      else or_defer (deferred_domain target)
        (if target = DomainReady then plan FinalizeRegistry
         else if target = DomainUnmaterialised then
           or_defer (deferred_domain source) (plan RecoveryRequiredAction)
         else if target = DomainIncompatible then
           or_defer (deferred_domain source)
             (if source = DomainReady then plan ApplyTransition else plan RecoveryRequiredAction)
         else plan RecoveryRequiredAction))"

definition plan_recovery ::
  "lifecycle_intent \<Rightarrow> lifecycle_observation \<Rightarrow> lifecycle_error + recovery_plan" where
  "plan_recovery i ob =
     bind_sum (construct
       [((li_kind i = Materialise) \<noteq> is_MaterialiseRecoveryObservation ob, ObservationKindMismatch),
        (ob_phase ob \<noteq> li_phase i, ObservationPhaseMismatch)] ()) (\<lambda>_.
       if li_phase i = Completed then plan ReplayCompleteAction
       else if li_phase i = RecoveryRequiredPhase then plan RecoveryRequiredAction
       else or_defer (deferred_foundation (ob_foundation ob))
         (case ob of
            MaterialiseRecoveryObservation p f t \<Rightarrow> plan_materialise f t
          | EvolveRecoveryObservation p f t s \<Rightarrow> plan_evolve f t s))"

end
