(* ===== verification/Phases.thy ===== *)
theory Phases
  imports Prelude
begin

text \<open>
  The contract shared by the program's durable intents: an intent is prepared once, and its
  phase is advanced once, to a terminal value, without touching the rest of the evidence.
  The components that keep intents interpret the locale with their own \<open>with_phase\<close>.
\<close>

fun run_phases :: "('i \<Rightarrow> 'p \<Rightarrow> 'e + 'i) \<Rightarrow> 'i \<Rightarrow> 'p list \<Rightarrow> 'e + 'i" where
  "run_phases advance i [] = Inr i"
| "run_phases advance i (p # ps) = bind_sum (advance i p) (\<lambda>j. run_phases advance j ps)"

locale phase_machine =
  fixes phase :: "'i \<Rightarrow> 'p"
    and evidence :: "'i \<Rightarrow> 'c"
    and advance :: "'i \<Rightarrow> 'p \<Rightarrow> 'e + 'i"
    and valid :: "'i \<Rightarrow> bool"
    and pending :: 'p
  assumes advance_ok: "advance i p = Inr j \<Longrightarrow>
      phase i = pending \<and> p \<noteq> pending \<and> phase j = p \<and> evidence j = evidence i \<and> valid j"
    and advance_total: "valid i \<Longrightarrow> phase i = pending \<Longrightarrow> p \<noteq> pending \<Longrightarrow> \<exists>j. advance i p = Inr j"
begin

lemma terminal_is_final: "phase i \<noteq> pending \<Longrightarrow> \<exists>e. advance i p = Inl e"
  using advance_ok [of i p] by (cases "advance i p") auto

lemma advance_iff: "valid i \<Longrightarrow> (\<exists>j. advance i p = Inr j) \<longleftrightarrow> phase i = pending \<and> p \<noteq> pending"
  using advance_ok advance_total by blast

lemma run_phases_once:
  assumes "run_phases advance i ps = Inr j"
  shows "evidence j = evidence i \<and> length ps \<le> 1 \<and> (\<forall>p. ps = [p] \<longrightarrow> phase i = pending \<and> phase j = p)"
proof (cases ps)
  case (Cons p qs)
  then obtain k where k: "advance i p = Inr k" "run_phases advance k qs = Inr j"
    using assms by (auto simp: bind_sum_Inr_iff)
  show ?thesis
  proof (cases qs)
    case Nil
    then show ?thesis using k Cons advance_ok [OF k(1)] by auto
  next
    case (Cons q rs)
    then obtain l where "advance k q = Inr l" using k(2) by (auto simp: bind_sum_Inr_iff)
    then have False using advance_ok [OF k(1)] advance_ok [of k q l] by metis
    then show ?thesis ..
  qed
qed (use assms in simp)

end

end
