(* ===== verification/Lifecycle_Spec.thy ===== *)
theory Lifecycle_Spec
  imports Lifecycle Phases
begin

text \<open>
  Correctness of the lifecycle vocabulary: which intents the constructor accepts, that
  preparing a valid command succeeds, that the phase of an intent moves once, that the
  fingerprinted payload determines the request, and what \<open>plan_recovery\<close> decides.
\<close>

section \<open>Intents\<close>

definition common_fields_spec :: "command_fields \<Rightarrow> bool" where
  "common_fields_spec f \<longleftrightarrow>
     valid_text (cf_principal_id f) 128 \<and> valid_text (cf_created_via f) 64 \<and>
     cf_service_id f \<noteq> 0 \<and> 1 \<le> cf_expected_service_revision f \<and>
     cf_expected_service_revision f \<le> MAX_SERVICE_REVISION \<and>
     1 \<le> cf_expected_schema_version f \<and> cf_expected_schema_version f \<le> MAX_SCHEMA_VERSION \<and>
     valid_text (cf_idempotency_key f) 128"

definition command_of :: "lifecycle_intent \<Rightarrow> lifecycle_command" where
  "command_of i = (case li_kind i of Materialise \<Rightarrow> MaterialiseCommand (li_fields i)
     | Evolve \<Rightarrow> EvolveCommand (li_fields i) (li_target_manifest i))"

definition intent_spec :: "runtime \<Rightarrow> lifecycle_intent \<Rightarrow> bool" where
  "intent_spec rt i \<longleftrightarrow>
     common_fields_spec (li_fields i) \<and> manifest_spec (li_target_manifest i) \<and>
     valid_digest (li_fingerprint i) \<and>
     (case li_kind i of
        Materialise \<Rightarrow> cf_expected_schema_version (li_fields i) = 1 \<and>
          ma_schema_version (li_target_manifest i) = 1
      | Evolve \<Rightarrow> ma_schema_version (li_target_manifest i) =
          cf_expected_schema_version (li_fields i) + 1) \<and>
     li_fingerprint i = lifecycle_fingerprint rt (command_of i)"

lemma common_field_guards_iff:
  "list_all (\<lambda>g. \<not> fst g) (common_field_guards f) \<longleftrightarrow> common_fields_spec f"
  by (auto simp: common_field_guards_def common_fields_spec_def)

lemma manifest_snapshot_iff [guard_simps]: "manifest_snapshot m = Inr s \<longleftrightarrow> s = m \<and> manifest_spec m"
  using model_validate_iff [of m]
  by (cases "model_validate m") (auto simp: manifest_snapshot_def)

lemma manifest_version_bound: "manifest_spec m \<Longrightarrow> ma_schema_version m \<le> MAX_SCHEMA_VERSION"
  by (simp add: manifest_spec_def manifest_fields_ok_def MAX_SCHEMA_VERSION_def)

lemma materialise_command_iff:
  "materialise_command f = Inr c \<longleftrightarrow>
     c = MaterialiseCommand f \<and> common_fields_spec f \<and> cf_expected_schema_version f = 1"
  by (auto simp: materialise_command_def construct_Inr_iff common_field_guards_iff)

lemma evolve_command_iff:
  "evolve_command f t = Inr c \<longleftrightarrow>
     c = EvolveCommand f t \<and> common_fields_spec f \<and> manifest_spec t \<and>
     ma_schema_version t = cf_expected_schema_version f + 1"
  using manifest_version_bound [of t]
  by (auto simp: evolve_command_def guard_simps common_field_guards_iff
      simp del: guards_None_iff)

lemma make_lifecycle_intent_iff: "make_lifecycle_intent rt i = Inr j \<longleftrightarrow> j = i \<and> intent_spec rt i"
proof -
  have cmd: "command_for_intent i = Inr (command_of i)"
    if "common_fields_spec (li_fields i)" "manifest_spec (li_target_manifest i)"
      "case li_kind i of
        Materialise \<Rightarrow> cf_expected_schema_version (li_fields i) = 1 \<and>
          ma_schema_version (li_target_manifest i) = 1
      | Evolve \<Rightarrow> ma_schema_version (li_target_manifest i) =
          cf_expected_schema_version (li_fields i) + 1"
    using that by (cases "li_kind i")
      (auto simp: command_for_intent_def command_of_def materialise_command_iff evolve_command_iff)
  show ?thesis
    using cmd by (cases "li_kind i")
      (auto simp: make_lifecycle_intent_def intent_spec_def guard_simps common_field_guards_iff
        simp del: guards_None_iff)
qed

definition intent_evidence :: "lifecycle_intent \<Rightarrow> lifecycle_intent" where
  "intent_evidence i = i\<lparr>li_phase := Prepared\<rparr>"

lemma intent_spec_phase [simp]: "intent_spec rt (i\<lparr>li_phase := p\<rparr>) = intent_spec rt i"
  by (cases "li_kind i") (simp_all add: intent_spec_def command_of_def)

lemma with_phase_iff:
  "with_phase rt i p = Inr j \<longleftrightarrow>
     li_phase i = Prepared \<and> p \<noteq> Prepared \<and> j = i\<lparr>li_phase := p\<rparr> \<and> intent_spec rt i"
  by (cases p) (auto simp: with_phase_def make_lifecycle_intent_iff)

interpretation lifecycle_phases: phase_machine li_phase intent_evidence "with_phase rt"
  "intent_spec rt" Prepared for rt
  by unfold_locales (auto simp: with_phase_iff intent_evidence_def)

definition valid_command :: "lifecycle_command \<Rightarrow> bool" where
  "valid_command c = (case c of
      MaterialiseCommand f \<Rightarrow> materialise_command f = Inr c
    | EvolveCommand f t \<Rightarrow> evolve_command f t = Inr c)"

lemma prepare_intent_total:
  assumes "runtime_ok rt" and c: "valid_command c"
    and t: "manifest_spec t"
    and m: "case c of MaterialiseCommand f \<Rightarrow> ma_schema_version t = 1 | EvolveCommand f t' \<Rightarrow> t = t'"
  shows "\<exists>i. prepare_intent rt c t = Inr i \<and> intent_spec rt i \<and> li_phase i = Prepared \<and>
    li_fields i = command_fields c \<and> li_target_manifest i = t \<and> command_of i = c"
proof -
  let ?i = "\<lparr>li_kind = command_kind c, li_phase = Prepared, li_fields = command_fields c,
          li_fingerprint = lifecycle_fingerprint rt c, li_target_manifest = t\<rparr>"
  have cmd: "command_of ?i = c" using m by (cases c) (auto simp: command_of_def)
  have "valid_digest (lifecycle_fingerprint rt c)" using assms(1) by (simp add: lifecycle_fingerprint_def)
  then have "intent_spec rt ?i"
    using c t m cmd
    by (cases c) (auto simp: intent_spec_def valid_command_def materialise_command_iff evolve_command_iff)
  moreover have "prepare_intent rt c t = Inr ?i"
    using calculation c t m
    by (cases c)
      (auto simp: prepare_intent_def guard_simps make_lifecycle_intent_iff valid_command_def
        materialise_command_iff)
  ultimately show ?thesis using cmd by auto
qed

section \<open>The fingerprinted payload determines the request\<close>

lemma uuid_str_inj: "uuid_str u = uuid_str v \<longleftrightarrow> u = v"
proof
  assume eq: "uuid_str u = uuid_str v"
  have step: "take n (drop m xs) @ drop (n + m) xs = drop m xs" for n m and xs :: pystr
    by (metis append_take_drop_id drop_drop)
  have parts: "uuid_hex w = take 8 (uuid_str w) @ take 4 (drop 9 (uuid_str w)) @
      take 4 (drop 14 (uuid_str w)) @ take 4 (drop 19 (uuid_str w)) @ drop 24 (uuid_str w)" for w
  proof -
    have "length (uuid_hex w) = 32" by (simp add: uuid_hex_def)
    with step [of 4 16 "uuid_hex w"] step [of 4 12 "uuid_hex w"] step [of 4 8 "uuid_hex w"]
      step [of 8 0 "uuid_hex w"]
    show ?thesis by (simp add: uuid_str_def Let_def)
  qed
  show "u = v" using parts [of u] parts [of v] eq uuid_hex_inj by metis
qed simp

lemma dump_optional_inj: "dump_optional v = dump_optional w \<longleftrightarrow> v = w"
  by (auto simp: dump_optional_def split: option.splits)

lemma dump_type_inj: "dump_type t = dump_type u \<longleftrightarrow> t = u"
  by (cases t; cases u) (simp_all add: dump_text_def)

lemma dump_mode_inj: "dump_mode t = dump_mode u \<longleftrightarrow> t = u"
  by (cases t rule: dump_mode.cases; cases u rule: dump_mode.cases) (simp_all add: dump_text_def)

lemma dump_attribute_inj: "dump_attribute a = dump_attribute b \<longleftrightarrow> a = b"
  by (cases a; cases b)
    (auto simp: dump_attribute_def dump_optional_inj dump_type_inj dump_mode_inj split: option.splits)

lemma map_inj_eq: "(\<And>x y. f x = f y \<longleftrightarrow> x = y) \<Longrightarrow> map f xs = map f ys \<longleftrightarrow> xs = ys"
  by (metis injI inj_map_eq_map)

lemmas dump_member_inj = dump_optional_inj dump_attribute_inj

lemma dump_entity_inj: "dump_entity a = dump_entity b \<longleftrightarrow> a = b"
  by (cases a; cases b) (auto simp: dump_entity_def dump_member_inj map_inj_eq)

lemma dump_relationship_inj: "dump_relationship a = dump_relationship b \<longleftrightarrow> a = b"
proof -
  have "dump_endpoint p = dump_endpoint q \<longleftrightarrow> p = q" for p q
    by (cases p; cases q) (simp add: dump_endpoint_def)
  then show ?thesis by (cases a; cases b) (auto simp: dump_relationship_def)
qed

lemma dump_index_inj: "dump_index a = dump_index b \<longleftrightarrow> a = b"
  by (cases a; cases b) (auto simp: dump_index_def map_inj_eq)

lemma dump_facet_inj: "dump_facet a = dump_facet b \<longleftrightarrow> a = b"
  by (cases a; cases b) (auto simp: dump_facet_def)

lemma dump_history_inj: "dump_history a = dump_history b \<longleftrightarrow> a = b"
  by (cases a; cases b) (auto simp: dump_history_def map_inj_eq)

lemma dump_manifest_inj: "dump_manifest m = dump_manifest n \<longleftrightarrow> m = n"
proof -
  have "map PStr xs = map PStr ys \<longleftrightarrow> xs = ys" for xs ys by (rule map_inj_eq) simp
  then show ?thesis
    by (cases m; cases n)
      (auto simp: dump_manifest_def dump_optional_inj map_inj_eq [OF dump_entity_inj]
        map_inj_eq [OF dump_relationship_inj] map_inj_eq [OF dump_index_inj]
        map_inj_eq [OF dump_facet_inj] map_inj_eq [OF dump_history_inj])
qed

definition without_key :: "lifecycle_command \<Rightarrow> lifecycle_command" where
  "without_key c = (case c of
      MaterialiseCommand f \<Rightarrow> MaterialiseCommand (f\<lparr>cf_idempotency_key := []\<rparr>)
    | EvolveCommand f t \<Rightarrow> EvolveCommand (f\<lparr>cf_idempotency_key := []\<rparr>) t)"

lemma canonical_payload_eq_iff:
  "canonical_lifecycle_payload c = canonical_lifecycle_payload d \<longleftrightarrow> without_key c = without_key d"
proof -
  have f: "f\<lparr>cf_idempotency_key := []\<rparr> = g\<lparr>cf_idempotency_key := []\<rparr> \<longleftrightarrow>
      cf_principal_id f = cf_principal_id g \<and> cf_created_via f = cf_created_via g \<and>
      cf_service_id f = cf_service_id g \<and>
      cf_expected_service_revision f = cf_expected_service_revision g \<and>
      cf_expected_schema_version f = cf_expected_schema_version g" for f g :: command_fields
    by (cases f; cases g) auto
  show ?thesis
    by (cases c; cases d)
      (auto simp: canonical_lifecycle_payload_def without_key_def Let_def uuid_str_inj
        dump_manifest_inj dump_text_def f)
qed

section \<open>Recovery decisions\<close>

lemma plan_eq [simp]:
  "action \<noteq> DeferObservation \<Longrightarrow> plan action = Inr \<lparr>rp_action = action, rp_deferred = None\<rparr>"
  by (simp add: plan_def make_recovery_plan_def construct_def)

lemma make_deferred [simp]:
  "make_recovery_plan DeferObservation (Some r) =
     Inr \<lparr>rp_action = DeferObservation, rp_deferred = Some r\<rparr>"
  by (simp add: make_recovery_plan_def construct_def)

text \<open>The decision table: what the observation determines for a prepared intent.\<close>

definition decided_action :: "lifecycle_observation \<Rightarrow> recovery_action" where
  "decided_action ob =
     (if deferred_foundation (ob_foundation ob) \<noteq> None \<or> deferred_domain (ob_target ob) \<noteq> None \<or>
         (\<not> is_MaterialiseRecoveryObservation ob \<and> deferred_domain (ob_source ob) \<noteq> None)
      then DeferObservation
      else if ob_foundation ob \<in> {FoundationOutdated, FoundationDirty} \<or>
         is_MaterialiseRecoveryObservation ob \<and> ob_foundation ob = FoundationUninitialised
      then PrepareFoundation
      else if ob_foundation ob = FoundationReady \<and> ob_target ob = DomainReady
      then FinalizeRegistry
      else if is_MaterialiseRecoveryObservation ob \<and> ob_foundation ob = FoundationReady \<and>
         ob_target ob = DomainUnmaterialised
      then ApplyInitialSchema
      else if \<not> is_MaterialiseRecoveryObservation ob \<and> ob_foundation ob = FoundationReady \<and>
         ob_target ob = DomainIncompatible \<and> ob_source ob = DomainReady
      then ApplyTransition
      else RecoveryRequiredAction)"

definition observed_for :: "lifecycle_intent \<Rightarrow> lifecycle_observation \<Rightarrow> bool" where
  "observed_for i ob \<longleftrightarrow>
     valid_observation ob \<and> ob_phase ob = li_phase i \<and>
     (li_kind i = Materialise \<longleftrightarrow> is_MaterialiseRecoveryObservation ob)"

lemma plan_recovery_prepared:
  assumes "observed_for i ob" and "li_phase i = Prepared"
  shows "\<exists>p. plan_recovery i ob = Inr p \<and> rp_action p = decided_action ob \<and>
    (rp_deferred p = None \<longleftrightarrow> rp_action p \<noteq> DeferObservation)"
proof (cases ob)
  case (MaterialiseRecoveryObservation p f t)
  then show ?thesis
    using assms
    by (cases f; cases t)
      (simp_all add: observed_for_def plan_recovery_def decided_action_def plan_materialise_def
        or_defer_def construct_def materialise_observation_def observation_sets)
next
  case (EvolveRecoveryObservation p f t s)
  then show ?thesis
    using assms
    by (cases f; cases t; cases s)
      (simp_all add: observed_for_def plan_recovery_def decided_action_def plan_evolve_def
        or_defer_def construct_def evolve_observation_def validate_ready_evolve_observation_def
        observation_sets)
qed

lemma plan_recovery_terminal:
  assumes "observed_for i ob" and "li_phase i \<noteq> Prepared"
  shows "plan_recovery i ob = Inr \<lparr>rp_action =
    (if li_phase i = Completed then ReplayCompleteAction else RecoveryRequiredAction),
    rp_deferred = None\<rparr>"
  using assms by (cases "li_phase i") (auto simp: observed_for_def plan_recovery_def construct_def)

end
