(* ===== verification/Operational.thy ===== *)
theory Operational
  imports Lifecycle_Spec
begin

text \<open>
  \<open>application/operational_lifecycle.py\<close>: suspend, resume, archive and restore. The four
  command classes differ only in their fixed \<open>kind\<close>, so one record carries them. The intent's
  target status is determined by the kind, its phase moves once, and the transition matrix
  says from which status each command is admitted.
\<close>

datatype operational_status = Active | Suspended | Archived

datatype design_state = Seeded | Materialised

datatype operational_kind = Suspend | Resume | Archive | Restore

datatype operational_error =
    OpInvalidPrincipal | OpInvalidCreatedVia | OpInvalidServiceId | OpInvalidRevision
  | OpInvalidKey | OpTargetStatus | OpInvalidFingerprint | OpFingerprintMismatch
  | OpPhaseNotMonotonic | OpTransitionUnsupported

record operational_command =
  oc_kind :: operational_kind
  oc_principal_id :: pystr
  oc_created_via :: pystr
  oc_service_id :: uuid
  oc_expected_service_revision :: int
  oc_idempotency_key :: pystr

definition op_field_guards :: "operational_command \<Rightarrow> (bool \<times> operational_error) list" where
  "op_field_guards c =
     [(\<not> valid_text (oc_principal_id c) 128, OpInvalidPrincipal),
      (\<not> valid_text (oc_created_via c) 64, OpInvalidCreatedVia),
      (oc_service_id c = 0, OpInvalidServiceId),
      (\<not> (1 \<le> oc_expected_service_revision c \<and>
           oc_expected_service_revision c < MAX_SERVICE_REVISION), OpInvalidRevision),
      (\<not> valid_text (oc_idempotency_key c) 128, OpInvalidKey)]"

definition make_operational_command ::
  "operational_command \<Rightarrow> operational_error + operational_command" where
  "make_operational_command c = construct (op_field_guards c) c"

fun deterministic_target_status :: "operational_kind \<Rightarrow> operational_status" where
  "deterministic_target_status Suspend = Suspended"
| "deterministic_target_status Resume = Active"
| "deterministic_target_status Archive = Archived"
| "deterministic_target_status Restore = Suspended"

fun allowed_sources :: "operational_kind \<Rightarrow> operational_status list" where
  "allowed_sources Suspend = [Active]"
| "allowed_sources Resume = [Suspended]"
| "allowed_sources Archive = [Active, Suspended]"
| "allowed_sources Restore = [Archived]"

definition transition_target_status ::
  "operational_command \<Rightarrow> design_state \<Rightarrow> operational_status \<Rightarrow>
   operational_error + operational_status" where
  "transition_target_status c design current =
     (if current \<notin> set (allowed_sources (oc_kind c)) then Inl OpTransitionUnsupported
      else Inr (deterministic_target_status (oc_kind c)))"

fun op_kind_value :: "operational_kind \<Rightarrow> pyval" where
  "op_kind_value Suspend = dump_text ''suspend''"
| "op_kind_value Resume = dump_text ''resume''"
| "op_kind_value Archive = dump_text ''archive''"
| "op_kind_value Restore = dump_text ''restore''"

fun status_value :: "operational_status \<Rightarrow> pyval" where
  "status_value Active = dump_text ''active''"
| "status_value Suspended = dump_text ''suspended''"
| "status_value Archived = dump_text ''archived''"

definition canonical_operational_payload :: "operational_command \<Rightarrow> pyval" where
  "canonical_operational_payload c = PObj
     [(ascii ''kind'', op_kind_value (oc_kind c)),
      (ascii ''principal'', PStr (oc_principal_id c)),
      (ascii ''created_via'', PStr (oc_created_via c)),
      (ascii ''service_id'', PStr (uuid_str (oc_service_id c))),
      (ascii ''expected_service_revision'', PInt (oc_expected_service_revision c)),
      (ascii ''target_operational_status'',
         status_value (deterministic_target_status (oc_kind c)))]"

definition operational_fingerprint :: "runtime \<Rightarrow> operational_command \<Rightarrow> pystr" where
  "operational_fingerprint rt c = sha256_json rt (canonical_operational_payload c)"

record operational_intent =
  oi_phase :: lifecycle_phase
  oi_command :: operational_command
  oi_target_status :: operational_status
  oi_fingerprint :: pystr

text \<open>\<open>OperationalLifecycleIntent.__post_init__\<close>; \<open>OperationalLifecyclePhase\<close> has the same three
  values as \<open>LifecyclePhase\<close>, and \<open>_command_for_intent\<close> rebuilds the command from the fields.\<close>

definition make_operational_intent ::
  "runtime \<Rightarrow> operational_intent \<Rightarrow> operational_error + operational_intent" where
  "make_operational_intent rt i =
     bind_sum (construct (op_field_guards (oi_command i) @
       [(oi_target_status i \<noteq> deterministic_target_status (oc_kind (oi_command i)), OpTargetStatus),
        (\<not> valid_digest (oi_fingerprint i), OpInvalidFingerprint)]) ()) (\<lambda>_.
     bind_sum (make_operational_command (oi_command i)) (\<lambda>c.
       construct [(oi_fingerprint i \<noteq> operational_fingerprint rt c, OpFingerprintMismatch)] i))"

definition op_with_phase ::
  "runtime \<Rightarrow> operational_intent \<Rightarrow> lifecycle_phase \<Rightarrow> operational_error + operational_intent" where
  "op_with_phase rt i phase =
     (if oi_phase i \<noteq> Prepared \<or> phase \<notin> {Completed, RecoveryRequiredPhase}
      then Inl OpPhaseNotMonotonic
      else make_operational_intent rt (i\<lparr>oi_phase := phase\<rparr>))"

definition prepare_operational_intent ::
  "runtime \<Rightarrow> operational_command \<Rightarrow> operational_error + operational_intent" where
  "prepare_operational_intent rt c =
     make_operational_intent rt
       \<lparr>oi_phase = Prepared, oi_command = c,
        oi_target_status = deterministic_target_status (oc_kind c),
        oi_fingerprint = operational_fingerprint rt c\<rparr>"

section \<open>Properties\<close>

definition operational_intent_spec :: "runtime \<Rightarrow> operational_intent \<Rightarrow> bool" where
  "operational_intent_spec rt i \<longleftrightarrow>
     make_operational_command (oi_command i) = Inr (oi_command i) \<and>
     oi_target_status i = deterministic_target_status (oc_kind (oi_command i)) \<and>
     valid_digest (oi_fingerprint i) \<and>
     oi_fingerprint i = operational_fingerprint rt (oi_command i)"

lemma make_operational_intent_iff:
  "make_operational_intent rt i = Inr j \<longleftrightarrow> j = i \<and> operational_intent_spec rt i"
  by (auto simp: make_operational_intent_def operational_intent_spec_def guard_simps
      make_operational_command_def simp del: guards_None_iff)

lemma op_with_phase_iff:
  "op_with_phase rt i p = Inr j \<longleftrightarrow>
     oi_phase i = Prepared \<and> p \<noteq> Prepared \<and> j = i\<lparr>oi_phase := p\<rparr> \<and> operational_intent_spec rt i"
  by (cases p) (auto simp: op_with_phase_def make_operational_intent_iff operational_intent_spec_def)

interpretation operational_phases: phase_machine oi_phase "\<lambda>i. i\<lparr>oi_phase := Prepared\<rparr>"
  "op_with_phase rt" "operational_intent_spec rt" Prepared for rt
  by unfold_locales (auto simp: op_with_phase_iff operational_intent_spec_def)

lemma prepare_operational_total:
  assumes "runtime_ok rt" and "make_operational_command c = Inr c"
  shows "\<exists>i. prepare_operational_intent rt c = Inr i \<and> oi_command i = c \<and> oi_phase i = Prepared \<and>
    operational_intent_spec rt i"
  using assms
  by (auto simp: prepare_operational_intent_def make_operational_intent_iff
      operational_intent_spec_def operational_fingerprint_def)

lemma op_kind_value_inj: "op_kind_value k = op_kind_value l \<longleftrightarrow> k = l"
  by (cases k; cases l) (simp_all add: dump_text_def)

lemma operational_payload_eq_iff:
  "canonical_operational_payload c = canonical_operational_payload d \<longleftrightarrow>
     c\<lparr>oc_idempotency_key := []\<rparr> = d\<lparr>oc_idempotency_key := []\<rparr>"
  for c d :: operational_command
  by (cases c; cases d) (auto simp: canonical_operational_payload_def uuid_str_inj op_kind_value_inj)

text \<open>The operational status as a state machine: one step per admitted command.\<close>

inductive op_step :: "operational_status \<Rightarrow> operational_kind \<Rightarrow> operational_status \<Rightarrow> bool" where
  "transition_target_status c design s = Inr s' \<Longrightarrow> op_step s (oc_kind c) s'"

lemma op_step_iff [simp]:
  "op_step s k s' \<longleftrightarrow> s \<in> set (allowed_sources k) \<and> s' = deterministic_target_status k"
proof
  assume "s \<in> set (allowed_sources k) \<and> s' = deterministic_target_status k"
  then show "op_step s k s'"
    using op_step.intros [of "\<lparr>oc_kind = k, oc_principal_id = [], oc_created_via = [],
        oc_service_id = 0, oc_expected_service_revision = 0, oc_idempotency_key = []\<rparr>" Seeded s s']
    by (simp add: transition_target_status_def)
qed (auto elim!: op_step.cases simp: transition_target_status_def split: if_splits)

inductive op_run :: "operational_status \<Rightarrow> operational_kind list \<Rightarrow> operational_status \<Rightarrow> bool" where
  "op_run s [] s"
| "op_step s k s' \<Longrightarrow> op_run s' ks s'' \<Longrightarrow> op_run s (k # ks) s''"

inductive_cases op_run_NilE [elim!]: "op_run s [] s'"
inductive_cases op_run_ConsE [elim!]: "op_run s (k # ks) s'"

lemma op_run_archived_head:
  assumes "op_run Archived ks s" and "s \<noteq> Archived"
  shows "\<exists>ks'. ks = Restore # ks' \<and> op_run Suspended ks' s"
proof (cases ks)
  case (Cons k ks')
  then show ?thesis using assms by (cases k) auto
qed (use assms in auto)

lemma op_run_to_active: "op_run s ks s' \<Longrightarrow> s' = Active \<Longrightarrow> s \<noteq> Active \<Longrightarrow> Resume \<in> set ks"
proof (induction rule: op_run.induct)
  case (2 s k s' ks s'')
  then show ?case by (cases k) auto
qed simp

end
