(* ===== verification/Sample.thy ===== *)
theory Sample
  imports Transition_Spec Records_Spec Operational
begin

text \<open>
  A small concrete service for the witnesses: a manifest with two entities, a required
  relationship, an index and a facet; its additive successor, which appends an optional
  attribute, an entity and an index; and records that fit it.
\<close>

definition sample_attribute :: "string \<Rightarrow> logical_type \<Rightarrow> bool \<Rightarrow> attribute_def" where
  "sample_attribute n ty req =
     \<lparr>at_name = ascii n, at_type = ty, at_required = req, at_primary_key = False,
      at_description = None, at_allowed_values = None, at_retrieval_mode = None\<rparr>"

definition server_attributes :: "attribute_def list" where
  "server_attributes =
     map (\<lambda>x. case x of (n, ty, req, pk) \<Rightarrow>
       \<lparr>at_name = n, at_type = ty, at_required = req, at_primary_key = pk,
        at_description = None, at_allowed_values = None, at_retrieval_mode = None\<rparr>)
       SERVER_MANAGED_FIELDS"

definition note_entity :: entity_def where
  "note_entity =
     \<lparr>en_name = ascii ''note'',
      en_attributes = server_attributes @ [sample_attribute ''title'' TString True],
      en_description = None\<rparr>"

definition comment_entity :: entity_def where
  "comment_entity =
     \<lparr>en_name = ascii ''comment'',
      en_attributes = server_attributes @
        [sample_attribute ''note_id'' TUuid True, sample_attribute ''body'' TString False],
      en_description = None\<rparr>"

definition comment_note :: relationship_def where
  "comment_note =
     \<lparr>re_name = ascii ''comment_note'',
      re_from = \<lparr>ep_entity = ascii ''comment'', ep_field = ascii ''note_id''\<rparr>,
      re_to = \<lparr>ep_entity = ascii ''note'', ep_field = ascii ''id''\<rparr>\<rparr>"

definition note_title :: index_def where
  "note_title = \<lparr>ix_name = ascii ''note_title'', ix_entity = ascii ''note'',
     ix_fields = [ascii ''title''], ix_unique = False\<rparr>"

definition notes_manifest :: manifest where
  "notes_manifest =
     \<lparr>ma_schema_version = 1, ma_entities = [note_entity, comment_entity],
      ma_relationships = [comment_note], ma_indices = [note_title], ma_query_patterns = [],
      ma_discovery_facets = [\<lparr>fa_entity = ascii ''note'', fa_field = ascii ''title''\<rparr>],
      ma_retrieval_guidance = None, ma_migration_history = []\<rparr>"

definition tag_entity :: entity_def where
  "tag_entity = \<lparr>en_name = ascii ''tag'',
     en_attributes = server_attributes @ [sample_attribute ''label'' TString False],
     en_description = None\<rparr>"

definition evolved_manifest :: manifest where
  "evolved_manifest = notes_manifest
     \<lparr>ma_schema_version := 2,
      ma_entities := [note_entity\<lparr>en_attributes := en_attributes note_entity @
          [sample_attribute ''pinned'' TBoolean False]\<rparr>, comment_entity, tag_entity],
      ma_migration_history := [\<lparr>hi_from = 1, hi_to = 2, hi_operations = [ascii ''add tag'']\<rparr>]\<rparr>"

lemma notes_validate: "model_validate notes_manifest = Inr notes_manifest"
  by code_simp

lemma evolved_validate: "model_validate evolved_manifest = Inr evolved_manifest"
  by code_simp

lemma notes_spec: "manifest_spec notes_manifest" and evolved_spec: "manifest_spec evolved_manifest"
  using notes_validate evolved_validate by (simp_all add: model_validate_iff)

lemma sample_classified:
  "case classify_transition notes_manifest evolved_manifest of Inl _ \<Rightarrow> False | Inr _ \<Rightarrow> True"
  by code_simp

lemma sample_additive: "additive notes_manifest evolved_manifest"
  using sample_classified
  by (cases "classify_transition notes_manifest evolved_manifest")
    (auto simp: classify_transition_iff)

definition note_record :: "(pystr \<times> pyval) list" where
  "note_record = [(ascii ''title'', PStr (ascii ''hello''))]"

lemma note_created:
  "validate_create ascii_runtime (record_spec_of notes_manifest) (ascii ''note'') note_record =
     Inr note_record"
  by code_simp

text \<open>The declarations of \<open>notes_manifest\<close> in another order.\<close>

definition reordered_manifest :: manifest where
  "reordered_manifest = notes_manifest\<lparr>ma_entities := [comment_entity, note_entity]\<rparr>"

lemma reordered_validate: "model_validate reordered_manifest = Inr reordered_manifest"
  by code_simp

definition sample_fields :: command_fields where
  "sample_fields =
     \<lparr>cf_principal_id = ascii ''alice'', cf_created_via = ascii ''mcp'', cf_service_id = 7,
      cf_expected_service_revision = 2, cf_expected_schema_version = 1,
      cf_idempotency_key = ascii ''key-1''\<rparr>"

lemma sample_fields_ok: "common_fields_spec sample_fields"
  by code_simp

definition suspend_command :: operational_command where
  "suspend_command =
     \<lparr>oc_kind = Suspend, oc_principal_id = ascii ''alice'', oc_created_via = ascii ''mcp'',
      oc_service_id = 7, oc_expected_service_revision = 2, oc_idempotency_key = ascii ''key-2''\<rparr>"

lemma suspend_command_ok: "make_operational_command suspend_command = Inr suspend_command"
  by code_simp

end
