(* ===== verification/Manifest_Properties.thy ===== *)
theory Manifest_Properties
  imports Sample
begin

text \<open>
  The properties of the manifest, the relational compiler, the transition classifier and the
  record contract, with concrete witnesses over the sample manifests.
\<close>

text \<open>C6. Validation is exact: the ordered sequence of field constraints and model validators
  accepts a document exactly when it satisfies the declarative specification (names unique,
  server-managed fields declared, references resolved, history contiguous and the graph of
  required relationships acyclic), and it returns the document unchanged.\<close>

theorem validator_exact: "model_validate m = Inr m' \<longleftrightarrow> manifest_spec m \<and> m' = m"
  by (auto simp: model_validate_iff)

text \<open>C23. The depth-first search with its visiting and visited sets reports a cycle exactly
  when the directed graph of the edges is not acyclic, and it always terminates.\<close>

theorem cycle_check_exact: "manifest_has_directed_cycle edges \<longleftrightarrow> (\<exists>n. (n, n) \<in> (set edges)\<^sup>+)"
  by (auto simp: manifest_has_directed_cycle_iff acyclic_def)

text \<open>C19. The relational compiler is total on valid manifests: it fails exactly on the invalid
  ones, none of its own constructor checks ever rejects a valid manifest, and what it returns
  is the sorted physical shape.\<close>

theorem compile_exact:
  "compile_manifest m = Inr s \<longleftrightarrow> manifest_spec m \<and> s = spec_of m \<and> rel_specification_ok s"
  using specification_ok by (auto simp: compile_manifest_iff)

text \<open>C24. The compiled shape does not depend on the order in which a manifest declares its
  entities, relationships and indices.\<close>

theorem compile_ignores_declaration_order:
  assumes "compile_manifest m = Inr s" and "compile_manifest m' = Inr s'"
    and "ma_schema_version m = ma_schema_version m'"
    and "set (ma_entities m) = set (ma_entities m')"
    and "set (ma_relationships m) = set (ma_relationships m')"
    and "set (ma_indices m) = set (ma_indices m')"
  shows "s = s'"
  using assms spec_of_declaration_order by (auto simp: compile_manifest_iff)

theorem compile_ignores_declaration_order_witness:
  "spec_of notes_manifest = spec_of reordered_manifest"
proof (rule compile_ignores_declaration_order)
  show "compile_manifest notes_manifest = Inr (spec_of notes_manifest)"
    using notes_spec by (simp add: compile_manifest_iff)
  show "compile_manifest reordered_manifest = Inr (spec_of reordered_manifest)"
    using reordered_validate by (simp add: compile_manifest_iff model_validate_iff)
qed (simp_all add: reordered_manifest_def notes_manifest_def insert_commute)

text \<open>C7. The classifier accepts exactly the additive transitions (history extended by one
  entry, nothing removed or retyped, new attributes optional, new relationships only from new
  entities, allowed values only widened, something different), and returns the canonical
  transition; the factory's recomputation of the additions never disagrees.\<close>

theorem classify_exact:
  "classify_transition c t = Inr tr \<longleftrightarrow> additive c t \<and> tr = transition_of c t"
  by (rule classify_transition_iff)

text \<open>C25. The additions of an accepted transition are complete: applied to the current
  specification they give the target specification.\<close>

theorem additions_reconstruct_target:
  assumes "classify_transition c t = Inr tr"
  shows "apply_additions (tr_current tr) (tr_additions tr) = tr_target tr \<and>
    compile_manifest t = Inr (tr_target tr)"
  using assms apply_additions_of [of c t]
  by (auto simp: classify_transition_iff additive_def transition_of_def compile_manifest_iff)

theorem additions_reconstruct_target_witness:
  "apply_additions (spec_of notes_manifest) (additions_of notes_manifest evolved_manifest) =
     spec_of evolved_manifest"
  using additions_reconstruct_target
    [of notes_manifest evolved_manifest "transition_of notes_manifest evolved_manifest"]
    sample_additive
  by (simp add: classify_transition_iff transition_of_def)

text \<open>The record contract is derivable from every valid manifest, and only from those: the
  per-field, per-entity and cross-reference checks of the compilation never fail.\<close>

theorem record_contract_exact:
  "compile_record_specification rt m = Inr s \<longleftrightarrow>
     manifest_spec m \<and> s = record_spec_of m \<and> record_specification_ok s"
  using record_specification_ok_valid by (auto simp: compile_record_specification_iff)

text \<open>C20. Creation accepts exactly the records whose keys are declared domain fields with
  conforming values, which carry every required field and fit the size bounds; the stored
  record is the input in key order.\<close>

theorem create_exact:
  assumes "compile_record_specification rt m = Inr s" and "distinct (map fst kvs)"
  shows "validate_create rt s entity kvs = Inr fr \<longleftrightarrow>
    fr = sort_key fst kvs \<and> record_conforms rt m entity kvs \<and> required_present m entity kvs \<and>
    record_fits rt kvs"
  using assms by (auto simp: compile_record_specification_iff validate_create_iff)

theorem create_exact_witness:
  "record_conforms ascii_runtime notes_manifest (ascii ''note'') note_record"
  using create_exact [of ascii_runtime notes_manifest "record_spec_of notes_manifest" note_record
      "ascii ''note''" note_record] notes_spec note_created
  by (simp add: compile_record_specification_iff note_record_def)

text \<open>C26. An update accepts exactly the non-empty partial records that conform; required
  fields may be absent.\<close>

theorem update_exact:
  assumes "compile_record_specification rt m = Inr s" and "distinct (map fst kvs)"
  shows "validate_updates rt s entity kvs = Inr fr \<longleftrightarrow>
    fr = sort_key fst kvs \<and> record_conforms rt m entity kvs \<and> kvs \<noteq> [] \<and> record_fits rt kvs"
  using assms by (auto simp: compile_record_specification_iff validate_updates_iff)

theorem update_exact_witness:
  "validate_updates ascii_runtime (record_spec_of notes_manifest) (ascii ''note'') note_record = Inr note_record"
proof -
  have spec: "compile_record_specification ascii_runtime notes_manifest = Inr (record_spec_of notes_manifest)"
    using notes_spec by (simp add: compile_record_specification_iff)
  have rec: "distinct (map fst note_record)" "sort_key fst note_record = note_record" "note_record \<noteq> []"
    by (simp_all add: note_record_def)
  have "record_conforms ascii_runtime notes_manifest (ascii ''note'') note_record"
    "record_fits ascii_runtime note_record"
    using note_created notes_spec rec(1) by (simp_all add: validate_create_iff)
  with update_exact [OF spec rec(1)] rec show ?thesis by simp
qed

text \<open>C12. Evolution keeps data valid: a record that the current contract accepts is accepted,
  unchanged, by the contract of every manifest the classifier lets it evolve to.\<close>

theorem evolution_keeps_records:
  assumes "classify_transition c t = Inr tr" and "distinct (map fst kvs)"
    and "compile_record_specification rt c = Inr s" and "compile_record_specification rt t = Inr s'"
    and "validate_create rt s entity kvs = Inr fr"
  shows "validate_create rt s' entity kvs = Inr fr"
  using assms validate_create_additive [of c t kvs rt entity fr]
  by (auto simp: classify_transition_iff compile_record_specification_iff)

theorem evolution_keeps_records_witness:
  "validate_create ascii_runtime (record_spec_of evolved_manifest) (ascii ''note'') note_record =
     Inr note_record"
  using evolution_keeps_records [of notes_manifest evolved_manifest
      "transition_of notes_manifest evolved_manifest" note_record ascii_runtime
      "record_spec_of notes_manifest" "record_spec_of evolved_manifest" "ascii ''note''" note_record]
    sample_additive notes_spec evolved_spec note_created
  by (simp add: classify_transition_iff compile_record_specification_iff note_record_def)

end
