(* ===== verification/Service_Model.thy ===== *)
theory Service_Model
  imports Operational Transition
begin

text \<open>
  \<open>application/models.py\<close> and the service part of \<open>storage/codecs.py\<close>: the service value, the
  claims of the idempotency ledger and the completion evidence. Every \<open>__post_init__\<close> that
  raises is a predicate \<open>*_ok\<close>; the messages differ, the type is always \<open>ValueError\<close>. A UTC
  \<open>datetime\<close> is its number of microseconds, so the tests that a value is a UTC time are
  discharged by its type.
\<close>

type_synonym time = int

datatype value_error = ValueError

definition valued :: "bool \<Rightarrow> 'a \<Rightarrow> value_error + 'a" where
  "valued ok x = (if ok then Inr x else Inl ValueError)"

lemma valued_Inr_iff [guard_simps]: "valued ok x = Inr y \<longleftrightarrow> ok \<and> y = x"
  by (auto simp: valued_def)

section \<open>Services\<close>

datatype storage_backend = SQLite | PostgreSQL

record materialisation_storage =
  st_backend :: storage_backend
  st_namespace :: pystr

text \<open>\<^verbatim>\<open>^svc_[0-9a-f]{32}$\<close>, and not the namespace of the nil UUID.\<close>

definition namespace_ok :: "pystr \<Rightarrow> bool" where
  "namespace_ok n \<longleftrightarrow>
     take 4 n = ascii ''svc_'' \<and> length n = 36 \<and> list_all is_hex (drop 4 n) \<and>
     n \<noteq> ascii ''svc_'' @ replicate 32 48"

definition storage_ok :: "materialisation_storage \<Rightarrow> bool" where
  "storage_ok s \<longleftrightarrow> namespace_ok (st_namespace s)"

record service =
  sv_service_id :: uuid
  sv_principal_id :: pystr
  sv_domain_name :: pystr
  sv_domain_class :: pystr
  sv_intent_description :: pystr
  sv_created_at :: time
  sv_updated_at :: time
  sv_last_activity_at :: time
  sv_manifest :: "manifest option"
  sv_schema_version :: "int option"
  sv_design_state :: design_state
  sv_operational_status :: operational_status
  sv_service_revision :: int
  sv_materialised_at :: "time option"
  sv_storage :: "materialisation_storage option"

text \<open>The conditions that \<open>Service.__post_init__\<close> and \<open>codecs.validate_service\<close> both check.\<close>

definition service_ok :: "service \<Rightarrow> bool" where
  "service_ok s \<longleftrightarrow>
     sv_service_id s \<noteq> 0 \<and>
     sv_created_at s \<le> sv_updated_at s \<and> sv_updated_at s \<le> sv_last_activity_at s \<and>
     1 \<le> sv_service_revision s \<and> sv_service_revision s \<le> MAX_SERVICE_REVISION \<and>
     (sv_manifest s = None \<longleftrightarrow> sv_schema_version s = None) \<and>
     (case sv_schema_version s of None \<Rightarrow> True | Some v \<Rightarrow> 1 \<le> v \<and> v \<le> MAX_SCHEMA_VERSION) \<and>
     (case sv_manifest s of None \<Rightarrow> True
      | Some m \<Rightarrow> model_validate m = Inr m \<and> sv_schema_version s = Some (ma_schema_version m)) \<and>
     (sv_materialised_at s = None \<longleftrightarrow> sv_storage s = None) \<and>
     (case sv_materialised_at s of None \<Rightarrow> True
      | Some t \<Rightarrow> sv_created_at s \<le> t \<and> t \<le> sv_updated_at s) \<and>
     (case sv_storage s of None \<Rightarrow> True
      | Some st \<Rightarrow> storage_ok st \<and> st_namespace st = svc_namespace (sv_service_id s)) \<and>
     (if sv_design_state s = Seeded then sv_materialised_at s = None \<and> sv_storage s = None
      else sv_manifest s \<noteq> None \<and> sv_materialised_at s \<noteq> None \<and> sv_storage s \<noteq> None)"

definition make_service :: "service \<Rightarrow> value_error + service" where
  "make_service s = valued (service_ok s) s"

text \<open>\<open>codecs._text\<close> and \<open>codecs._domain\<close>.\<close>

definition codec_text :: "runtime \<Rightarrow> pystr \<Rightarrow> nat \<Rightarrow> bool" where
  "codec_text rt s maximum \<longleftrightarrow> valid_text s maximum \<and> is_printable rt s"

definition codec_domain :: "runtime \<Rightarrow> pystr \<Rightarrow> bool" where
  "codec_domain rt s \<longleftrightarrow> codec_text rt s 63 \<and> is_identifier s"

definition validate_service :: "runtime \<Rightarrow> service \<Rightarrow> bool" where
  "validate_service rt s \<longleftrightarrow>
     codec_text rt (sv_principal_id s) 128 \<and> codec_domain rt (sv_domain_name s) \<and>
     codec_text rt (sv_domain_class s) 64 \<and> codec_text rt (sv_intent_description s) 1000 \<and>
     service_ok s"

section \<open>Claims\<close>

datatype non_lifecycle_kind = SeedKind | DesignKind

datatype completed_kind = LegacyCompletion | NonLifecycleCompletion non_lifecycle_kind

definition completed_non_lifecycle_ok :: "completed_kind \<Rightarrow> service \<Rightarrow> bool" where
  "completed_non_lifecycle_ok kind s \<longleftrightarrow>
     service_ok s \<and>
     (kind = NonLifecycleCompletion DesignKind \<longrightarrow>
        sv_design_state s = Seeded \<and> sv_operational_status s = Active \<and> sv_manifest s \<noteq> None \<and>
        sv_schema_version s = Some 1 \<and> sv_service_revision s = 2 \<and>
        sv_updated_at s = sv_last_activity_at s)"

definition validate_terminal_service :: "lifecycle_intent \<Rightarrow> service \<Rightarrow> bool" where
  "validate_terminal_service i s \<longleftrightarrow>
     sv_principal_id s = cf_principal_id (li_fields i) \<and>
     sv_service_id s = cf_service_id (li_fields i) \<and>
     sv_service_revision s = cf_expected_service_revision (li_fields i) + 1 \<and>
     sv_manifest s = Some (li_target_manifest i) \<and>
     sv_schema_version s = Some (ma_schema_version (li_target_manifest i)) \<and>
     sv_design_state s = Materialised \<and> sv_operational_status s = Active \<and>
     sv_updated_at s = sv_last_activity_at s \<and>
     (if li_kind i = Materialise
      then sv_schema_version s = Some 1 \<and> sv_materialised_at s = Some (sv_updated_at s) \<and>
           sv_storage s \<noteq> None
      else sv_materialised_at s \<noteq> None \<and> sv_storage s \<noteq> None)"

definition completed_lifecycle_ok :: "lifecycle_intent \<Rightarrow> service \<Rightarrow> bool" where
  "completed_lifecycle_ok i s \<longleftrightarrow>
     li_phase i = Completed \<and> service_ok s \<and> validate_terminal_service i s"

datatype lifecycle_outcome =
    ConflictClaim
  | CompletedLifecycleClaim lifecycle_intent service
  | PreparedLifecycleClaim lifecycle_intent
  | RecoveryRequiredLifecycleClaim lifecycle_intent
  | StaleRevisionOutcome
  | UnsupportedTransitionOutcome
  | OperationInProgressOutcome

datatype non_lifecycle_outcome =
    NewNonLifecycleClaim
  | ConflictNonLifecycleClaim
  | CompletedNonLifecycleClaim completed_kind service

datatype lifecycle_completion =
    MaterialiseCompletion (co_intent: lifecycle_intent) (co_at: time)
      (co_storage: materialisation_storage)
  | EvolveCompletion (co_intent: lifecycle_intent) (co_at: time)

fun completion_ok :: "lifecycle_completion \<Rightarrow> bool" where
  "completion_ok (MaterialiseCompletion i t st) =
     (li_phase i = Prepared \<and> li_kind i = Materialise \<and> storage_ok st \<and>
      st_namespace st = svc_namespace (cf_service_id (li_fields i)))"
| "completion_ok (EvolveCompletion i t) = (li_phase i = Prepared \<and> li_kind i = Evolve)"

section \<open>Execution results and the public projection\<close>

datatype execution_result = ExecutionCompleted service | ExecutionFailed result_category

fun execution_retryable :: "execution_result \<Rightarrow> bool" where
  "execution_retryable (ExecutionCompleted s) = False"
| "execution_retryable (ExecutionFailed c) = lifecycle_result_retryable c"

record service_metadata =
  sm_service_id :: uuid
  sm_domain_name :: pystr
  sm_domain_class :: pystr
  sm_intent_description :: pystr
  sm_design_state :: design_state
  sm_operational_status :: operational_status
  sm_schema :: "manifest option"
  sm_schema_version :: "int option"
  sm_service_revision :: int
  sm_recovery_state :: recovery_state
  sm_created_at :: time
  sm_updated_at :: time
  sm_last_activity_at :: time
  sm_materialised_at :: "time option"
  sm_storage :: "materialisation_storage option"

definition project :: "service \<Rightarrow> recovery_state \<Rightarrow> service_metadata" where
  "project s r =
     \<lparr>sm_service_id = sv_service_id s, sm_domain_name = sv_domain_name s,
      sm_domain_class = sv_domain_class s, sm_intent_description = sv_intent_description s,
      sm_design_state = sv_design_state s, sm_operational_status = sv_operational_status s,
      sm_schema = sv_manifest s, sm_schema_version = sv_schema_version s,
      sm_service_revision = sv_service_revision s, sm_recovery_state = r,
      sm_created_at = sv_created_at s, sm_updated_at = sv_updated_at s,
      sm_last_activity_at = sv_last_activity_at s, sm_materialised_at = sv_materialised_at s,
      sm_storage = sv_storage s\<rparr>"

section \<open>Facts\<close>

lemma namespace_ok_svc [simp]: "namespace_ok (svc_namespace u) \<longleftrightarrow> u \<noteq> 0"
proof -
  have "hex_digits k 0 = replicate k 48" for k
    by (induction k) (simp_all add: hex_digit_def replicate_append_same)
  then have "uuid_hex 0 = replicate 32 48" by (simp add: uuid_hex_def)
  then have "uuid_hex u = replicate 32 48 \<longleftrightarrow> u = 0" by (metis uuid_hex_inj)
  moreover have "list_all is_hex (uuid_hex u)" "length (uuid_hex u) = 32"
    by (simp_all add: uuid_hex_def hex_digits_hex)
  ultimately show ?thesis by (auto simp: namespace_ok_def svc_namespace_def)
qed

lemma service_ok_manifest: "service_ok s \<Longrightarrow> sv_manifest s = Some m \<Longrightarrow>
    manifest_spec m \<and> sv_schema_version s = Some (ma_schema_version m)"
  by (auto simp: service_ok_def model_validate_iff)

end
