(* ===== verification/Authority.thy ===== *)
theory Authority
  imports Service_Model
begin

text \<open>
  \<open>application/registry_authority.py\<close>: export, import and purge commands, the portable intent
  they prepare, receipts and tombstones, and the outcomes of the shared claim ledger. All
  failures of the module are the one \<open>RegistryAuthorityError\<close>.
\<close>

datatype authority_error = RegistryAuthorityError

definition authorised :: "bool \<Rightarrow> 'a \<Rightarrow> authority_error + 'a" where
  "authorised ok x = (if ok then Inr x else Inl RegistryAuthorityError)"

lemma authorised_Inr_iff [guard_simps]: "authorised ok x = Inr y \<longleftrightarrow> ok \<and> y = x"
  by (auto simp: authorised_def)

section \<open>Commands\<close>

datatype portable_kind = ExportKind | ImportKind | PurgeKind

datatype receipt_kind = ExportReceipt | ImportReceipt

record import_identity =
  id_principal_id :: pystr
  id_service_id :: uuid
  id_domain_name :: pystr
  id_logical_namespace :: pystr

definition import_identity_ok :: "import_identity \<Rightarrow> bool" where
  "import_identity_ok i \<longleftrightarrow>
     valid_text (id_principal_id i) 128 \<and> id_service_id i \<noteq> 0 \<and>
     is_identifier (id_domain_name i) \<and> id_logical_namespace i = svc_namespace (id_service_id i)"

text \<open>\<open>PurgeAuthority\<close>: a verified receipt names it, an explicit override carries none.\<close>

datatype purge_authority = VerifiedReceipt uuid | ExplicitOverride

fun purge_authority_ok :: "purge_authority \<Rightarrow> bool" where
  "purge_authority_ok (VerifiedReceipt r) = (r \<noteq> 0)"
| "purge_authority_ok ExplicitOverride = True"

fun authority_receipt :: "purge_authority \<Rightarrow> uuid option" where
  "authority_receipt (VerifiedReceipt r) = Some r"
| "authority_receipt ExplicitOverride = None"

record service_target =
  tg_principal_id :: pystr
  tg_created_via :: pystr
  tg_service_id :: uuid
  tg_expected_service_revision :: int
  tg_idempotency_key :: pystr

definition common_ok :: "service_target \<Rightarrow> bool" where
  "common_ok t \<longleftrightarrow>
     valid_text (tg_principal_id t) 128 \<and> valid_text (tg_created_via t) 64 \<and>
     tg_service_id t \<noteq> 0 \<and> 1 \<le> tg_expected_service_revision t \<and>
     tg_expected_service_revision t < MAX_SERVICE_REVISION \<and>
     valid_text (tg_idempotency_key t) 128"

record import_fields =
  im_principal_id :: pystr
  im_created_via :: pystr
  im_identity :: import_identity
  im_destination_backend :: storage_backend
  im_bundle_root_sha256 :: pystr
  im_idempotency_key :: pystr

datatype portable_command =
    ExportCommand service_target
  | ImportCommand import_fields
  | PurgeCommand service_target purge_authority

fun portable_command_ok :: "portable_command \<Rightarrow> bool" where
  "portable_command_ok (ExportCommand t) = common_ok t"
| "portable_command_ok (ImportCommand f) =
     (valid_text (im_principal_id f) 128 \<and> valid_text (im_created_via f) 64 \<and>
      import_identity_ok (im_identity f) \<and>
      id_principal_id (im_identity f) = im_principal_id f \<and>
      valid_digest (im_bundle_root_sha256 f) \<and> valid_text (im_idempotency_key f) 128)"
| "portable_command_ok (PurgeCommand t a) = (common_ok t \<and> purge_authority_ok a)"

section \<open>Portable intents\<close>

fun backend_value :: "storage_backend \<Rightarrow> pyval" where
  "backend_value SQLite = dump_text ''sqlite''"
| "backend_value PostgreSQL = dump_text ''postgresql''"

fun authority_value :: "purge_authority \<Rightarrow> (pystr \<times> pyval) list" where
  "authority_value (VerifiedReceipt r) =
     [(ascii ''purge_authority'', dump_text ''verified_receipt''),
      (ascii ''receipt_id'', PStr (uuid_str r))]"
| "authority_value ExplicitOverride =
     [(ascii ''purge_authority'', dump_text ''explicit_override'')]"

definition target_value :: "string \<Rightarrow> service_target \<Rightarrow> (pystr \<times> pyval) list" where
  "target_value kind t =
     [(ascii ''kind'', dump_text kind), (ascii ''principal'', PStr (tg_principal_id t)),
      (ascii ''created_via'', PStr (tg_created_via t)),
      (ascii ''service_id'', PStr (uuid_str (tg_service_id t))),
      (ascii ''expected_service_revision'', PInt (tg_expected_service_revision t))]"

fun canonical_portable_payload :: "portable_command \<Rightarrow> pyval" where
  "canonical_portable_payload (ExportCommand t) = PObj (target_value ''export'' t)"
| "canonical_portable_payload (ImportCommand f) = PObj
     [(ascii ''kind'', dump_text ''import''), (ascii ''principal'', PStr (im_principal_id f)),
      (ascii ''created_via'', PStr (im_created_via f)),
      (ascii ''service_id'', PStr (uuid_str (id_service_id (im_identity f)))),
      (ascii ''domain_name'', PStr (id_domain_name (im_identity f))),
      (ascii ''logical_namespace'', PStr (id_logical_namespace (im_identity f))),
      (ascii ''destination_backend'', backend_value (im_destination_backend f)),
      (ascii ''bundle_root_sha256'', PStr (im_bundle_root_sha256 f))]"
| "canonical_portable_payload (PurgeCommand t a) =
     PObj (target_value ''purge'' t @ authority_value a)"

definition portable_fingerprint :: "runtime \<Rightarrow> portable_command \<Rightarrow> pystr" where
  "portable_fingerprint rt c = sha256_json rt (canonical_portable_payload c)"

record portable_intent =
  po_kind :: portable_kind
  po_phase :: lifecycle_phase
  po_principal_id :: pystr
  po_created_via :: pystr
  po_service_id :: uuid
  po_expected_service_revision :: "int option"
  po_idempotency_key :: pystr
  po_fingerprint :: pystr
  po_identity :: "import_identity option"
  po_bundle_root_sha256 :: "pystr option"
  po_destination_backend :: "storage_backend option"
  po_purge_authority :: "purge_authority option"

text \<open>\<open>_command_for_intent\<close>; \<open>None\<close> where a component the command needs is missing, which the
  shape check before the call excludes.\<close>

definition portable_command_for :: "portable_intent \<Rightarrow> portable_command option" where
  "portable_command_for i =
     (let target = (\<lambda>n. \<lparr>tg_principal_id = po_principal_id i, tg_created_via = po_created_via i,
            tg_service_id = po_service_id i, tg_expected_service_revision = n,
            tg_idempotency_key = po_idempotency_key i\<rparr>) in
      case po_kind i of
        ExportKind \<Rightarrow> map_option (\<lambda>n. ExportCommand (target n)) (po_expected_service_revision i)
      | ImportKind \<Rightarrow>
          (case (po_identity i, po_destination_backend i, po_bundle_root_sha256 i) of
             (Some ident, Some b, Some d) \<Rightarrow> Some (ImportCommand
               \<lparr>im_principal_id = po_principal_id i, im_created_via = po_created_via i,
                im_identity = ident, im_destination_backend = b, im_bundle_root_sha256 = d,
                im_idempotency_key = po_idempotency_key i\<rparr>)
           | _ \<Rightarrow> None)
      | PurgeKind \<Rightarrow>
          (case (po_expected_service_revision i, po_purge_authority i) of
             (Some n, Some a) \<Rightarrow> Some (PurgeCommand (target n) a)
           | _ \<Rightarrow> None))"

definition portable_shape_ok :: "portable_intent \<Rightarrow> bool" where
  "portable_shape_ok i =
     (if po_kind i = ImportKind then
        (case po_identity i of None \<Rightarrow> False
         | Some ident \<Rightarrow> id_principal_id ident = po_principal_id i \<and>
             id_service_id ident = po_service_id i) \<and>
        po_expected_service_revision i = None \<and> po_purge_authority i = None \<and>
        (case po_bundle_root_sha256 i of None \<Rightarrow> False | Some d \<Rightarrow> valid_digest d) \<and>
        po_destination_backend i \<noteq> None
      else
        (case po_expected_service_revision i of None \<Rightarrow> False
         | Some r \<Rightarrow> 1 \<le> r \<and> r < MAX_SERVICE_REVISION) \<and>
        po_identity i = None \<and> po_bundle_root_sha256 i = None \<and>
        po_destination_backend i = None \<and>
        (po_kind i = PurgeKind \<longleftrightarrow> po_purge_authority i \<noteq> None))"

definition portable_intent_ok :: "runtime \<Rightarrow> portable_intent \<Rightarrow> bool" where
  "portable_intent_ok rt i \<longleftrightarrow>
     valid_text (po_principal_id i) 128 \<and> valid_text (po_created_via i) 64 \<and>
     po_service_id i \<noteq> 0 \<and> valid_text (po_idempotency_key i) 128 \<and>
     valid_digest (po_fingerprint i) \<and> portable_shape_ok i \<and>
     (case portable_command_for i of None \<Rightarrow> False
      | Some c \<Rightarrow> portable_command_ok c \<and> po_fingerprint i = portable_fingerprint rt c)"

definition make_portable_intent ::
  "runtime \<Rightarrow> portable_intent \<Rightarrow> authority_error + portable_intent" where
  "make_portable_intent rt i = authorised (portable_intent_ok rt i) i"

definition portable_with_phase ::
  "runtime \<Rightarrow> portable_intent \<Rightarrow> lifecycle_phase \<Rightarrow> authority_error + portable_intent" where
  "portable_with_phase rt i phase =
     (if po_phase i \<noteq> Prepared \<or> phase \<notin> {Completed, RecoveryRequiredPhase}
      then Inl RegistryAuthorityError
      else make_portable_intent rt (i\<lparr>po_phase := phase\<rparr>))"

definition prepare_portable_intent ::
  "runtime \<Rightarrow> portable_command \<Rightarrow> authority_error + portable_intent" where
  "prepare_portable_intent rt c =
     make_portable_intent rt
       (case c of
          ExportCommand t \<Rightarrow>
            \<lparr>po_kind = ExportKind, po_phase = Prepared, po_principal_id = tg_principal_id t,
             po_created_via = tg_created_via t, po_service_id = tg_service_id t,
             po_expected_service_revision = Some (tg_expected_service_revision t),
             po_idempotency_key = tg_idempotency_key t, po_fingerprint = portable_fingerprint rt c,
             po_identity = None, po_bundle_root_sha256 = None, po_destination_backend = None,
             po_purge_authority = None\<rparr>
        | ImportCommand f \<Rightarrow>
            \<lparr>po_kind = ImportKind, po_phase = Prepared, po_principal_id = im_principal_id f,
             po_created_via = im_created_via f, po_service_id = id_service_id (im_identity f),
             po_expected_service_revision = None,
             po_idempotency_key = im_idempotency_key f, po_fingerprint = portable_fingerprint rt c,
             po_identity = Some (im_identity f),
             po_bundle_root_sha256 = Some (im_bundle_root_sha256 f),
             po_destination_backend = Some (im_destination_backend f),
             po_purge_authority = None\<rparr>
        | PurgeCommand t a \<Rightarrow>
            \<lparr>po_kind = PurgeKind, po_phase = Prepared, po_principal_id = tg_principal_id t,
             po_created_via = tg_created_via t, po_service_id = tg_service_id t,
             po_expected_service_revision = Some (tg_expected_service_revision t),
             po_idempotency_key = tg_idempotency_key t, po_fingerprint = portable_fingerprint rt c,
             po_identity = None, po_bundle_root_sha256 = None, po_destination_backend = None,
             po_purge_authority = Some a\<rparr>)"

lemma portable_intent_ok_phase [simp]:
  "portable_intent_ok rt (i\<lparr>po_phase := p\<rparr>) = portable_intent_ok rt i"
proof -
  have "portable_shape_ok (i\<lparr>po_phase := p\<rparr>) = portable_shape_ok i"
    by (simp add: portable_shape_ok_def cong: option.case_cong if_cong)
  moreover have "portable_command_for (i\<lparr>po_phase := p\<rparr>) = portable_command_for i"
    by (simp add: portable_command_for_def cong: option.case_cong portable_kind.case_cong)
  ultimately show ?thesis by (simp add: portable_intent_ok_def cong: option.case_cong)
qed

lemma portable_with_phase_iff:
  "portable_with_phase rt i p = Inr j \<longleftrightarrow>
     po_phase i = Prepared \<and> p \<noteq> Prepared \<and> j = i\<lparr>po_phase := p\<rparr> \<and> portable_intent_ok rt i"
  by (cases p) (auto simp: portable_with_phase_def make_portable_intent_def authorised_Inr_iff)

interpretation portable_phases: phase_machine po_phase "\<lambda>i. i\<lparr>po_phase := Prepared\<rparr>"
  "portable_with_phase rt" "portable_intent_ok rt" Prepared for rt
  by unfold_locales (auto simp: portable_with_phase_iff)

lemma command_fields_eta [simp]:
  "\<lparr>tg_principal_id = tg_principal_id t, tg_created_via = tg_created_via t,
    tg_service_id = tg_service_id t, tg_expected_service_revision = tg_expected_service_revision t,
    tg_idempotency_key = tg_idempotency_key t\<rparr> = t"
  "\<lparr>im_principal_id = im_principal_id f, im_created_via = im_created_via f,
    im_identity = im_identity f, im_destination_backend = im_destination_backend f,
    im_bundle_root_sha256 = im_bundle_root_sha256 f, im_idempotency_key = im_idempotency_key f\<rparr> = f"
  by (cases t, simp) (cases f, simp)

lemma prepare_portable_total:
  assumes "runtime_ok rt" and "portable_command_ok c"
  shows "\<exists>i. prepare_portable_intent rt c = Inr i \<and> po_phase i = Prepared \<and>
    portable_command_for i = Some c \<and> portable_intent_ok rt i"
proof -
  have "valid_digest (portable_fingerprint rt c)" using assms(1) by (simp add: portable_fingerprint_def)
  with assms(2) show ?thesis
    by (cases c)
      (auto simp: prepare_portable_intent_def make_portable_intent_def authorised_Inr_iff
        portable_intent_ok_def portable_shape_ok_def portable_command_for_def common_ok_def
        import_identity_ok_def)
qed

section \<open>Receipts and tombstones\<close>

record transfer_receipt =
  tr_receipt_id :: uuid
  tr_kind :: receipt_kind
  tr_principal_id :: pystr
  tr_service_id :: uuid
  tr_bundle_root_sha256 :: pystr
  tr_storage_backend :: storage_backend
  tr_service_revision :: int
  tr_operational_status :: operational_status
  tr_verified :: bool
  tr_created_at :: time

definition transfer_receipt_ok :: "transfer_receipt \<Rightarrow> bool" where
  "transfer_receipt_ok r \<longleftrightarrow>
     tr_receipt_id r \<noteq> 0 \<and> valid_text (tr_principal_id r) 128 \<and> tr_service_id r \<noteq> 0 \<and>
     valid_digest (tr_bundle_root_sha256 r) \<and> 1 \<le> tr_service_revision r \<and>
     tr_service_revision r \<le> MAX_SERVICE_REVISION"

record purge_tombstone =
  pt_principal_id :: pystr
  pt_service_id :: uuid
  pt_logical_namespace :: pystr
  pt_created_via :: pystr
  pt_purged_at :: time
  pt_authority :: purge_authority
  pt_receipt_id :: "uuid option"

definition purge_tombstone_ok :: "purge_tombstone \<Rightarrow> bool" where
  "purge_tombstone_ok t \<longleftrightarrow>
     valid_text (pt_principal_id t) 128 \<and> pt_service_id t \<noteq> 0 \<and>
     pt_logical_namespace t = svc_namespace (pt_service_id t) \<and> valid_text (pt_created_via t) 64 \<and>
     pt_receipt_id t = authority_receipt (pt_authority t)"

section \<open>Claims of the shared ledger\<close>

datatype claim_kind =
    KLegacy | KSeed | KDesign | KMaterialise | KEvolve | KSuspend | KResume | KArchive | KRestore
  | KExport | KImport | KPurge

fun operational_claim_kind :: "operational_kind \<Rightarrow> claim_kind" where
  "operational_claim_kind Suspend = KSuspend"
| "operational_claim_kind Resume = KResume"
| "operational_claim_kind Archive = KArchive"
| "operational_claim_kind Restore = KRestore"

fun portable_claim_kind :: "portable_kind \<Rightarrow> claim_kind" where
  "portable_claim_kind ExportKind = KExport"
| "portable_claim_kind ImportKind = KImport"
| "portable_claim_kind PurgeKind = KPurge"

fun lifecycle_claim_kind :: "lifecycle_kind \<Rightarrow> claim_kind" where
  "lifecycle_claim_kind Materialise = KMaterialise"
| "lifecycle_claim_kind Evolve = KEvolve"

datatype authority_command =
    OperationalCommand operational_command | PortableCommand portable_command

datatype authority_intent =
    OperationalIntent operational_intent | PortableIntent portable_intent

fun ai_principal :: "authority_intent \<Rightarrow> pystr" where
  "ai_principal (OperationalIntent i) = oc_principal_id (oi_command i)"
| "ai_principal (PortableIntent i) = po_principal_id i"

fun ai_key :: "authority_intent \<Rightarrow> pystr" where
  "ai_key (OperationalIntent i) = oc_idempotency_key (oi_command i)"
| "ai_key (PortableIntent i) = po_idempotency_key i"

fun ai_service :: "authority_intent \<Rightarrow> uuid" where
  "ai_service (OperationalIntent i) = oc_service_id (oi_command i)"
| "ai_service (PortableIntent i) = po_service_id i"

fun ai_created_via :: "authority_intent \<Rightarrow> pystr" where
  "ai_created_via (OperationalIntent i) = oc_created_via (oi_command i)"
| "ai_created_via (PortableIntent i) = po_created_via i"

fun ai_fingerprint :: "authority_intent \<Rightarrow> pystr" where
  "ai_fingerprint (OperationalIntent i) = oi_fingerprint i"
| "ai_fingerprint (PortableIntent i) = po_fingerprint i"

fun ai_phase :: "authority_intent \<Rightarrow> lifecycle_phase" where
  "ai_phase (OperationalIntent i) = oi_phase i"
| "ai_phase (PortableIntent i) = po_phase i"

fun ai_expected :: "authority_intent \<Rightarrow> int option" where
  "ai_expected (OperationalIntent i) = Some (oc_expected_service_revision (oi_command i))"
| "ai_expected (PortableIntent i) = po_expected_service_revision i"

fun ai_kind :: "authority_intent \<Rightarrow> claim_kind" where
  "ai_kind (OperationalIntent i) = operational_claim_kind (oc_kind (oi_command i))"
| "ai_kind (PortableIntent i) = portable_claim_kind (po_kind i)"

fun ai_with_phase ::
  "runtime \<Rightarrow> authority_intent \<Rightarrow> lifecycle_phase \<Rightarrow> authority_error + authority_intent" where
  "ai_with_phase rt (OperationalIntent i) p =
     (case op_with_phase rt i p of
        Inl _ \<Rightarrow> Inl RegistryAuthorityError | Inr j \<Rightarrow> Inr (OperationalIntent j))"
| "ai_with_phase rt (PortableIntent i) p =
     (case portable_with_phase rt i p of
        Inl _ \<Rightarrow> Inl RegistryAuthorityError | Inr j \<Rightarrow> Inr (PortableIntent j))"

fun ai_ok :: "runtime \<Rightarrow> authority_intent \<Rightarrow> bool" where
  "ai_ok rt (OperationalIntent i) = operational_intent_spec rt i"
| "ai_ok rt (PortableIntent i) = portable_intent_ok rt i"

fun prepare_registry_intent ::
  "runtime \<Rightarrow> authority_command \<Rightarrow> authority_error + authority_intent" where
  "prepare_registry_intent rt (OperationalCommand c) =
     (case prepare_operational_intent rt c of
        Inl _ \<Rightarrow> Inl RegistryAuthorityError | Inr i \<Rightarrow> Inr (OperationalIntent i))"
| "prepare_registry_intent rt (PortableCommand c) =
     (case prepare_portable_intent rt c of
        Inl e \<Rightarrow> Inl e | Inr i \<Rightarrow> Inr (PortableIntent i))"

datatype authority_result =
    ServiceResult service | ReceiptResult transfer_receipt | TombstoneResult purge_tombstone

text \<open>\<open>CompletedRegistryClaim.__post_init__\<close>.\<close>

fun completed_registry_ok :: "authority_intent \<Rightarrow> authority_result \<Rightarrow> bool" where
  "completed_registry_ok (OperationalIntent i) (ServiceResult s) =
     (oi_phase i = Completed \<and> sv_principal_id s = oc_principal_id (oi_command i) \<and>
      sv_service_id s = oc_service_id (oi_command i) \<and>
      sv_service_revision s = oc_expected_service_revision (oi_command i) + 1 \<and>
      sv_operational_status s = oi_target_status i)"
| "completed_registry_ok (PortableIntent i) (ReceiptResult r) =
     (po_phase i = Completed \<and> po_kind i = ExportKind \<and> tr_kind r = ExportReceipt \<and>
      tr_principal_id r = po_principal_id i \<and> tr_service_id r = po_service_id i \<and>
      tr_verified r \<and> Some (tr_service_revision r) = po_expected_service_revision i)"
| "completed_registry_ok (PortableIntent i) (ServiceResult s) =
     (po_phase i = Completed \<and> po_kind i = ImportKind \<and>
      (case po_identity i of None \<Rightarrow> False
       | Some ident \<Rightarrow> sv_principal_id s = id_principal_id ident \<and>
           sv_service_id s = id_service_id ident \<and> sv_domain_name s = id_domain_name ident \<and>
           (case sv_storage s of None \<Rightarrow> True
            | Some st \<Rightarrow> st_namespace st = id_logical_namespace ident)))"
| "completed_registry_ok (PortableIntent i) (TombstoneResult t) =
     (po_phase i = Completed \<and> po_kind i = PurgeKind \<and>
      pt_principal_id t = po_principal_id i \<and> pt_service_id t = po_service_id i)"
| "completed_registry_ok _ _ = False"

datatype active_intent = AuthorityActive authority_intent | LifecycleActive lifecycle_intent

datatype collision_kind = CollisionServiceId | CollisionDomain | CollisionTombstone

datatype authority_outcome =
    PreparedRegistryClaim authority_intent
  | CompletedRegistryClaim authority_intent authority_result
  | RecoveryRequiredRegistryClaim active_intent
  | RegistryClaimConflict
  | RegistryStaleRevision
  | RegistryUnsupportedTransition
  | RegistryOperationInProgress active_intent
  | RegistryIdentityCollision collision_kind
  | TombstonedRegistryClaim pystr pystr claim_kind uuid

lemma ai_with_phase_iff:
  "ai_with_phase rt i p = Inr j \<longleftrightarrow> ai_phase i = Prepared \<and> p \<noteq> Prepared \<and> ai_ok rt i \<and>
     (case i of OperationalIntent a \<Rightarrow> j = OperationalIntent (a\<lparr>oi_phase := p\<rparr>)
      | PortableIntent a \<Rightarrow> j = PortableIntent (a\<lparr>po_phase := p\<rparr>))"
proof (cases i)
  case (OperationalIntent a)
  then show ?thesis
    using op_with_phase_iff [of rt a p] by (cases "op_with_phase rt a p") fastforce+
next
  case (PortableIntent a)
  then show ?thesis
    using portable_with_phase_iff [of rt a p] by (cases "portable_with_phase rt a p") fastforce+
qed

end
