(* ===== verification/Lifecycle_Properties.thy ===== *)
theory Lifecycle_Properties
  imports Sample Authority
begin

text \<open>
  The properties of the durable operations: intents and their fingerprints, the monotone
  phase, the recovery decision, and the operational state machine.
\<close>

definition sample_intent :: lifecycle_intent where
  "sample_intent =
     \<lparr>li_kind = Materialise, li_phase = Prepared, li_fields = sample_fields,
      li_fingerprint = lifecycle_fingerprint ascii_runtime (MaterialiseCommand sample_fields),
      li_target_manifest = notes_manifest\<rparr>"

lemma sample_fingerprint: "valid_digest (li_fingerprint sample_intent)"
  by (simp add: sample_intent_def lifecycle_fingerprint_def)

lemma sample_intent_spec: "intent_spec ascii_runtime sample_intent"
  using sample_fields_ok notes_spec sample_fingerprint
  by (simp add: intent_spec_def sample_intent_def command_of_def sample_fields_def
      notes_manifest_def)

text \<open>The intent \<open>prepare_intent\<close> hands to the constructor, and its refusals.\<close>

definition prepared_intent :: "runtime \<Rightarrow> lifecycle_command \<Rightarrow> manifest \<Rightarrow> lifecycle_intent" where
  "prepared_intent rt c t =
     \<lparr>li_kind = command_kind c, li_phase = Prepared, li_fields = command_fields c,
      li_fingerprint = lifecycle_fingerprint rt c, li_target_manifest = t\<rparr>"

lemma prepare_intent_form: "prepare_intent rt c t = Inr i \<Longrightarrow> i = prepared_intent rt c t"
  by (auto simp: prepare_intent_def prepared_intent_def bind_sum_Inr_iff manifest_snapshot_iff
      make_lifecycle_intent_iff)

lemma prepare_intent_refuses:
  "\<not> manifest_spec t \<Longrightarrow> prepare_intent rt c t = Inl InvalidTargetManifest"
  "manifest_spec t \<Longrightarrow> ma_schema_version t \<noteq> cf_expected_schema_version f \<Longrightarrow>
     prepare_intent rt (MaterialiseCommand f) t = Inl MaterialiseTargetVersion"
  "manifest_spec t \<Longrightarrow> t \<noteq> t' \<Longrightarrow> prepare_intent rt (EvolveCommand f t') t = Inl EvolveTargetMismatch"
proof -
  show "prepare_intent rt c t = Inl InvalidTargetManifest" if t: "\<not> manifest_spec t"
  proof -
    from t have "manifest_snapshot t = Inl InvalidTargetManifest"
      using manifest_snapshot_iff [of t] by (cases "model_validate t") (auto simp: manifest_snapshot_def)
    then show ?thesis by (simp add: prepare_intent_def)
  qed
  have ok: "manifest_snapshot t = Inr t" if "manifest_spec t" using that by (simp add: manifest_snapshot_iff)
  show "prepare_intent rt (MaterialiseCommand f) t = Inl MaterialiseTargetVersion"
    if "manifest_spec t" "ma_schema_version t \<noteq> cf_expected_schema_version f"
    using that by (simp add: prepare_intent_def ok construct_def)
  show "prepare_intent rt (EvolveCommand f t') t = Inl EvolveTargetMismatch" if "manifest_spec t" "t \<noteq> t'"
    using that by (simp add: prepare_intent_def ok construct_def)
qed

text \<open>C27. The intent constructor is exact: it accepts a value exactly when every field is in
  its domain, the target manifest is valid and at the version the kind requires, and the
  fingerprint is that of the command the value describes; it changes nothing.\<close>

theorem intent_constructor_exact:
  "make_lifecycle_intent rt i = Inr j \<longleftrightarrow> j = i \<and> intent_spec rt i"
  by (rule make_lifecycle_intent_iff)

text \<open>C28. Preparing a command the constructors accept, exactly. An invalid target manifest, a
  materialise target of another version than the expected one and an evolve target other than the
  command's are refused, each with its own error and in this order; nothing else fails. The intent
  is then prepared, carries the command and the target, and passes its own constructor, which
  recomputes the fingerprint.\<close>

theorem prepare_intent_exact:
  assumes "runtime_ok rt" and "valid_command c"
  shows "prepare_intent rt c t =
      (if \<not> manifest_spec t then Inl InvalidTargetManifest
       else case c of
         MaterialiseCommand f \<Rightarrow>
           if ma_schema_version t \<noteq> cf_expected_schema_version f then Inl MaterialiseTargetVersion
           else Inr (prepared_intent rt c t)
       | EvolveCommand f t' \<Rightarrow>
           if t \<noteq> t' then Inl EvolveTargetMismatch else Inr (prepared_intent rt c t)) \<and>
    (\<forall>i. prepare_intent rt c t = Inr i \<longrightarrow> make_lifecycle_intent rt i = Inr i \<and> li_phase i = Prepared \<and>
       command_of i = c \<and> li_target_manifest i = t)"
proof (cases "manifest_spec t \<and> (case c of MaterialiseCommand f \<Rightarrow> ma_schema_version t = 1
    | EvolveCommand f t' \<Rightarrow> t = t')")
  case True
  with prepare_intent_total [OF assms, of t] prepare_intent_form [of rt c t] assms(2) show ?thesis
    by (cases c) (auto simp: make_lifecycle_intent_iff valid_command_def materialise_command_iff)
next
  case False
  then show ?thesis using prepare_intent_refuses assms(2)
    by (cases c) (auto simp: valid_command_def materialise_command_iff)
qed

theorem prepare_intent_exact_witness:
  "\<exists>i. prepare_intent ascii_runtime (MaterialiseCommand sample_fields) notes_manifest = Inr i \<and>
     command_of i = MaterialiseCommand sample_fields"
proof -
  have c: "valid_command (MaterialiseCommand sample_fields)"
    using sample_fields_ok by (simp add: valid_command_def materialise_command_iff)
      (simp add: sample_fields_def)
  have "ma_schema_version notes_manifest = cf_expected_schema_version sample_fields"
    by (simp add: notes_manifest_def sample_fields_def)
  then show ?thesis
    using prepare_intent_exact [OF ascii_runtime_ok c, of notes_manifest] notes_spec by simp
qed

text \<open>C29. The phase of a lifecycle intent moves at most once, from prepared to a terminal
  value, whatever sequence of phases is requested, and the rest of the intent never changes.\<close>

theorem lifecycle_phase_once:
  assumes "run_phases (with_phase rt) i ps = Inr j"
  shows "j\<lparr>li_phase := Prepared\<rparr> = i\<lparr>li_phase := Prepared\<rparr> \<and>
    (ps = [] \<and> j = i \<or> li_phase i = Prepared \<and> (\<exists>p. ps = [p] \<and> p \<noteq> Prepared \<and> li_phase j = p))"
proof -
  have "ps = [] \<or> (\<exists>p. ps = [p])"
    using lifecycle_phases.run_phases_once [OF assms] by (cases ps) auto
  then show ?thesis
  proof
    assume "\<exists>p. ps = [p]"
    then obtain p where p: "ps = [p]" ..
    with assms have "with_phase rt i p = Inr j" by (simp add: bind_sum_Inr_iff)
    then have "li_phase i = Prepared \<and> p \<noteq> Prepared \<and> j = i\<lparr>li_phase := p\<rparr>"
      by (simp add: with_phase_iff)
    with p show ?thesis by simp
  qed (use assms in simp)
qed

theorem lifecycle_phase_once_witness:
  "\<exists>j. with_phase ascii_runtime sample_intent Completed = Inr j \<and> li_phase j = Completed"
proof -
  let ?j = "sample_intent\<lparr>li_phase := Completed\<rparr>"
  have run: "run_phases (with_phase ascii_runtime) sample_intent [Completed] = Inr ?j"
    using sample_intent_spec by (simp add: with_phase_iff bind_sum_Inr_iff) (simp add: sample_intent_def)
  from lifecycle_phase_once [OF run] run show ?thesis by (auto simp: bind_sum_Inr_iff)
qed

text \<open>C30. The canonical payload behind a fingerprint determines the request: two commands have
  the same payload exactly when they agree on everything but the idempotency key. The whole
  target manifest is covered, field by field.\<close>

theorem payload_determines_request:
  "canonical_lifecycle_payload c = canonical_lifecycle_payload d \<longleftrightarrow> without_key c = without_key d"
  by (rule canonical_payload_eq_iff)

text \<open>C18. For a prepared intent and a matching observation the recovery plan exists and is the
  decision table: transient observations are deferred, an unprepared foundation is prepared,
  a ready target is finalized, an absent one is created, an evolve whose source is ready is
  applied, and everything else needs recovery. Exactly the deferred plans carry a reason.\<close>

theorem recovery_decision_prepared:
  assumes "observed_for i ob" and "li_phase i = Prepared"
  shows "\<exists>p. plan_recovery i ob = Inr p \<and> rp_action p = decided_action ob \<and>
    (rp_deferred p = None \<longleftrightarrow> decided_action ob \<noteq> DeferObservation)"
  using plan_recovery_prepared [OF assms] by auto

theorem recovery_decision_prepared_witness:
  "\<exists>p. plan_recovery sample_intent
      (MaterialiseRecoveryObservation Prepared FoundationReady DomainReady) = Inr p \<and>
    rp_action p = FinalizeRegistry"
  using recovery_decision_prepared [of sample_intent
      "MaterialiseRecoveryObservation Prepared FoundationReady DomainReady"]
  by (auto simp: observed_for_def sample_intent_def materialise_observation_def construct_def
      decided_action_def)

text \<open>C31. A terminal intent is never acted on again: a completed one is replayed, a poisoned
  one stays poisoned, whatever the stores look like.\<close>

theorem recovery_decision_terminal:
  assumes "observed_for i ob" and "li_phase i \<noteq> Prepared"
  shows "plan_recovery i ob = Inr \<lparr>rp_action =
    (if li_phase i = Completed then ReplayCompleteAction else RecoveryRequiredAction),
    rp_deferred = None\<rparr>"
  using assms by (rule plan_recovery_terminal)

theorem recovery_decision_terminal_witness:
  "\<exists>p. plan_recovery (sample_intent\<lparr>li_phase := Completed\<rparr>)
      (MaterialiseRecoveryObservation Completed FoundationNotObserved DomainNotObserved) = Inr p \<and>
    rp_action p = ReplayCompleteAction"
  using recovery_decision_terminal [of "sample_intent\<lparr>li_phase := Completed\<rparr>"
      "MaterialiseRecoveryObservation Completed FoundationNotObserved DomainNotObserved"]
  by (simp add: observed_for_def sample_intent_def materialise_observation_def construct_def)

text \<open>C32. An archived service becomes active again only through a restore, which suspends it,
  followed at some point by a resume.\<close>

theorem archived_needs_restore_and_resume:
  assumes "op_run Archived ks Active"
  shows "\<exists>ks'. ks = Restore # ks' \<and> op_run Suspended ks' Active \<and> Resume \<in> set ks'"
  using op_run_archived_head [OF assms] op_run_to_active by fastforce

theorem archived_needs_restore_and_resume_witness:
  "op_run Archived [Restore, Resume] Active \<and>
   (\<exists>ks'. [Restore, Resume] = Restore # ks' \<and> op_run Suspended ks' Active \<and> Resume \<in> set ks')"
proof -
  have run: "op_run Archived [Restore, Resume] Active"
    by (rule op_run.intros(2) [of _ _ Suspended], simp)
      (rule op_run.intros(2) [of _ _ Active], auto intro: op_run.intros(1))
  with archived_needs_restore_and_resume [OF run] show ?thesis by blast
qed

text \<open>A valid operational command always prepares an intent that carries it, with the
  target status its kind determines.\<close>

theorem prepare_operational_succeeds:
  assumes "runtime_ok rt" and "make_operational_command c = Inr c"
  shows "\<exists>i. prepare_operational_intent rt c = Inr i \<and> oi_command i = c \<and> oi_phase i = Prepared \<and>
    oi_target_status i = deterministic_target_status (oc_kind c) \<and>
    make_operational_intent rt i = Inr i"
  using prepare_operational_total [OF assms]
  by (auto simp: make_operational_intent_iff operational_intent_spec_def)

theorem prepare_operational_succeeds_witness:
  "\<exists>i. prepare_operational_intent ascii_runtime suspend_command = Inr i \<and>
     oi_target_status i = Suspended"
  using prepare_operational_succeeds [of ascii_runtime suspend_command] suspend_command_ok
  by (auto simp: suspend_command_def)

text \<open>The canonical operational payload determines the request up to the key.\<close>

theorem operational_payload_determines_request:
  "canonical_operational_payload c = canonical_operational_payload d \<longleftrightarrow>
     c\<lparr>oc_idempotency_key := []\<rparr> = d\<lparr>oc_idempotency_key := []\<rparr>"
  by (rule operational_payload_eq_iff)

definition export_target :: service_target where
  "export_target =
     \<lparr>tg_principal_id = ascii ''alice'', tg_created_via = ascii ''mcp'', tg_service_id = 7,
      tg_expected_service_revision = 2, tg_idempotency_key = ascii ''key-3''\<rparr>"

lemma export_target_ok: "portable_command_ok (ExportCommand export_target)"
  by (simp add: common_ok_def export_target_def valid_text_def strip_def ascii_def is_space_def
      MAX_SERVICE_REVISION_def)

text \<open>A valid export, import or purge command always prepares a portable intent, and the
  command rebuilt from the intent's columns is the original one.\<close>

theorem prepare_portable_succeeds:
  assumes "runtime_ok rt" and "portable_command_ok c"
  shows "\<exists>i. prepare_portable_intent rt c = Inr i \<and> po_phase i = Prepared \<and>
    portable_command_for i = Some c \<and> make_portable_intent rt i = Inr i"
  using prepare_portable_total [OF assms] by (auto simp: make_portable_intent_def authorised_def)

theorem prepare_portable_succeeds_witness:
  "\<exists>i. prepare_portable_intent ascii_runtime (ExportCommand export_target) = Inr i"
  using prepare_portable_succeeds [of ascii_runtime "ExportCommand export_target"] export_target_ok
  by auto

end
