(* ===== verification/Registry.thy ===== *)
theory Registry
  imports Authority
begin

text \<open>
  The registry of \<open>storage/sqlite/uow.py\<close> over the tables of \<open>storage/sqlite/migrations.py\<close>
  (revision 4). A table is the list of its rows; a JSON column holds the value it encodes, and
  decoding it is the validation the codec performs. A repository method is a function of the
  tables that returns its result or \<open>StorageMigrationError\<close> together with the tables: a write
  made before an exception stays in the transaction until the caller rolls back. Uniqueness,
  CHECK and foreign-key constraints are part of the inserting and updating operations. The
  connection and its file identity checks are not part of this theory, so the busy and
  unavailable errors of the connection do not arise in it.
\<close>

datatype storage_error = StorageMigrationError | StorageBusyError | StorageUnavailableError

section \<open>Tables\<close>

datatype ledger_phase = PhasePrepared | PhaseCompleted | PhaseRecoveryRequired | PhaseTombstoned

fun ledger_phase_of :: "lifecycle_phase \<Rightarrow> ledger_phase" where
  "ledger_phase_of Prepared = PhasePrepared"
| "ledger_phase_of Completed = PhaseCompleted"
| "ledger_phase_of RecoveryRequiredPhase = PhaseRecoveryRequired"

text \<open>The document of \<open>_encode_legacy_lifecycle_intent\<close>: it omits the phase, the key and the
  fingerprint, which are columns of the row.\<close>

record lifecycle_evidence =
  le_kind :: lifecycle_kind
  le_principal_id :: pystr
  le_created_via :: pystr
  le_service_id :: uuid
  le_expected_service_revision :: int
  le_expected_schema_version :: int
  le_target_manifest :: manifest

datatype intent_document =
    LifecycleDocument lifecycle_evidence | AuthorityDocument authority_intent

datatype result_document =
    LegacyServiceDocument service | ServiceDocument service | AuthorityResultDocument authority_result

record claim_row =
  cl_principal_id :: pystr
  cl_idempotency_key :: pystr
  cl_fingerprint :: pystr
  cl_service_id :: uuid
  cl_kind :: claim_kind
  cl_phase :: ledger_phase
  cl_created_via :: "pystr option"
  cl_intent :: "intent_document option"
  cl_result :: "result_document option"
  cl_recovery_category :: bool

datatype identity_state = IdentityLive | IdentityImportPrepared | IdentityTombstoned

record identity_row =
  iy_service_id :: uuid
  iy_principal_id :: pystr
  iy_state :: identity_state
  iy_domain_name :: "pystr option"
  iy_storage_backend :: "storage_backend option"
  iy_storage_namespace :: pystr
  iy_claim_key :: "pystr option"
  iy_lifecycle_at :: "time option"

record receipt_row =
  rc_idempotency_key :: pystr
  rc_receipt :: transfer_receipt

datatype audit_outcome = Created | Duplicate | Accepted | CompletedEvent | RecoveryRequiredEvent

record audit_row =
  au_audit_id :: nat
  au_action :: claim_kind
  au_outcome :: audit_outcome
  au_service_id :: uuid
  au_principal_id :: pystr
  au_created_via :: pystr
  au_at :: time

record registry =
  rg_services :: "service list"
  rg_identities :: "identity_row list"
  rg_claims :: "claim_row list"
  rg_receipts :: "receipt_row list"
  rg_audits :: "audit_row list"

definition empty_registry :: registry where
  "empty_registry = \<lparr>rg_services = [], rg_identities = [], rg_claims = [], rg_receipts = [],
     rg_audits = []\<rparr>"

section \<open>Repository methods as state transformers\<close>

type_synonym 'a reg = "registry \<Rightarrow> (storage_error + 'a) \<times> registry"

definition rret :: "'a \<Rightarrow> 'a reg" where "rret x = (\<lambda>s. (Inr x, s))"

definition rfail :: "'a reg" where "rfail = (\<lambda>s. (Inl StorageMigrationError, s))"

definition rbind :: "'a reg \<Rightarrow> ('a \<Rightarrow> 'b reg) \<Rightarrow> 'b reg" where
  "rbind m f = (\<lambda>s. case m s of (Inl e, s') \<Rightarrow> (Inl e, s') | (Inr x, s') \<Rightarrow> f x s')"

definition rget :: "(registry \<Rightarrow> 'a) \<Rightarrow> 'a reg" where "rget f = (\<lambda>s. (Inr (f s), s))"

definition rput :: "(registry \<Rightarrow> registry) \<Rightarrow> unit reg" where "rput f = (\<lambda>s. (Inr (), f s))"

definition rcheck :: "bool \<Rightarrow> unit reg" where "rcheck b = (if b then rret () else rfail)"

definition rlift :: "'e + 'a \<Rightarrow> 'a reg" where
  "rlift r = (case r of Inl _ \<Rightarrow> rfail | Inr x \<Rightarrow> rret x)"

text \<open>\<open>except Exception:\<close>; the tables are as the failing statement left them.\<close>

definition rcatch :: "'a reg \<Rightarrow> 'a reg \<Rightarrow> 'a reg" where
  "rcatch m h = (\<lambda>s. case m s of (Inl e, s') \<Rightarrow> h s' | (Inr x, s') \<Rightarrow> (Inr x, s'))"

lemmas reg_defs = rret_def rfail_def rget_def rput_def rcheck_def rlift_def

lemma rbind_apply: "rbind m f s = (case m s of (Inl e, s') \<Rightarrow> (Inl e, s') | (Inr x, s') \<Rightarrow> f x s')"
  by (simp add: rbind_def)

lemma rbind_simps [simp]:
  "rbind (rret x) f = f x" "rbind rfail f = rfail" "rbind (rget g) f s = f (g s) s"
  "rbind (rput k) h s = h () (k s)" "rret x s = (Inr x, s)" "rfail s = (Inl StorageMigrationError, s)"
  "rget g s = (Inr (g s), s)" "rput k s = (Inr (), k s)"
  "rcheck True = rret ()" "rcheck False = rfail" "rlift (Inr y) = rret y" "rlift (Inl e) = rfail"
  by (simp_all add: rbind_def reg_defs fun_eq_iff)

section \<open>Services\<close>

definition decode_service :: "runtime \<Rightarrow> service \<Rightarrow> service reg" where
  "decode_service rt s = rbind (rcheck (validate_service rt s)) (\<lambda>_. rret s)"

definition decode_optional :: "runtime \<Rightarrow> service option \<Rightarrow> service option reg" where
  "decode_optional rt row =
     (case row of None \<Rightarrow> rret None | Some s \<Rightarrow> rbind (decode_service rt s) (\<lambda>v. rret (Some v)))"

definition service_row :: "pystr \<Rightarrow> uuid \<Rightarrow> registry \<Rightarrow> service option" where
  "service_row p u r =
     List.find (\<lambda>s. sv_principal_id s = p \<and> sv_service_id s = u) (rg_services r)"

definition get_service :: "runtime \<Rightarrow> pystr \<Rightarrow> uuid \<Rightarrow> service option reg" where
  "get_service rt p u = rbind (rget (service_row p u)) (decode_optional rt)"

definition find_domain :: "runtime \<Rightarrow> pystr \<Rightarrow> pystr \<Rightarrow> service option reg" where
  "find_domain rt p d =
     rbind (rget (\<lambda>r. List.find (\<lambda>s. sv_principal_id s = p \<and> sv_domain_name s = d) (rg_services r)))
       (decode_optional rt)"

definition count_services :: "pystr \<Rightarrow> nat reg" where
  "count_services p = rget (\<lambda>r. rowcount (\<lambda>s. sv_principal_id s = p) (rg_services r))"

fun decode_services :: "runtime \<Rightarrow> service list \<Rightarrow> service list reg" where
  "decode_services rt [] = rret []"
| "decode_services rt (s # ss) =
     rbind (decode_service rt s) (\<lambda>v. rbind (decode_services rt ss) (\<lambda>vs. rret (v # vs)))"

definition list_services :: "runtime \<Rightarrow> pystr \<Rightarrow> nat \<Rightarrow> service list reg" where
  "list_services rt p limit =
     rbind (rget (\<lambda>r. take limit (sort_key (\<lambda>s. (sv_created_at s, uuid_str (sv_service_id s)))
         (filter (\<lambda>s. sv_principal_id s = p) (rg_services r)))))
       (decode_services rt)"

definition active_phase :: "ledger_phase \<Rightarrow> bool" where
  "active_phase ph \<longleftrightarrow> ph = PhasePrepared \<or> ph = PhaseRecoveryRequired"

definition active_claims :: "pystr \<Rightarrow> uuid \<Rightarrow> registry \<Rightarrow> claim_row list" where
  "active_claims p u r =
     filter (\<lambda>c. cl_principal_id c = p \<and> cl_service_id c = u \<and> active_phase (cl_phase c)) (rg_claims r)"

definition get_recovery_state :: "pystr \<Rightarrow> uuid \<Rightarrow> recovery_state reg" where
  "get_recovery_state p u =
     rbind (rget (active_claims p u)) (\<lambda>rows.
       case rows of
         [] \<Rightarrow> rret Clear
       | [c] \<Rightarrow> (if cl_phase c = PhasePrepared then rret Pending
                else if cl_phase c = PhaseRecoveryRequired then rret RecoveryRequiredState
                else rfail)
       | _ \<Rightarrow> rfail)"

definition storage_backend_of :: "service \<Rightarrow> storage_backend option" where
  "storage_backend_of s = map_option st_backend (sv_storage s)"

text \<open>\<open>UNIQUE\<close> of a live or reserved domain of a principal.\<close>

definition live_domain :: "pystr \<Rightarrow> pystr \<Rightarrow> identity_row \<Rightarrow> bool" where
  "live_domain p d i \<longleftrightarrow>
     iy_principal_id i = p \<and> iy_domain_name i = Some d \<and> iy_state i \<noteq> IdentityTombstoned"

definition insert_service :: "runtime \<Rightarrow> service \<Rightarrow> unit reg" where
  "insert_service rt s =
     rbind (rcheck (validate_service rt s)) (\<lambda>_.
     rbind (rget rg_services) (\<lambda>rows.
     rbind (rcheck (\<forall>x \<in> set rows. sv_service_id x \<noteq> sv_service_id s \<and>
         \<not> (sv_principal_id x = sv_principal_id s \<and> sv_domain_name x = sv_domain_name s))) (\<lambda>_.
       rput (\<lambda>r. r\<lparr>rg_services := rows @ [s]\<rparr>))))"

definition insert_identity :: "identity_row \<Rightarrow> unit reg" where
  "insert_identity i =
     rbind (rget rg_identities) (\<lambda>rows.
     rbind (rcheck (\<forall>x \<in> set rows. iy_service_id x \<noteq> iy_service_id i \<and>
         iy_storage_namespace x \<noteq> iy_storage_namespace i \<and>
         \<not> (iy_state x \<noteq> IdentityTombstoned \<and> iy_state i \<noteq> IdentityTombstoned \<and>
            iy_principal_id x = iy_principal_id i \<and> iy_domain_name x = iy_domain_name i))) (\<lambda>_.
       rput (\<lambda>r. r\<lparr>rg_identities := rows @ [i]\<rparr>)))"

definition live_identity :: "service \<Rightarrow> identity_row" where
  "live_identity s =
     \<lparr>iy_service_id = sv_service_id s, iy_principal_id = sv_principal_id s, iy_state = IdentityLive,
      iy_domain_name = Some (sv_domain_name s), iy_storage_backend = storage_backend_of s,
      iy_storage_namespace = svc_namespace (sv_service_id s), iy_claim_key = None,
      iy_lifecycle_at = None\<rparr>"

definition add_service :: "runtime \<Rightarrow> service \<Rightarrow> unit reg" where
  "add_service rt s = rbind (insert_service rt s) (\<lambda>_. insert_identity (live_identity s))"

definition owned_live :: "service \<Rightarrow> identity_row \<Rightarrow> bool" where
  "owned_live s i \<longleftrightarrow>
     iy_service_id i = sv_service_id s \<and> iy_principal_id i = sv_principal_id s \<and>
     iy_state i = IdentityLive"

definition update_live_identity :: "service \<Rightarrow> unit reg" where
  "update_live_identity s =
     rbind (rget rg_identities) (\<lambda>rows.
     rbind (rcheck (\<forall>x \<in> set rows. live_domain (sv_principal_id s) (sv_domain_name s) x \<longrightarrow>
         owned_live s x)) (\<lambda>_.
     rbind (rput (\<lambda>r. r\<lparr>rg_identities := update_where (owned_live s)
         (\<lambda>i. i\<lparr>iy_domain_name := Some (sv_domain_name s),
                iy_storage_backend := storage_backend_of s\<rparr>) rows\<rparr>)) (\<lambda>_.
       rcheck (rowcount (owned_live s) rows = 1))))"

datatype save_result = Saved | StaleSave

definition save_service :: "runtime \<Rightarrow> service \<Rightarrow> int \<Rightarrow> save_result reg" where
  "save_service rt s expected =
     rbind (rcheck (1 \<le> expected \<and> expected < MAX_SERVICE_REVISION \<and>
         sv_service_revision s = expected + 1)) (\<lambda>_.
     rbind (rcheck (validate_service rt s)) (\<lambda>_.
     rbind (rget rg_services) (\<lambda>rows.
       let target = (\<lambda>x. sv_service_id x = sv_service_id s \<and>
             sv_principal_id x = sv_principal_id s \<and> sv_service_revision x = expected);
           n = rowcount target rows
       in
       if n = 0 then rret StaleSave
       else
         rbind (rcheck (\<forall>x \<in> set rows. sv_principal_id x = sv_principal_id s \<and>
             sv_domain_name x = sv_domain_name s \<longrightarrow> target x)) (\<lambda>_.
         rbind (rput (\<lambda>r. r\<lparr>rg_services := update_where target (\<lambda>_. s) rows\<rparr>)) (\<lambda>_.
         rbind (rcheck (n = 1)) (\<lambda>_.
         rbind (update_live_identity s) (\<lambda>_. rret Saved)))))))"

section \<open>Audit\<close>

text \<open>\<open>audit_id\<close> is the row id SQLite assigns: one more than the largest in the table.\<close>

definition next_audit_id :: "audit_row list \<Rightarrow> nat" where
  "next_audit_id rows = Suc (Max (set (0 # map au_audit_id rows)))"

definition trim_audits :: "pystr \<Rightarrow> audit_row list \<Rightarrow> audit_row list" where
  "trim_audits p rows =
     delete_where (\<lambda>old. au_principal_id old = p \<and>
       rowcount (\<lambda>newer. au_principal_id newer = au_principal_id old \<and>
         au_audit_id newer > au_audit_id old) rows \<ge> 1000) rows"

text \<open>The table's CHECK on the action and its outcome.\<close>

definition audit_pair_ok :: "claim_kind \<Rightarrow> audit_outcome \<Rightarrow> bool" where
  "audit_pair_ok action outcome =
     (if action = KLegacy then False
      else if action = KSeed then outcome \<in> {Created, Duplicate}
      else if action = KDesign then outcome = Accepted
      else outcome \<in> {CompletedEvent, RecoveryRequiredEvent})"

definition append_audit ::
  "claim_kind \<Rightarrow> audit_outcome \<Rightarrow> uuid \<Rightarrow> pystr \<Rightarrow> pystr \<Rightarrow> time \<Rightarrow> unit reg" where
  "append_audit action outcome u p via t =
     rbind (rcheck (audit_pair_ok action outcome)) (\<lambda>_.
       rput (\<lambda>r. r\<lparr>rg_audits := trim_audits p (rg_audits r @
         [\<lparr>au_audit_id = next_audit_id (rg_audits r), au_action = action, au_outcome = outcome,
           au_service_id = u, au_principal_id = p, au_created_via = via, au_at = t\<rparr>])\<rparr>))"

end
