(* ===== verification/Ledger.thy ===== *)
theory Ledger
  imports Registry
begin

text \<open>
  The idempotency ledger of \<open>storage/sqlite/uow.py\<close> for the non-lifecycle and the lifecycle
  operations: \<open>resolve_non_lifecycle\<close>, \<open>complete_non_lifecycle\<close>, \<open>resolve_or_admit\<close>,
  \<open>finalize_completed\<close>, \<open>finalize_recovery_required\<close> and their helpers.
\<close>

section \<open>The claim table\<close>

definition claim_lookup :: "pystr \<Rightarrow> pystr \<Rightarrow> registry \<Rightarrow> claim_row option" where
  "claim_lookup p key r =
     List.find (\<lambda>c. cl_principal_id c = p \<and> cl_idempotency_key c = key) (rg_claims r)"

definition non_lifecycle_row_kind :: "claim_kind \<Rightarrow> bool" where
  "non_lifecycle_row_kind k \<longleftrightarrow> k \<in> {KLegacy, KSeed, KDesign}"

text \<open>The table's CHECK on the phase and the nullable columns.\<close>

fun claim_shape_ok :: "claim_row \<Rightarrow> bool" where
  "claim_shape_ok c =
     (case cl_phase c of
        PhaseTombstoned \<Rightarrow> cl_kind c \<noteq> KPurge \<and> cl_created_via c = None \<and> cl_intent c = None \<and>
          cl_result c = None \<and> \<not> cl_recovery_category c
      | PhasePrepared \<Rightarrow> \<not> non_lifecycle_row_kind (cl_kind c) \<and> cl_created_via c \<noteq> None \<and>
          cl_intent c \<noteq> None \<and> cl_result c = None \<and> \<not> cl_recovery_category c
      | PhaseCompleted \<Rightarrow>
          (if non_lifecycle_row_kind (cl_kind c) then cl_created_via c = None \<and> cl_intent c = None
           else cl_created_via c \<noteq> None \<and> cl_intent c \<noteq> None) \<and>
          cl_result c \<noteq> None \<and> \<not> cl_recovery_category c
      | PhaseRecoveryRequired \<Rightarrow> \<not> non_lifecycle_row_kind (cl_kind c) \<and> cl_created_via c \<noteq> None \<and>
          cl_intent c \<noteq> None \<and> cl_result c = None \<and> cl_recovery_category c)"

declare claim_shape_ok.simps [simp del]

text \<open>The CHECKs on single columns; the service id and the operation kind are typed.\<close>

definition claim_columns_ok :: "claim_row \<Rightarrow> bool" where
  "claim_columns_ok c \<longleftrightarrow>
     1 \<le> length (cl_principal_id c) \<and> length (cl_principal_id c) \<le> 128 \<and>
     1 \<le> length (cl_idempotency_key c) \<and> length (cl_idempotency_key c) \<le> 128 \<and>
     valid_digest (cl_fingerprint c) \<and> cl_service_id c \<noteq> 0 \<and>
     (case cl_created_via c of None \<Rightarrow> True | Some v \<Rightarrow> 1 \<le> length v \<and> length v \<le> 64)"

text \<open>The partial unique index \<open>aipcs_registry_claim_active_service\<close>.\<close>

definition active_key :: "claim_row \<Rightarrow> pystr \<times> uuid" where
  "active_key c = (cl_principal_id c, cl_service_id c)"

definition insert_claim :: "claim_row \<Rightarrow> unit reg" where
  "insert_claim c =
     rbind (rget rg_claims) (\<lambda>rows.
     rbind (rcheck (claim_columns_ok c \<and> claim_shape_ok c \<and>
         (\<forall>x \<in> set rows. \<not> (cl_principal_id x = cl_principal_id c \<and>
            cl_idempotency_key x = cl_idempotency_key c)) \<and>
         (active_phase (cl_phase c) \<longrightarrow>
            (\<forall>x \<in> set rows. active_phase (cl_phase x) \<longrightarrow> active_key x \<noteq> active_key c)))) (\<lambda>_.
       rput (\<lambda>r. r\<lparr>rg_claims := rows @ [c]\<rparr>)))"

text \<open>\<open>UPDATE ... WHERE principal, key and fingerprint match AND phase = 'prepared'\<close>, followed by
  the test that exactly one row changed. The new phase is a terminal one, so the update
  cannot violate the partial unique index.\<close>

definition prepared_row :: "pystr \<Rightarrow> pystr \<Rightarrow> pystr \<Rightarrow> claim_row \<Rightarrow> bool" where
  "prepared_row p key fp c \<longleftrightarrow>
     cl_principal_id c = p \<and> cl_idempotency_key c = key \<and> cl_fingerprint c = fp \<and>
     cl_phase c = PhasePrepared"

definition update_prepared ::
  "pystr \<Rightarrow> pystr \<Rightarrow> pystr \<Rightarrow> (claim_row \<Rightarrow> claim_row) \<Rightarrow> unit reg" where
  "update_prepared p key fp f =
     rbind (rget rg_claims) (\<lambda>rows.
     rbind (rcheck (\<forall>c \<in> set rows. prepared_row p key fp c \<longrightarrow> claim_shape_ok (f c))) (\<lambda>_.
     rbind (rput (\<lambda>r. r\<lparr>rg_claims := update_where (prepared_row p key fp) f rows\<rparr>)) (\<lambda>_.
       rcheck (rowcount (prepared_row p key fp) rows = 1))))"

section \<open>Result and intent documents\<close>

definition decode_result :: "runtime \<Rightarrow> result_document option \<Rightarrow> pystr \<Rightarrow> uuid \<Rightarrow> service reg" where
  "decode_result rt d p u =
     (case d of
        Some (ServiceDocument s) \<Rightarrow>
          rbind (rcheck (validate_service rt s \<and> sv_principal_id s = p \<and> sv_service_id s = u))
            (\<lambda>_. rret s)
      | _ \<Rightarrow> rfail)"

text \<open>\<open>decode_legacy_result\<close>: the service must be one that revision 1 could hold.\<close>

definition r1_service :: "service \<Rightarrow> bool" where
  "r1_service s \<longleftrightarrow>
     sv_service_revision s = 1 \<and> sv_materialised_at s = None \<and> sv_storage s = None \<and>
     sv_design_state s = Seeded \<and> sv_operational_status s = Active \<and>
     sv_updated_at s = sv_last_activity_at s \<and> sv_created_at s \<le> sv_updated_at s \<and>
     (sv_manifest s = None \<longrightarrow> sv_created_at s = sv_updated_at s) \<and>
     (case sv_manifest s of None \<Rightarrow> True
      | Some m \<Rightarrow> sv_schema_version s = Some 1 \<and> ma_schema_version m = 1 \<and>
          ma_migration_history m = [])"

definition decode_legacy_result ::
  "runtime \<Rightarrow> result_document option \<Rightarrow> pystr \<Rightarrow> uuid \<Rightarrow> service reg" where
  "decode_legacy_result rt d p u =
     (case d of
        Some (LegacyServiceDocument s) \<Rightarrow>
          rbind (rcheck (validate_service rt s \<and> r1_service s \<and> sv_principal_id s = p \<and>
            sv_service_id s = u)) (\<lambda>_. rret s)
      | _ \<Rightarrow> rfail)"

definition lifecycle_document :: "lifecycle_intent \<Rightarrow> lifecycle_evidence" where
  "lifecycle_document i =
     \<lparr>le_kind = li_kind i, le_principal_id = cf_principal_id (li_fields i),
      le_created_via = cf_created_via (li_fields i), le_service_id = cf_service_id (li_fields i),
      le_expected_service_revision = cf_expected_service_revision (li_fields i),
      le_expected_schema_version = cf_expected_schema_version (li_fields i),
      le_target_manifest = li_target_manifest i\<rparr>"

fun phase_from_column :: "ledger_phase \<Rightarrow> lifecycle_phase option" where
  "phase_from_column PhasePrepared = Some Prepared"
| "phase_from_column PhaseCompleted = Some Completed"
| "phase_from_column PhaseRecoveryRequired = Some RecoveryRequiredPhase"
| "phase_from_column PhaseTombstoned = None"

definition intent_from_row ::
  "lifecycle_evidence \<Rightarrow> lifecycle_phase \<Rightarrow> claim_row \<Rightarrow> lifecycle_intent" where
  "intent_from_row e ph c =
     \<lparr>li_kind = le_kind e, li_phase = ph,
      li_fields =
        \<lparr>cf_principal_id = le_principal_id e, cf_created_via = le_created_via e,
         cf_service_id = le_service_id e,
         cf_expected_service_revision = le_expected_service_revision e,
         cf_expected_schema_version = le_expected_schema_version e,
         cf_idempotency_key = cl_idempotency_key c\<rparr>,
      li_fingerprint = cl_fingerprint c, li_target_manifest = le_target_manifest e\<rparr>"

definition decode_lifecycle_intent :: "runtime \<Rightarrow> claim_row \<Rightarrow> lifecycle_intent reg" where
  "decode_lifecycle_intent rt c =
     (case (cl_intent c, phase_from_column (cl_phase c)) of
        (Some (LifecycleDocument e), Some ph) \<Rightarrow>
          rbind (rlift (make_lifecycle_intent rt (intent_from_row e ph c))) (\<lambda>i.
          rbind (rcheck (le_principal_id e = cl_principal_id c \<and>
              le_service_id e = cl_service_id c \<and>
              lifecycle_claim_kind (le_kind e) = cl_kind c)) (\<lambda>_.
            rret i))
      | _ \<Rightarrow> rfail)"

section \<open>Seed and design\<close>

fun non_lifecycle_claim_kind :: "non_lifecycle_kind \<Rightarrow> claim_kind" where
  "non_lifecycle_claim_kind SeedKind = KSeed"
| "non_lifecycle_claim_kind DesignKind = KDesign"

definition completed_claim :: "completed_kind \<Rightarrow> service \<Rightarrow> non_lifecycle_outcome reg" where
  "completed_claim kind s =
     rbind (rcheck (completed_non_lifecycle_ok kind s))
       (\<lambda>_. rret (CompletedNonLifecycleClaim kind s))"

definition resolve_non_lifecycle ::
  "runtime \<Rightarrow> non_lifecycle_kind \<Rightarrow> pystr \<Rightarrow> pystr \<Rightarrow> pystr \<Rightarrow> non_lifecycle_outcome reg" where
  "resolve_non_lifecycle rt kind p key fingerprint =
     rbind (rget (claim_lookup p key)) (\<lambda>row.
       case row of
         None \<Rightarrow> rret NewNonLifecycleClaim
       | Some c \<Rightarrow>
           if cl_fingerprint c \<noteq> fingerprint then rret ConflictNonLifecycleClaim
           else if cl_kind c \<notin> {KLegacy, non_lifecycle_claim_kind kind} \<or>
                   cl_phase c \<noteq> PhaseCompleted
           then rret ConflictNonLifecycleClaim
           else if cl_kind c = KLegacy
           then rbind (decode_legacy_result rt (cl_result c) p (cl_service_id c))
                  (completed_claim LegacyCompletion)
           else rbind (decode_result rt (cl_result c) p (cl_service_id c))
                  (completed_claim (NonLifecycleCompletion kind)))"

definition complete_non_lifecycle ::
  "runtime \<Rightarrow> non_lifecycle_kind \<Rightarrow> pystr \<Rightarrow> pystr \<Rightarrow> pystr \<Rightarrow> service \<Rightarrow> unit reg" where
  "complete_non_lifecycle rt kind p key fingerprint s =
     rbind (rcheck (sv_principal_id s = p \<and> validate_service rt s)) (\<lambda>_.
       insert_claim
         \<lparr>cl_principal_id = p, cl_idempotency_key = key, cl_fingerprint = fingerprint,
          cl_service_id = sv_service_id s, cl_kind = non_lifecycle_claim_kind kind,
          cl_phase = PhaseCompleted, cl_created_via = None, cl_intent = None,
          cl_result = Some (ServiceDocument s), cl_recovery_category = False\<rparr>)"

section \<open>Materialise and evolve\<close>

fun supported_lifecycle_state :: "service \<Rightarrow> lifecycle_command \<Rightarrow> bool" where
  "supported_lifecycle_state s (MaterialiseCommand f) =
     (sv_operational_status s = Active \<and> sv_manifest s \<noteq> None \<and> sv_design_state s = Seeded \<and>
      sv_schema_version s = Some 1 \<and> sv_materialised_at s = None \<and> sv_storage s = None)"
| "supported_lifecycle_state s (EvolveCommand f t) =
     (sv_operational_status s = Active \<and> sv_manifest s \<noteq> None \<and>
      sv_design_state s = Materialised \<and> sv_materialised_at s \<noteq> None \<and> sv_storage s \<noteq> None)"

definition completed_lifecycle_claim ::
  "runtime \<Rightarrow> claim_row \<Rightarrow> lifecycle_intent \<Rightarrow> lifecycle_outcome reg" where
  "completed_lifecycle_claim rt c i =
     rbind (decode_result rt (cl_result c) (cf_principal_id (li_fields i))
         (cf_service_id (li_fields i))) (\<lambda>s.
     rbind (rcheck (completed_lifecycle_ok i s)) (\<lambda>_. rret (CompletedLifecycleClaim i s)))"

definition existing_lifecycle_claim ::
  "runtime \<Rightarrow> claim_row \<Rightarrow> lifecycle_command \<Rightarrow> pystr \<Rightarrow> lifecycle_outcome reg" where
  "existing_lifecycle_claim rt c command fingerprint =
     (if cl_fingerprint c \<noteq> fingerprint \<or> cl_kind c \<noteq> lifecycle_claim_kind (command_kind command)
      then rret ConflictClaim
      else rbind (decode_lifecycle_intent rt c) (\<lambda>i.
        if li_phase i = Prepared then rret (PreparedLifecycleClaim i)
        else if li_phase i = RecoveryRequiredPhase then rret (RecoveryRequiredLifecycleClaim i)
        else completed_lifecycle_claim rt c i))"

definition insert_prepared :: "lifecycle_intent \<Rightarrow> unit reg" where
  "insert_prepared i =
     insert_claim
       \<lparr>cl_principal_id = cf_principal_id (li_fields i),
        cl_idempotency_key = cf_idempotency_key (li_fields i),
        cl_fingerprint = li_fingerprint i, cl_service_id = cf_service_id (li_fields i),
        cl_kind = lifecycle_claim_kind (li_kind i), cl_phase = PhasePrepared,
        cl_created_via = Some (cf_created_via (li_fields i)),
        cl_intent = Some (LifecycleDocument (lifecycle_document i)), cl_result = None,
        cl_recovery_category = False\<rparr>"

definition blocking_outcome :: "runtime \<Rightarrow> claim_row \<Rightarrow> lifecycle_outcome reg" where
  "blocking_outcome rt c =
     (if cl_kind c \<in> {KMaterialise, KEvolve}
      then rbind (decode_lifecycle_intent rt c) (\<lambda>i.
        rret (if li_phase i = RecoveryRequiredPhase then RecoveryRequiredLifecycleClaim i
              else OperationInProgressOutcome))
      else rret OperationInProgressOutcome)"

text \<open>The registry-authoritative target: the service's manifest, or the command's. The first
  component is what the code compiles or classifies before it prepares the intent.\<close>

definition admitted_target :: "service \<Rightarrow> lifecycle_command \<Rightarrow> (bool \<times> manifest) option" where
  "admitted_target s c =
     (case (c, sv_manifest s) of
        (MaterialiseCommand f, Some m) \<Rightarrow>
          Some (case compile_manifest m of Inl _ \<Rightarrow> False | Inr _ \<Rightarrow> True, m)
      | (EvolveCommand f t, Some m) \<Rightarrow>
          Some (case classify_transition m t of Inl _ \<Rightarrow> False | Inr _ \<Rightarrow> True, t)
      | _ \<Rightarrow> None)"

definition resolve_or_admit :: "runtime \<Rightarrow> lifecycle_command \<Rightarrow> lifecycle_outcome reg" where
  "resolve_or_admit rt command =
     (let f = command_fields command; p = cf_principal_id f; u = cf_service_id f;
          fingerprint = lifecycle_fingerprint rt command in
      rbind (rget (claim_lookup p (cf_idempotency_key f))) (\<lambda>row.
        case row of
          Some c \<Rightarrow> existing_lifecycle_claim rt c command fingerprint
        | None \<Rightarrow>
            rbind (get_service rt p u) (\<lambda>found.
              case found of
                None \<Rightarrow> rret StaleRevisionOutcome
              | Some s \<Rightarrow>
                  if sv_service_revision s \<noteq> cf_expected_service_revision f \<or>
                     sv_schema_version s \<noteq> Some (cf_expected_schema_version f)
                  then rret StaleRevisionOutcome
                  else if \<not> supported_lifecycle_state s command
                  then rret UnsupportedTransitionOutcome
                  else if sv_service_revision s \<ge> MAX_SERVICE_REVISION
                  then rret UnsupportedTransitionOutcome
                  else rbind (rget (active_claims p u)) (\<lambda>blockers.
                    case blockers of
                      b # _ \<Rightarrow> blocking_outcome rt b
                    | [] \<Rightarrow>
                        (case admitted_target s command of
                           None \<Rightarrow> rfail
                         | Some (compiles, target) \<Rightarrow>
                             if \<not> compiles then rret UnsupportedTransitionOutcome
                             else rbind (rlift (prepare_intent rt command target)) (\<lambda>i.
                                  rbind (insert_prepared i) (\<lambda>_.
                                    rret (PreparedLifecycleClaim i))))))))"

definition append_terminal :: "lifecycle_intent \<Rightarrow> audit_outcome \<Rightarrow> time \<Rightarrow> unit reg" where
  "append_terminal i outcome t =
     append_audit (lifecycle_claim_kind (li_kind i)) outcome (cf_service_id (li_fields i))
       (cf_principal_id (li_fields i)) (cf_created_via (li_fields i)) t"

definition terminal_or_prepared :: "runtime \<Rightarrow> lifecycle_intent \<Rightarrow> lifecycle_outcome reg" where
  "terminal_or_prepared rt prepared =
     rbind (rcheck (li_phase prepared = Prepared)) (\<lambda>_.
     rbind (rget (claim_lookup (cf_principal_id (li_fields prepared))
         (cf_idempotency_key (li_fields prepared)))) (\<lambda>row.
       case row of
         None \<Rightarrow> rfail
       | Some c \<Rightarrow>
           rbind (rcheck (cl_fingerprint c = li_fingerprint prepared)) (\<lambda>_.
           rbind (decode_lifecycle_intent rt c) (\<lambda>stored.
           rbind (rcheck (li_kind stored = li_kind prepared)) (\<lambda>_.
             if li_phase stored = Prepared then
               rbind (rcheck (stored = prepared)) (\<lambda>_. rret (PreparedLifecycleClaim stored))
             else if li_phase stored = RecoveryRequiredPhase then
               rret (RecoveryRequiredLifecycleClaim stored)
             else
               rbind (decode_result rt (cl_result c) (cf_principal_id (li_fields prepared))
                 (cf_service_id (li_fields prepared))) (\<lambda>s.
               rbind (rcheck (completed_lifecycle_ok stored s)) (\<lambda>_.
                 rret (CompletedLifecycleClaim stored s))))))))"

fun finalization_preconditions :: "service \<Rightarrow> lifecycle_completion \<Rightarrow> bool" where
  "finalization_preconditions s co =
     (let i = co_intent co; f = li_fields i in
      sv_principal_id s = cf_principal_id f \<and> sv_service_id s = cf_service_id f \<and>
      sv_operational_status s = Active \<and>
      sv_service_revision s = cf_expected_service_revision f \<and>
      sv_schema_version s = Some (cf_expected_schema_version f) \<and> sv_manifest s \<noteq> None \<and>
      sv_updated_at s \<le> co_at co \<and>
      (case co of
         MaterialiseCompletion _ _ _ \<Rightarrow>
           sv_design_state s = Seeded \<and> sv_manifest s = Some (li_target_manifest i) \<and>
           sv_schema_version s = Some 1 \<and> sv_materialised_at s = None \<and> sv_storage s = None
       | EvolveCompletion _ _ \<Rightarrow>
           sv_design_state s = Materialised \<and> sv_materialised_at s \<noteq> None \<and> sv_storage s \<noteq> None \<and>
           Some (ma_schema_version (li_target_manifest i)) =
             map_option (\<lambda>v. v + 1) (sv_schema_version s)))"

definition terminal_service :: "service \<Rightarrow> lifecycle_completion \<Rightarrow> service" where
  "terminal_service s co =
     (let i = co_intent co;
          common = s\<lparr>sv_updated_at := co_at co, sv_last_activity_at := co_at co,
            sv_service_revision := cf_expected_service_revision (li_fields i) + 1\<rparr> in
      case co of
        MaterialiseCompletion _ t st \<Rightarrow>
          common\<lparr>sv_design_state := Materialised, sv_materialised_at := Some t,
                 sv_storage := Some st\<rparr>
      | EvolveCompletion _ _ \<Rightarrow>
          common\<lparr>sv_manifest := Some (li_target_manifest i),
                 sv_schema_version := Some (ma_schema_version (li_target_manifest i))\<rparr>)"

definition mark_recovery :: "runtime \<Rightarrow> lifecycle_intent \<Rightarrow> time \<Rightarrow> lifecycle_outcome reg" where
  "mark_recovery rt i t =
     rbind (update_prepared (cf_principal_id (li_fields i)) (cf_idempotency_key (li_fields i))
         (li_fingerprint i)
         (\<lambda>c. c\<lparr>cl_phase := PhaseRecoveryRequired, cl_recovery_category := True\<rparr>)) (\<lambda>_.
     rbind (rlift (with_phase rt i RecoveryRequiredPhase)) (\<lambda>terminal.
     rbind (append_terminal i RecoveryRequiredEvent t) (\<lambda>_.
       rret (RecoveryRequiredLifecycleClaim terminal))))"

definition is_terminal_claim :: "lifecycle_outcome \<Rightarrow> bool" where
  "is_terminal_claim o1 = (case o1 of
     CompletedLifecycleClaim _ _ \<Rightarrow> True | RecoveryRequiredLifecycleClaim _ \<Rightarrow> True | _ \<Rightarrow> False)"

definition finalize_completed ::
  "runtime \<Rightarrow> lifecycle_completion \<Rightarrow> lifecycle_outcome reg" where
  "finalize_completed rt co =
     (let i = co_intent co; f = li_fields i in
      rbind (terminal_or_prepared rt i) (\<lambda>existing.
        if is_terminal_claim existing then rret existing
        else
          rbind (get_service rt (cf_principal_id f) (cf_service_id f)) (\<lambda>found.
            case found of
              None \<Rightarrow> mark_recovery rt i (co_at co)
            | Some s \<Rightarrow>
                if co_at co < sv_updated_at s then rfail
                else if \<not> finalization_preconditions s co then mark_recovery rt i (co_at co)
                else
                  rbind (rlift (make_service (terminal_service s co))) (\<lambda>terminal.
                  rbind (save_service rt terminal (cf_expected_service_revision f)) (\<lambda>saved.
                    if saved \<noteq> Saved then mark_recovery rt i (co_at co)
                    else
                      rbind (rlift (with_phase rt i Completed)) (\<lambda>terminal_intent.
                      rbind (rcheck (validate_service rt terminal)) (\<lambda>_.
                      rbind (update_prepared (cf_principal_id f) (cf_idempotency_key f)
                          (li_fingerprint i)
                          (\<lambda>c. c\<lparr>cl_phase := PhaseCompleted,
                                cl_result := Some (ServiceDocument terminal)\<rparr>)) (\<lambda>_.
                      rbind (append_terminal i CompletedEvent (co_at co)) (\<lambda>_.
                      rbind (rcheck (completed_lifecycle_ok terminal_intent terminal)) (\<lambda>_.
                        rret (CompletedLifecycleClaim terminal_intent terminal)))))))))))"

definition finalize_recovery_required ::
  "runtime \<Rightarrow> lifecycle_intent \<Rightarrow> time \<Rightarrow> lifecycle_outcome reg" where
  "finalize_recovery_required rt prepared t =
     rbind (terminal_or_prepared rt prepared) (\<lambda>existing.
       if is_terminal_claim existing then rret existing else mark_recovery rt prepared t)"

end
