(* ===== verification/Ledger_Authority.thy ===== *)
theory Ledger_Authority
  imports Ledger
begin

text \<open>
  The shared claim authority of \<open>storage/sqlite/uow.py\<close>: suspend, resume, archive, restore,
  export, import and purge. \<open>resolve_or_prepare\<close> admits one operation per service,
  \<open>finalize_operational\<close>, \<open>complete_export\<close>, \<open>publish_import\<close> and \<open>finalize_purge\<close> end it, and
  \<open>mark_recovery_required\<close> poisons it.
\<close>

section \<open>Documents\<close>

definition decode_authority_intent :: "runtime \<Rightarrow> claim_row \<Rightarrow> authority_intent reg" where
  "decode_authority_intent rt c =
     (case cl_intent c of
        Some (AuthorityDocument i) \<Rightarrow> rbind (rcheck (ai_ok rt i)) (\<lambda>_. rret i)
      | _ \<Rightarrow> rfail)"

fun authority_result_ok :: "runtime \<Rightarrow> authority_result \<Rightarrow> bool" where
  "authority_result_ok rt (ServiceResult s) = validate_service rt s"
| "authority_result_ok rt (ReceiptResult r) = transfer_receipt_ok r"
| "authority_result_ok rt (TombstoneResult t) = purge_tombstone_ok t"

definition decode_authority_result ::
  "runtime \<Rightarrow> claim_row \<Rightarrow> authority_intent \<Rightarrow> authority_result reg" where
  "decode_authority_result rt c i =
     (case cl_result c of
        Some (AuthorityResultDocument v) \<Rightarrow>
          rbind (rcheck (authority_result_ok rt v \<and> completed_registry_ok i v)) (\<lambda>_. rret v)
      | _ \<Rightarrow> rfail)"

definition authority_row_matches :: "claim_row \<Rightarrow> authority_intent \<Rightarrow> bool" where
  "authority_row_matches c i \<longleftrightarrow>
     cl_principal_id c = ai_principal i \<and> cl_idempotency_key c = ai_key i \<and>
     cl_fingerprint c = ai_fingerprint i \<and> cl_kind c = ai_kind i \<and>
     cl_service_id c = ai_service i \<and> cl_phase c = ledger_phase_of (ai_phase i) \<and>
     cl_created_via c = Some (ai_created_via i)"

text \<open>\<open>validate_registry_authority_claim_row\<close> for a row that still carries its intent.\<close>

definition validate_authority_row :: "runtime \<Rightarrow> claim_row \<Rightarrow> authority_intent \<Rightarrow> unit reg" where
  "validate_authority_row rt c i =
     rbind (rcheck (authority_row_matches c i)) (\<lambda>_.
       if ai_phase i = Prepared then rcheck (cl_result c = None \<and> \<not> cl_recovery_category c)
       else if ai_phase i = RecoveryRequiredPhase then
         rcheck (cl_result c = None \<and> cl_recovery_category c)
       else
         rbind (rcheck (\<not> cl_recovery_category c)) (\<lambda>_.
         rbind (decode_authority_result rt c i) (\<lambda>_. rret ())))"

section \<open>Existing claims and blockers\<close>

definition pre_authority_kind :: "claim_kind \<Rightarrow> bool" where
  "pre_authority_kind k \<longleftrightarrow> k \<in> {KLegacy, KSeed, KDesign, KMaterialise, KEvolve}"

definition existing_authority_claim ::
  "runtime \<Rightarrow> claim_row \<Rightarrow> authority_intent \<Rightarrow> authority_outcome reg" where
  "existing_authority_claim rt c i =
     (if pre_authority_kind (cl_kind c) then rret RegistryClaimConflict
      else if cl_phase c = PhaseTombstoned then
        rbind (rcheck (cl_created_via c = None \<and> cl_intent c = None \<and> cl_result c = None \<and>
            \<not> cl_recovery_category c)) (\<lambda>_.
          rret (if cl_fingerprint c = ai_fingerprint i \<and> cl_kind c = ai_kind i \<and>
                   cl_service_id c = ai_service i
                then TombstonedRegistryClaim (cl_idempotency_key c) (cl_fingerprint c) (cl_kind c)
                       (cl_service_id c)
                else RegistryClaimConflict))
      else
        rbind (decode_authority_intent rt c) (\<lambda>stored.
          if ai_kind stored \<noteq> ai_kind i \<or> ai_fingerprint stored \<noteq> ai_fingerprint i
          then rret RegistryClaimConflict
          else
            rbind (validate_authority_row rt c stored) (\<lambda>_.
              if ai_phase stored = Prepared then rret (PreparedRegistryClaim stored)
              else if ai_phase stored = RecoveryRequiredPhase then
                rret (RecoveryRequiredRegistryClaim (AuthorityActive stored))
              else
                rbind (decode_authority_result rt c stored) (\<lambda>v.
                  rret (CompletedRegistryClaim stored v)))))"

definition authority_blocker :: "runtime \<Rightarrow> pystr \<Rightarrow> uuid \<Rightarrow> authority_outcome option reg" where
  "authority_blocker rt p u =
     rbind (rget (active_claims p u)) (\<lambda>rows.
       case rows of
         [] \<Rightarrow> rret None
       | c # _ \<Rightarrow>
           if cl_kind c \<in> {KMaterialise, KEvolve} then
             rbind (decode_lifecycle_intent rt c) (\<lambda>i.
               rret (Some (if li_phase i = RecoveryRequiredPhase
                 then RecoveryRequiredRegistryClaim (LifecycleActive i)
                 else RegistryOperationInProgress (LifecycleActive i))))
           else
             rbind (decode_authority_intent rt c) (\<lambda>i.
               rret (Some (if ai_phase i = RecoveryRequiredPhase
                 then RecoveryRequiredRegistryClaim (AuthorityActive i)
                 else RegistryOperationInProgress (AuthorityActive i)))))"

definition insert_authority_prepared :: "authority_intent \<Rightarrow> unit reg" where
  "insert_authority_prepared i =
     insert_claim
       \<lparr>cl_principal_id = ai_principal i, cl_idempotency_key = ai_key i,
        cl_fingerprint = ai_fingerprint i, cl_service_id = ai_service i, cl_kind = ai_kind i,
        cl_phase = PhasePrepared, cl_created_via = Some (ai_created_via i),
        cl_intent = Some (AuthorityDocument i), cl_result = None, cl_recovery_category = False\<rparr>"

definition append_local_event :: "authority_intent \<Rightarrow> audit_outcome \<Rightarrow> time \<Rightarrow> unit reg" where
  "append_local_event i outcome t =
     append_audit (ai_kind i) outcome (ai_service i) (ai_principal i) (ai_created_via i) t"

definition complete_authority ::
  "runtime \<Rightarrow> authority_intent \<Rightarrow> authority_result \<Rightarrow> time \<Rightarrow> authority_outcome reg" where
  "complete_authority rt prepared result t =
     rbind (rlift (ai_with_phase rt prepared Completed)) (\<lambda>terminal.
     rbind (rcheck (authority_result_ok rt result)) (\<lambda>_.
     rbind (update_prepared (ai_principal prepared) (ai_key prepared) (ai_fingerprint prepared)
         (\<lambda>c. c\<lparr>cl_phase := PhaseCompleted, cl_intent := Some (AuthorityDocument terminal),
               cl_result := Some (AuthorityResultDocument result)\<rparr>)) (\<lambda>_.
     rbind (rcheck (completed_registry_ok terminal result)) (\<lambda>_.
     rbind (append_local_event terminal CompletedEvent t) (\<lambda>_.
       rret (CompletedRegistryClaim terminal result))))))"

definition mark_authority_recovery ::
  "runtime \<Rightarrow> authority_intent \<Rightarrow> time \<Rightarrow> authority_outcome reg" where
  "mark_authority_recovery rt prepared t =
     rbind (rlift (ai_with_phase rt prepared RecoveryRequiredPhase)) (\<lambda>terminal.
     rbind (update_prepared (ai_principal prepared) (ai_key prepared) (ai_fingerprint prepared)
         (\<lambda>c. c\<lparr>cl_phase := PhaseRecoveryRequired, cl_intent := Some (AuthorityDocument terminal),
               cl_recovery_category := True\<rparr>)) (\<lambda>_.
     rbind (append_local_event terminal RecoveryRequiredEvent t) (\<lambda>_.
       rret (RecoveryRequiredRegistryClaim (AuthorityActive terminal)))))"

section \<open>Receipts and identities\<close>

definition receipt_exists :: "uuid \<Rightarrow> registry \<Rightarrow> bool" where
  "receipt_exists rid r \<longleftrightarrow> (\<exists>x \<in> set (rg_receipts r). tr_receipt_id (rc_receipt x) = rid)"

definition insert_receipt :: "portable_intent \<Rightarrow> transfer_receipt \<Rightarrow> unit reg" where
  "insert_receipt i receipt =
     rbind (rget rg_receipts) (\<lambda>rows.
     rbind (rget rg_claims) (\<lambda>claims.
     rbind (rcheck (transfer_receipt_ok receipt \<and>
         (\<forall>x \<in> set rows. tr_receipt_id (rc_receipt x) \<noteq> tr_receipt_id receipt \<and>
            \<not> (tr_principal_id (rc_receipt x) = tr_principal_id receipt \<and>
               rc_idempotency_key x = po_idempotency_key i)) \<and>
         (\<exists>c \<in> set claims. cl_principal_id c = tr_principal_id receipt \<and>
            cl_idempotency_key c = po_idempotency_key i \<and>
            cl_service_id c = tr_service_id receipt))) (\<lambda>_.
       rput (\<lambda>r. r\<lparr>rg_receipts := rows @
         [\<lparr>rc_idempotency_key = po_idempotency_key i, rc_receipt = receipt\<rparr>]\<rparr>))))"

definition purge_receipt_valid :: "portable_intent \<Rightarrow> registry \<Rightarrow> bool" where
  "purge_receipt_valid i r =
     (case po_purge_authority i of
        None \<Rightarrow> False
      | Some ExplicitOverride \<Rightarrow> True
      | Some (VerifiedReceipt rid) \<Rightarrow>
          (case List.find (\<lambda>x. tr_receipt_id (rc_receipt x) = rid) (rg_receipts r) of
             None \<Rightarrow> False
           | Some x \<Rightarrow>
               let rc = rc_receipt x in
               tr_kind rc = ExportReceipt \<and> tr_verified rc \<and>
               tr_principal_id rc = po_principal_id i \<and> tr_service_id rc = po_service_id i \<and>
               Some (tr_service_revision rc) = po_expected_service_revision i \<and>
               tr_operational_status rc = Archived))"

definition import_collision :: "portable_intent \<Rightarrow> import_identity \<Rightarrow> registry \<Rightarrow> collision_kind option" where
  "import_collision i ident r =
     (case List.find (\<lambda>x. iy_service_id x = po_service_id i) (rg_identities r) of
        Some x \<Rightarrow> Some (if iy_state x = IdentityTombstoned then CollisionTombstone
                       else CollisionServiceId)
      | None \<Rightarrow>
          if \<exists>x \<in> set (rg_identities r). live_domain (id_principal_id ident) (id_domain_name ident) x
          then Some CollisionDomain else None)"

section \<open>Admission\<close>

definition admissible :: "portable_intent \<Rightarrow> service \<Rightarrow> registry \<Rightarrow> bool" where
  "admissible i s r =
     (case po_kind i of
        ExportKind \<Rightarrow> \<not> (sv_design_state s = Materialised \<and> sv_operational_status s = Active)
      | PurgeKind \<Rightarrow> sv_operational_status s = Archived \<and> purge_receipt_valid i r
      | ImportKind \<Rightarrow> True)"

fun transition_supported :: "authority_intent \<Rightarrow> service \<Rightarrow> registry \<Rightarrow> bool" where
  "transition_supported (OperationalIntent i) s r =
     (case transition_target_status (oi_command i) (sv_design_state s) (sv_operational_status s) of
        Inl _ \<Rightarrow> False | Inr _ \<Rightarrow> True)"
| "transition_supported (PortableIntent i) s r = admissible i s r"

text \<open>The import branch reserves the identity under the prepared claim; \<open>now\<close> is the wall-clock
  reading of \<open>datetime.now(UTC)\<close> that the reservation records.\<close>

definition prepare_import ::
  "portable_intent \<Rightarrow> time \<Rightarrow> authority_outcome reg" where
  "prepare_import i now =
     (if po_destination_backend i \<noteq> Some SQLite then rret RegistryUnsupportedTransition
      else case po_identity i of
        None \<Rightarrow> rfail
      | Some ident \<Rightarrow>
          rbind (rget (import_collision i ident)) (\<lambda>collision.
            case collision of
              Some k \<Rightarrow> rret (RegistryIdentityCollision k)
            | None \<Rightarrow>
                rbind (insert_authority_prepared (PortableIntent i)) (\<lambda>_.
                rbind (insert_identity
                    \<lparr>iy_service_id = po_service_id i, iy_principal_id = po_principal_id i,
                     iy_state = IdentityImportPrepared,
                     iy_domain_name = Some (id_domain_name ident),
                     iy_storage_backend = po_destination_backend i,
                     iy_storage_namespace = id_logical_namespace ident,
                     iy_claim_key = Some (po_idempotency_key i), iy_lifecycle_at = Some now\<rparr>) (\<lambda>_.
                  rret (PreparedRegistryClaim (PortableIntent i))))))"

definition prepare_on_service :: "runtime \<Rightarrow> authority_intent \<Rightarrow> authority_outcome reg" where
  "prepare_on_service rt i =
     rbind (get_service rt (ai_principal i) (ai_service i)) (\<lambda>found.
       case found of
         None \<Rightarrow> rret RegistryStaleRevision
       | Some s \<Rightarrow>
           if ai_expected i \<noteq> Some (sv_service_revision s) then rret RegistryStaleRevision
           else
             rbind (authority_blocker rt (ai_principal i) (ai_service i)) (\<lambda>blocker.
               case blocker of
                 Some b \<Rightarrow> rret b
               | None \<Rightarrow>
                   rbind (rget (transition_supported i s)) (\<lambda>supported.
                     if \<not> supported then rret RegistryUnsupportedTransition
                     else
                       rbind (insert_authority_prepared i) (\<lambda>_.
                         rret (PreparedRegistryClaim i)))))"

fun is_import :: "authority_intent \<Rightarrow> bool" where
  "is_import (PortableIntent i) = (po_kind i = ImportKind)"
| "is_import (OperationalIntent i) = False"

definition resolve_or_prepare ::
  "runtime \<Rightarrow> authority_command \<Rightarrow> time \<Rightarrow> authority_outcome reg" where
  "resolve_or_prepare rt command now =
     rbind (rlift (prepare_registry_intent rt command)) (\<lambda>i.
     rbind (rget (claim_lookup (ai_principal i) (ai_key i))) (\<lambda>row.
       case row of
         Some c \<Rightarrow> existing_authority_claim rt c i
       | None \<Rightarrow>
           (case i of
              PortableIntent p \<Rightarrow>
                if po_kind p = ImportKind then prepare_import p now else prepare_on_service rt i
            | OperationalIntent _ \<Rightarrow> prepare_on_service rt i)))"

definition authority_prepared_or_terminal ::
  "runtime \<Rightarrow> authority_intent \<Rightarrow> authority_outcome reg" where
  "authority_prepared_or_terminal rt prepared =
     rbind (rcheck (ai_phase prepared = Prepared)) (\<lambda>_.
     rbind (rget (claim_lookup (ai_principal prepared) (ai_key prepared))) (\<lambda>row.
       case row of
         None \<Rightarrow> rfail
       | Some c \<Rightarrow>
           rbind (existing_authority_claim rt c prepared) (\<lambda>current.
             case current of
               RegistryClaimConflict \<Rightarrow> rfail
             | TombstonedRegistryClaim _ _ _ _ \<Rightarrow> rfail
             | _ \<Rightarrow> rret current)))"

text \<open>\<open>if type(existing) is not PreparedRegistryClaim: return existing\<close>.\<close>

definition if_prepared ::
  "runtime \<Rightarrow> authority_intent \<Rightarrow> authority_outcome reg \<Rightarrow> authority_outcome reg" where
  "if_prepared rt prepared body =
     rbind (authority_prepared_or_terminal rt prepared) (\<lambda>existing.
       case existing of PreparedRegistryClaim _ \<Rightarrow> body | _ \<Rightarrow> rret existing)"

section \<open>Finalization\<close>

text \<open>The \<open>try\<close> block of \<open>finalize_operational\<close>: it returns the saved terminal service.\<close>

definition operational_terminal ::
  "runtime \<Rightarrow> operational_intent \<Rightarrow> service option \<Rightarrow> time \<Rightarrow> service reg" where
  "operational_terminal rt i found t =
     (case found of
        None \<Rightarrow> rfail
      | Some s \<Rightarrow>
          rbind (rcheck (sv_service_revision s = oc_expected_service_revision (oi_command i) \<and>
              sv_updated_at s \<le> t)) (\<lambda>_.
          rbind (rlift (transition_target_status (oi_command i) (sv_design_state s)
              (sv_operational_status s))) (\<lambda>target.
          rbind (rlift (make_service (s\<lparr>sv_operational_status := target, sv_updated_at := t,
              sv_last_activity_at := t, sv_service_revision := sv_service_revision s + 1\<rparr>))) (\<lambda>terminal.
          rbind (save_service rt terminal (oc_expected_service_revision (oi_command i))) (\<lambda>saved.
          rbind (rcheck (saved = Saved)) (\<lambda>_. rret terminal))))))"

definition finalize_operational ::
  "runtime \<Rightarrow> operational_intent \<Rightarrow> time \<Rightarrow> authority_outcome reg" where
  "finalize_operational rt i t =
     if_prepared rt (OperationalIntent i)
       (rbind (get_service rt (ai_principal (OperationalIntent i)) (ai_service (OperationalIntent i)))
         (\<lambda>found.
           rbind (rcatch (rbind (operational_terminal rt i found t) (\<lambda>s. rret (Some s)))
               (rret None)) (\<lambda>outcome.
             case outcome of
               None \<Rightarrow> mark_authority_recovery rt (OperationalIntent i) t
             | Some terminal \<Rightarrow>
                 complete_authority rt (OperationalIntent i) (ServiceResult terminal) t)))"

definition export_matches :: "portable_intent \<Rightarrow> transfer_receipt \<Rightarrow> service \<Rightarrow> registry \<Rightarrow> bool" where
  "export_matches i receipt s r \<longleftrightarrow>
     Some (sv_service_revision s) = po_expected_service_revision i \<and>
     tr_kind receipt = ExportReceipt \<and> tr_verified receipt \<and> tr_storage_backend receipt = SQLite \<and>
     tr_principal_id receipt = po_principal_id i \<and> tr_service_id receipt = po_service_id i \<and>
     Some (tr_service_revision receipt) = po_expected_service_revision i \<and>
     tr_operational_status receipt = sv_operational_status s \<and>
     (case sv_storage s of None \<Rightarrow> True | Some st \<Rightarrow> tr_storage_backend receipt = st_backend st) \<and>
     \<not> receipt_exists (tr_receipt_id receipt) r"

definition complete_export ::
  "runtime \<Rightarrow> portable_intent \<Rightarrow> transfer_receipt \<Rightarrow> authority_outcome reg" where
  "complete_export rt i receipt =
     rbind (rcheck (po_kind i = ExportKind)) (\<lambda>_.
     if_prepared rt (PortableIntent i)
       (rbind (get_service rt (po_principal_id i) (po_service_id i)) (\<lambda>found.
        rbind (rget (\<lambda>r. case found of None \<Rightarrow> False | Some s \<Rightarrow> export_matches i receipt s r)) (\<lambda>ok.
          if \<not> ok then mark_authority_recovery rt (PortableIntent i) (tr_created_at receipt)
          else
            rbind (insert_receipt i receipt) (\<lambda>_.
              complete_authority rt (PortableIntent i) (ReceiptResult receipt)
                (tr_created_at receipt))))))"

definition import_matches ::
  "portable_intent \<Rightarrow> service \<Rightarrow> transfer_receipt \<Rightarrow> registry \<Rightarrow> bool" where
  "import_matches i s receipt r =
     (case (po_identity i, List.find (\<lambda>x. iy_service_id x = po_service_id i) (rg_identities r)) of
        (Some ident, Some res) \<Rightarrow>
          iy_state res = IdentityImportPrepared \<and>
          iy_principal_id res = id_principal_id ident \<and>
          iy_domain_name res = Some (id_domain_name ident) \<and>
          iy_storage_namespace res = id_logical_namespace ident \<and>
          iy_claim_key res = Some (po_idempotency_key i) \<and>
          service_row (id_principal_id ident) (id_service_id ident) r = None \<and>
          sv_principal_id s = id_principal_id ident \<and> sv_service_id s = id_service_id ident \<and>
          sv_domain_name s = id_domain_name ident \<and>
          (case sv_storage s of None \<Rightarrow> True
           | Some st \<Rightarrow> st_namespace st = id_logical_namespace ident \<and>
               Some (st_backend st) = po_destination_backend i) \<and>
          tr_kind receipt = ImportReceipt \<and> tr_verified receipt \<and>
          po_destination_backend i = Some SQLite \<and> tr_storage_backend receipt = SQLite \<and>
          tr_principal_id receipt = id_principal_id ident \<and>
          tr_service_id receipt = id_service_id ident \<and>
          Some (tr_bundle_root_sha256 receipt) = po_bundle_root_sha256 i \<and>
          tr_service_revision receipt = sv_service_revision s \<and>
          tr_operational_status receipt = sv_operational_status s \<and>
          \<not> receipt_exists (tr_receipt_id receipt) r
      | _ \<Rightarrow> False)"

definition reserved_identity :: "portable_intent \<Rightarrow> service \<Rightarrow> identity_row \<Rightarrow> bool" where
  "reserved_identity i s x \<longleftrightarrow>
     iy_service_id x = sv_service_id s \<and> iy_principal_id x = sv_principal_id s \<and>
     iy_state x = IdentityImportPrepared \<and> iy_claim_key x = Some (po_idempotency_key i)"

definition publish_identity :: "portable_intent \<Rightarrow> service \<Rightarrow> unit reg" where
  "publish_identity i s =
     rbind (rget rg_identities) (\<lambda>rows.
     rbind (rput (\<lambda>r. r\<lparr>rg_identities := update_where (reserved_identity i s)
         (\<lambda>x. x\<lparr>iy_state := IdentityLive, iy_storage_backend := storage_backend_of s,
               iy_claim_key := None, iy_lifecycle_at := None\<rparr>) rows\<rparr>)) (\<lambda>_.
       rcheck (rowcount (reserved_identity i s) rows = 1)))"

definition publish_import ::
  "runtime \<Rightarrow> portable_intent \<Rightarrow> service \<Rightarrow> transfer_receipt \<Rightarrow> authority_outcome reg" where
  "publish_import rt i s receipt =
     rbind (rcheck (po_kind i = ImportKind)) (\<lambda>_.
     if_prepared rt (PortableIntent i)
       (rbind (rget (import_matches i s receipt)) (\<lambda>ok.
          if \<not> ok then mark_authority_recovery rt (PortableIntent i) (tr_created_at receipt)
          else
            rbind (insert_service rt s) (\<lambda>_.
            rbind (publish_identity i s) (\<lambda>_.
            rbind (insert_receipt i receipt) (\<lambda>_.
              complete_authority rt (PortableIntent i) (ServiceResult s) (tr_created_at receipt)))))))"

definition purge_tombstone_of :: "portable_intent \<Rightarrow> service \<Rightarrow> purge_authority \<Rightarrow> time \<Rightarrow> purge_tombstone" where
  "purge_tombstone_of i s a t =
     \<lparr>pt_principal_id = sv_principal_id s, pt_service_id = sv_service_id s,
      pt_logical_namespace = svc_namespace (sv_service_id s), pt_created_via = po_created_via i,
      pt_purged_at = t, pt_authority = a, pt_receipt_id = authority_receipt a\<rparr>"

definition tombstone_claim :: "claim_row \<Rightarrow> claim_row" where
  "tombstone_claim c = c\<lparr>cl_phase := PhaseTombstoned, cl_created_via := None, cl_intent := None,
     cl_result := None, cl_recovery_category := False\<rparr>"

definition purged_claim :: "portable_intent \<Rightarrow> claim_row \<Rightarrow> bool" where
  "purged_claim i c \<longleftrightarrow>
     cl_principal_id c = po_principal_id i \<and> cl_service_id c = po_service_id i \<and>
     cl_idempotency_key c \<noteq> po_idempotency_key i"

definition purged_service :: "portable_intent \<Rightarrow> service \<Rightarrow> bool" where
  "purged_service i s \<longleftrightarrow> sv_principal_id s = po_principal_id i \<and> sv_service_id s = po_service_id i"

definition purged_identity :: "portable_intent \<Rightarrow> identity_row \<Rightarrow> bool" where
  "purged_identity i x \<longleftrightarrow>
     iy_service_id x = po_service_id i \<and> iy_principal_id x = po_principal_id i \<and>
     iy_state x = IdentityLive"

definition purged_receipt :: "portable_intent \<Rightarrow> receipt_row \<Rightarrow> bool" where
  "purged_receipt i x \<longleftrightarrow> tr_principal_id (rc_receipt x) = po_principal_id i \<and>
     tr_service_id (rc_receipt x) = po_service_id i"

text \<open>The four statements of the purge, in the source's order.\<close>

definition erase_service :: "portable_intent \<Rightarrow> time \<Rightarrow> unit reg" where
  "erase_service i t =
     rbind (rput (\<lambda>r. r\<lparr>rg_receipts := delete_where (purged_receipt i) (rg_receipts r)\<rparr>)) (\<lambda>_.
     rbind (rget rg_claims) (\<lambda>claims.
     rbind (rcheck (\<forall>c \<in> set claims. purged_claim i c \<longrightarrow> claim_shape_ok (tombstone_claim c))) (\<lambda>_.
     rbind (rput (\<lambda>r. r\<lparr>rg_claims := update_where (purged_claim i) tombstone_claim claims\<rparr>)) (\<lambda>_.
     rbind (rget rg_services) (\<lambda>services.
     rbind (rput (\<lambda>r. r\<lparr>rg_services := delete_where (purged_service i) services\<rparr>)) (\<lambda>_.
     rbind (rcheck (rowcount (purged_service i) services = 1)) (\<lambda>_.
     rbind (rget rg_identities) (\<lambda>identities.
     rbind (rput (\<lambda>r. r\<lparr>rg_identities := update_where (purged_identity i)
         (\<lambda>x. x\<lparr>iy_state := IdentityTombstoned, iy_domain_name := None,
               iy_storage_backend := None, iy_claim_key := Some (po_idempotency_key i),
               iy_lifecycle_at := Some t\<rparr>) identities\<rparr>)) (\<lambda>_.
       rcheck (rowcount (purged_identity i) identities = 1))))))))))"

definition finalize_purge :: "runtime \<Rightarrow> portable_intent \<Rightarrow> time \<Rightarrow> authority_outcome reg" where
  "finalize_purge rt i t =
     rbind (rcheck (po_kind i = PurgeKind)) (\<lambda>_.
     if_prepared rt (PortableIntent i)
       (rbind (get_service rt (po_principal_id i) (po_service_id i)) (\<lambda>found.
        rbind (rget (purge_receipt_valid i)) (\<lambda>receipt_valid.
          case (found, po_purge_authority i) of
            (Some s, Some a) \<Rightarrow>
              if Some (sv_service_revision s) \<noteq> po_expected_service_revision i \<or>
                 sv_operational_status s \<noteq> Archived \<or> t < sv_updated_at s \<or> \<not> receipt_valid
              then mark_authority_recovery rt (PortableIntent i) t
              else
                rbind (rcheck (purge_tombstone_ok (purge_tombstone_of i s a t))) (\<lambda>_.
                rbind (erase_service i t) (\<lambda>_.
                  complete_authority rt (PortableIntent i)
                    (TombstoneResult (purge_tombstone_of i s a t)) t))
          | _ \<Rightarrow> mark_authority_recovery rt (PortableIntent i) t))))"

definition mark_recovery_required ::
  "runtime \<Rightarrow> authority_intent \<Rightarrow> time \<Rightarrow> authority_outcome reg" where
  "mark_recovery_required rt prepared t =
     if_prepared rt prepared (mark_authority_recovery rt prepared t)"

end
