(* ===== verification/Registry_Inv.thy ===== *)
theory Registry_Inv
  imports Ledger_Authority
begin

text \<open>
  The invariant of the registry tables and its preservation by every repository method that
  succeeds. The first part characterises successful runs of the table operations; the second
  states the invariant in three independent parts (services with identities, claims, audit);
  the third shows that each method keeps them.
\<close>

section \<open>Successful runs\<close>

named_theorems run_simps

lemma rbind_Inr_iff [run_simps]:
  "rbind m f s = (Inr y, s') \<longleftrightarrow> (\<exists>x t. m s = (Inr x, t) \<and> f x t = (Inr y, s'))"
  by (auto simp: rbind_def split: prod.splits sum.splits)

lemma rcheck_Inr_iff [run_simps]: "rcheck b s = (Inr y, s') \<longleftrightarrow> b \<and> s' = s"
  by (auto simp: rcheck_def)

lemma rlift_Inr_iff [run_simps]: "rlift m s = (Inr y, s') \<longleftrightarrow> m = Inr y \<and> s' = s"
  by (auto simp: rlift_def split: sum.splits)

lemma rret_Inr_iff [run_simps]: "rret x s = (Inr y, s') \<longleftrightarrow> y = x \<and> s' = s"
  by auto

lemma rget_Inr_iff [run_simps]: "rget g s = (Inr y, s') \<longleftrightarrow> y = g s \<and> s' = s"
  by auto

lemma rput_Inr_iff [run_simps]: "rput g s = (Inr y, s') \<longleftrightarrow> s' = g s"
  by auto

lemma rfail_Inr_iff [run_simps]: "rfail s = (Inr y, s') \<longleftrightarrow> False"
  by auto

lemma decode_service_run [run_simps]:
  "decode_service rt x s = (Inr y, s') \<longleftrightarrow> validate_service rt x \<and> y = x \<and> s' = s"
  by (auto simp: decode_service_def run_simps)

lemma get_service_run [run_simps]:
  "get_service rt p u s = (Inr y, s') \<longleftrightarrow>
     s' = s \<and> y = service_row p u s \<and> (\<forall>x. service_row p u s = Some x \<longrightarrow> validate_service rt x)"
  by (auto simp: get_service_def decode_optional_def run_simps split: option.splits)

lemma find_domain_run [run_simps]:
  "find_domain rt p d s = (Inr y, s') \<longleftrightarrow> s' = s \<and>
     y = List.find (\<lambda>s. sv_principal_id s = p \<and> sv_domain_name s = d) (rg_services s) \<and>
     (\<forall>x. y = Some x \<longrightarrow> validate_service rt x)"
  by (auto simp: find_domain_def decode_optional_def run_simps split: option.splits)

lemma decode_services_run [run_simps]:
  "decode_services rt xs s = (Inr ys, s') \<longleftrightarrow> s' = s \<and> ys = xs \<and> (\<forall>x \<in> set xs. validate_service rt x)"
  by (induction xs arbitrary: ys) (auto simp: run_simps)

lemma decode_lifecycle_intent_run [run_simps]:
  "decode_lifecycle_intent rt c s = (Inr i, s') \<longleftrightarrow> s' = s \<and>
     (\<exists>e ph. cl_intent c = Some (LifecycleDocument e) \<and> phase_from_column (cl_phase c) = Some ph \<and>
        i = intent_from_row e ph c \<and> intent_spec rt i \<and> le_principal_id e = cl_principal_id c \<and>
        le_service_id e = cl_service_id c \<and> lifecycle_claim_kind (le_kind e) = cl_kind c)"
  by (auto simp: decode_lifecycle_intent_def run_simps make_lifecycle_intent_iff
      split: option.splits intent_document.splits)

lemma decode_result_run [run_simps]:
  "decode_result rt d p u s = (Inr y, s') \<longleftrightarrow> s' = s \<and> d = Some (ServiceDocument y) \<and>
     validate_service rt y \<and> sv_principal_id y = p \<and> sv_service_id y = u"
  by (auto simp: decode_result_def run_simps split: option.splits result_document.splits)

lemma decode_legacy_result_run [run_simps]:
  "decode_legacy_result rt d p u s = (Inr y, s') \<longleftrightarrow> s' = s \<and> d = Some (LegacyServiceDocument y) \<and>
     validate_service rt y \<and> r1_service y \<and> sv_principal_id y = p \<and> sv_service_id y = u"
  by (auto simp: decode_legacy_result_def run_simps split: option.splits result_document.splits)

lemma decode_authority_intent_run [run_simps]:
  "decode_authority_intent rt c s = (Inr i, s') \<longleftrightarrow>
     s' = s \<and> cl_intent c = Some (AuthorityDocument i) \<and> ai_ok rt i"
  by (auto simp: decode_authority_intent_def run_simps split: option.splits intent_document.splits)

lemma decode_authority_result_run [run_simps]:
  "decode_authority_result rt c i s = (Inr v, s') \<longleftrightarrow>
     s' = s \<and> cl_result c = Some (AuthorityResultDocument v) \<and> authority_result_ok rt v \<and>
     completed_registry_ok i v"
  by (auto simp: decode_authority_result_def run_simps split: option.splits result_document.splits)

lemma insert_claim_run [run_simps]:
  "insert_claim c s = (Inr u, s') \<longleftrightarrow>
     claim_columns_ok c \<and> claim_shape_ok c \<and>
     (\<forall>x \<in> set (rg_claims s). \<not> (cl_principal_id x = cl_principal_id c \<and>
        cl_idempotency_key x = cl_idempotency_key c)) \<and>
     (active_phase (cl_phase c) \<longrightarrow>
        (\<forall>x \<in> set (rg_claims s). active_phase (cl_phase x) \<longrightarrow> active_key x \<noteq> active_key c)) \<and>
     s' = s\<lparr>rg_claims := rg_claims s @ [c]\<rparr>"
  by (auto simp: insert_claim_def run_simps)

lemma update_prepared_run [run_simps]:
  "update_prepared p key fp f s = (Inr u, s') \<longleftrightarrow>
     (\<forall>c \<in> set (rg_claims s). prepared_row p key fp c \<longrightarrow> claim_shape_ok (f c)) \<and>
     rowcount (prepared_row p key fp) (rg_claims s) = 1 \<and>
     s' = s\<lparr>rg_claims := update_where (prepared_row p key fp) f (rg_claims s)\<rparr>"
  by (auto simp: update_prepared_def run_simps)

lemma append_audit_run [run_simps]:
  "append_audit k out u p via t s = (Inr x, s') \<longleftrightarrow> audit_pair_ok k out \<and>
     s' = s\<lparr>rg_audits := trim_audits p (rg_audits s @
       [\<lparr>au_audit_id = next_audit_id (rg_audits s), au_action = k, au_outcome = out,
         au_service_id = u, au_principal_id = p, au_created_via = via, au_at = t\<rparr>])\<rparr>"
  by (auto simp: append_audit_def run_simps)

lemma insert_service_run [run_simps]:
  "insert_service rt x s = (Inr u, s') \<longleftrightarrow> validate_service rt x \<and>
     (\<forall>y \<in> set (rg_services s). sv_service_id y \<noteq> sv_service_id x \<and>
        \<not> (sv_principal_id y = sv_principal_id x \<and> sv_domain_name y = sv_domain_name x)) \<and>
     s' = s\<lparr>rg_services := rg_services s @ [x]\<rparr>"
  by (auto simp: insert_service_def run_simps)

lemma insert_identity_run [run_simps]:
  "insert_identity i s = (Inr u, s') \<longleftrightarrow>
     (\<forall>x \<in> set (rg_identities s). iy_service_id x \<noteq> iy_service_id i \<and>
        iy_storage_namespace x \<noteq> iy_storage_namespace i \<and>
        \<not> (iy_state x \<noteq> IdentityTombstoned \<and> iy_state i \<noteq> IdentityTombstoned \<and>
           iy_principal_id x = iy_principal_id i \<and> iy_domain_name x = iy_domain_name i)) \<and>
     s' = s\<lparr>rg_identities := rg_identities s @ [i]\<rparr>"
  by (auto simp: insert_identity_def run_simps)

lemma update_live_identity_run [run_simps]:
  "update_live_identity x s = (Inr u, s') \<longleftrightarrow>
     (\<forall>y \<in> set (rg_identities s). live_domain (sv_principal_id x) (sv_domain_name x) y \<longrightarrow>
         owned_live x y) \<and>
     rowcount (owned_live x) (rg_identities s) = 1 \<and>
     s' = s\<lparr>rg_identities := update_where (owned_live x)
       (\<lambda>i. i\<lparr>iy_domain_name := Some (sv_domain_name x),
              iy_storage_backend := storage_backend_of x\<rparr>) (rg_identities s)\<rparr>"
  by (auto simp: update_live_identity_def run_simps)

section \<open>The invariant\<close>

text \<open>Services and identities: rows are valid, identities are unique, and the live identities are
  exactly those of the service rows.\<close>

definition services_inv :: "runtime \<Rightarrow> service list \<Rightarrow> identity_row list \<Rightarrow> bool" where
  "services_inv rt ss is \<longleftrightarrow>
     (\<forall>s \<in> set ss. validate_service rt s) \<and> distinct (map sv_service_id ss) \<and>
     distinct (map (\<lambda>s. (sv_principal_id s, sv_domain_name s)) ss) \<and>
     distinct (map iy_service_id is) \<and>
     (\<forall>s \<in> set ss. live_identity s \<in> set is) \<and>
     (\<forall>i \<in> set is. iy_state i = IdentityLive \<longrightarrow> i \<in> live_identity ` set ss) \<and>
     (\<forall>i \<in> set is. iy_storage_namespace i = svc_namespace (iy_service_id i)) \<and>
     (\<forall>i \<in> set is. iy_state i \<noteq> IdentityTombstoned \<longrightarrow> iy_domain_name i \<noteq> None) \<and>
     distinct (map (\<lambda>i. (iy_principal_id i, iy_domain_name i))
       (filter (\<lambda>i. iy_state i \<noteq> IdentityTombstoned) is))"

text \<open>Every claim row decodes to the evidence its columns announce.\<close>

definition lifecycle_row_ok :: "runtime \<Rightarrow> claim_row \<Rightarrow> bool" where
  "lifecycle_row_ok rt c \<longleftrightarrow>
     (\<exists>e ph. cl_intent c = Some (LifecycleDocument e) \<and> phase_from_column (cl_phase c) = Some ph \<and>
        intent_spec rt (intent_from_row e ph c) \<and> le_principal_id e = cl_principal_id c \<and>
        le_service_id e = cl_service_id c \<and> lifecycle_claim_kind (le_kind e) = cl_kind c \<and>
        (ph = Completed \<longrightarrow> (\<exists>s. cl_result c = Some (ServiceDocument s) \<and> validate_service rt s \<and>
           completed_lifecycle_ok (intent_from_row e ph c) s)))"

definition authority_row_ok :: "runtime \<Rightarrow> claim_row \<Rightarrow> bool" where
  "authority_row_ok rt c \<longleftrightarrow>
     (\<exists>i. cl_intent c = Some (AuthorityDocument i) \<and> ai_ok rt i \<and> authority_row_matches c i \<and>
        (ai_phase i = Completed \<longrightarrow> (\<exists>v. cl_result c = Some (AuthorityResultDocument v) \<and>
           authority_result_ok rt v \<and> completed_registry_ok i v)))"

definition completion_row_ok :: "runtime \<Rightarrow> claim_row \<Rightarrow> bool" where
  "completion_row_ok rt c \<longleftrightarrow>
     (\<exists>s. cl_result c = Some (if cl_kind c = KLegacy then LegacyServiceDocument s
          else ServiceDocument s) \<and> validate_service rt s \<and>
        sv_principal_id s = cl_principal_id c \<and> sv_service_id s = cl_service_id c \<and>
        (cl_kind c = KLegacy \<longrightarrow> r1_service s))"

definition claim_ok :: "runtime \<Rightarrow> claim_row \<Rightarrow> bool" where
  "claim_ok rt c \<longleftrightarrow> claim_shape_ok c \<and>
     (cl_phase c \<noteq> PhaseTombstoned \<longrightarrow>
        (if non_lifecycle_row_kind (cl_kind c) then completion_row_ok rt c
         else if cl_kind c \<in> {KMaterialise, KEvolve} then lifecycle_row_ok rt c
         else authority_row_ok rt c))"

definition claim_key :: "claim_row \<Rightarrow> pystr \<times> pystr" where
  "claim_key c = (cl_principal_id c, cl_idempotency_key c)"

definition claims_inv :: "runtime \<Rightarrow> claim_row list \<Rightarrow> bool" where
  "claims_inv rt cs \<longleftrightarrow>
     distinct (map claim_key cs) \<and> (\<forall>c \<in> set cs. claim_ok rt c) \<and>
     distinct (map active_key (filter (\<lambda>c. active_phase (cl_phase c)) cs))"

definition audits_inv :: "audit_row list \<Rightarrow> bool" where
  "audits_inv as \<longleftrightarrow> sorted_wrt (<) (map au_audit_id as) \<and>
     (\<forall>p. rowcount (\<lambda>a. au_principal_id a = p) as \<le> 1000)"

definition registry_inv :: "runtime \<Rightarrow> registry \<Rightarrow> bool" where
  "registry_inv rt r \<longleftrightarrow>
     services_inv rt (rg_services r) (rg_identities r) \<and> claims_inv rt (rg_claims r) \<and>
     audits_inv (rg_audits r)"

lemma empty_registry_inv: "registry_inv rt empty_registry"
  by (simp add: registry_inv_def empty_registry_def services_inv_def claims_inv_def audits_inv_def
      rowcount_def)

section \<open>Audit retention\<close>

lemma next_audit_id_greater: "a \<in> set rows \<Longrightarrow> au_audit_id a < next_audit_id rows"
  by (auto simp: next_audit_id_def less_Suc_eq_le)

lemma rowcount_append: "rowcount p (xs @ ys) = rowcount p xs + rowcount p ys"
  by (simp add: rowcount_def)

lemma length_filter_filter_le: "length (filter r (filter t xs)) \<le> length (filter r xs)"
  by (induction xs) auto

lemma sorted_wrt_map_filter:
  "sorted_wrt R (map f xs) \<Longrightarrow> sorted_wrt R (map f (filter q xs))"
  by (induction xs) auto

lemma trim_sorted:
  "sorted_wrt (<) (map au_audit_id rows) \<Longrightarrow> sorted_wrt (<) (map au_audit_id (trim_audits p rows))"
  unfolding trim_audits_def delete_where_def by (rule sorted_wrt_map_filter)

text \<open>Where the ids increase, the rows that are not trimmed are the last thousand.\<close>

lemma trim_bound:
  assumes "sorted_wrt (<) (map au_audit_id rows)"
  shows "rowcount (\<lambda>a. au_principal_id a = p) (trim_audits p rows) \<le> 1000"
proof -
  let ?q = "\<lambda>a. au_principal_id a = p"
  let ?kept = "filter ?q (trim_audits p rows)"
  show ?thesis
  proof (rule ccontr)
    assume "\<not> ?thesis"
    then have long: "1000 < length ?kept" by (simp add: rowcount_def)
    then obtain a as where kept: "?kept = a # as" by (cases ?kept) auto
    have a: "a \<in> set ?kept" using kept by simp
    have sorted: "sorted_wrt (<) (map au_audit_id ?kept)"
      by (rule sorted_wrt_map_filter) (rule trim_sorted [OF assms])
    then have newer: "\<forall>b \<in> set as. au_audit_id a < au_audit_id b" using kept by simp
    have sub: "filter (\<lambda>b. ?q b \<and> au_audit_id b > au_audit_id a) (trim_audits p rows) = as"
    proof -
      have "filter (\<lambda>b. ?q b \<and> au_audit_id b > au_audit_id a) (trim_audits p rows) =
          filter (\<lambda>b. au_audit_id b > au_audit_id a) ?kept" by (simp add: conj_commute)
      also have "\<dots> = as" unfolding kept using newer by simp
      finally show ?thesis .
    qed
    have "length as = rowcount (\<lambda>b. ?q b \<and> au_audit_id b > au_audit_id a) (trim_audits p rows)"
      unfolding rowcount_def sub ..
    also have "\<dots> \<le> rowcount (\<lambda>b. ?q b \<and> au_audit_id b > au_audit_id a) rows"
      unfolding rowcount_def trim_audits_def delete_where_def by (rule length_filter_filter_le)
    finally have "length as \<le> rowcount (\<lambda>b. ?q b \<and> au_audit_id b > au_audit_id a) rows" .
    moreover have "1000 \<le> length as" using long kept by simp
    ultimately have "1000 \<le> rowcount (\<lambda>b. ?q b \<and> au_audit_id b > au_audit_id a) rows" by simp
    moreover have "au_principal_id a = p" using a by simp
    ultimately have "a \<notin> set (trim_audits p rows)"
      by (simp add: trim_audits_def set_delete_where)
    with a show False by simp
  qed
qed

lemma append_audit_keeps:
  assumes inv: "audits_inv as" and id: "au_audit_id a = next_audit_id as"
    and p: "au_principal_id a = p"
  shows "audits_inv (trim_audits p (as @ [a]))"
proof -
  have s: "sorted_wrt (<) (map au_audit_id (as @ [a]))"
    using inv id next_audit_id_greater by (auto simp: audits_inv_def sorted_wrt_append)
  have "rowcount (\<lambda>x. au_principal_id x = q) (trim_audits p (as @ [a])) \<le> 1000" for q
  proof (cases "q = p")
    case False
    have "rowcount (\<lambda>x. au_principal_id x = q) (trim_audits p (as @ [a])) \<le>
        rowcount (\<lambda>x. au_principal_id x = q) (as @ [a])"
      unfolding rowcount_def trim_audits_def delete_where_def by (rule length_filter_filter_le)
    also have "\<dots> = rowcount (\<lambda>x. au_principal_id x = q) as"
      using False p by (simp add: rowcount_def)
    finally show ?thesis using inv by (auto simp: audits_inv_def intro: order_trans)
  qed (use trim_bound [OF s] in simp)
  with trim_sorted [OF s] show ?thesis by (simp add: audits_inv_def)
qed

end
