(* ===== verification/Registry_Services.thy ===== *)
theory Registry_Services
  imports Registry_Inv
begin

text \<open>
  The service and identity tables under the invariant: inserting a service, the
  compare-and-swap \<open>save\<close>, publishing an import and purging. Under the invariant a save that
  keeps the domain is either stale, and changes nothing, or replaces exactly the row of the
  expected revision together with its live identity.
\<close>

lemma unique_by_key: "distinct (map k xs) \<Longrightarrow> x \<in> set xs \<Longrightarrow> y \<in> set xs \<Longrightarrow> k x = k y \<Longrightarrow> x = y"
  by (auto simp: distinct_map inj_on_def)

lemma live_identity_simps [simp]:
  "iy_service_id (live_identity s) = sv_service_id s"
  "iy_principal_id (live_identity s) = sv_principal_id s"
  "iy_state (live_identity s) = IdentityLive"
  "iy_domain_name (live_identity s) = Some (sv_domain_name s)"
  "iy_storage_backend (live_identity s) = storage_backend_of s"
  "iy_storage_namespace (live_identity s) = svc_namespace (sv_service_id s)"
  "iy_claim_key (live_identity s) = None" "iy_lifecycle_at (live_identity s) = None"
  by (simp_all add: live_identity_def)

lemma services_invD:
  assumes "services_inv rt ss is"
  shows "\<And>s. s \<in> set ss \<Longrightarrow> validate_service rt s" "distinct (map sv_service_id ss)"
    "distinct (map iy_service_id is)" "\<And>s. s \<in> set ss \<Longrightarrow> live_identity s \<in> set is"
    "\<And>i. i \<in> set is \<Longrightarrow> iy_state i = IdentityLive \<Longrightarrow> i \<in> live_identity ` set ss"
    "distinct (map (\<lambda>s. (sv_principal_id s, sv_domain_name s)) ss)"
    "\<And>i. i \<in> set is \<Longrightarrow> iy_storage_namespace i = svc_namespace (iy_service_id i)"
    "distinct (map (\<lambda>i. (iy_principal_id i, iy_domain_name i))
       (filter (\<lambda>i. iy_state i \<noteq> IdentityTombstoned) is))"
    "\<And>i. i \<in> set is \<Longrightarrow> iy_state i \<noteq> IdentityTombstoned \<Longrightarrow> iy_domain_name i \<noteq> None"
  using assms by (simp_all add: services_inv_def)

lemma identity_of_service:
  assumes inv: "services_inv rt ss is" and s: "s \<in> set ss" and i: "i \<in> set is"
    and id: "iy_service_id i = sv_service_id s"
  shows "i = live_identity s"
  using unique_by_key [OF services_invD(3) [OF inv] i services_invD(4) [OF inv s]] id by simp

text \<open>A service row excludes a reservation or a tombstone of the same id.\<close>

lemma service_is_live:
  assumes "services_inv rt ss is" "s \<in> set ss" "i \<in> set is" "iy_service_id i = sv_service_id s"
  shows "iy_state i = IdentityLive" "iy_principal_id i = sv_principal_id s"
  using identity_of_service [OF assms] by simp_all

lemma service_row_Some:
  "service_row p u r = Some s \<Longrightarrow>
     s \<in> set (rg_services r) \<and> sv_principal_id s = p \<and> sv_service_id s = u"
  by (auto simp: service_row_def dest: find_Some_iff_first)

lemma service_row_iff:
  assumes "services_inv rt (rg_services r) is"
  shows "service_row p u r = Some s \<longleftrightarrow>
     s \<in> set (rg_services r) \<and> sv_principal_id s = p \<and> sv_service_id s = u"
proof
  assume *: "s \<in> set (rg_services r) \<and> sv_principal_id s = p \<and> sv_service_id s = u"
  then have "service_row p u r \<noteq> None" by (auto simp: service_row_def find_None_iff)
  then obtain t where t: "service_row p u r = Some t" by blast
  then have "t = s"
    using * unique_by_key [OF services_invD(2) [OF assms], of t s] by (auto dest: service_row_Some)
  with t show "service_row p u r = Some s" by simp
qed (rule service_row_Some)

section \<open>Adding a service\<close>

lemma add_service_keeps:
  assumes inv: "services_inv rt (rg_services r) (rg_identities r)"
    and run: "add_service rt s r = (Inr u, r')"
  shows "services_inv rt (rg_services r') (rg_identities r')"
proof -
  from run have new: "validate_service rt s"
      "\<forall>y \<in> set (rg_services r). sv_service_id y \<noteq> sv_service_id s \<and>
         \<not> (sv_principal_id y = sv_principal_id s \<and> sv_domain_name y = sv_domain_name s)"
      "\<forall>x \<in> set (rg_identities r). iy_service_id x \<noteq> sv_service_id s \<and>
        \<not> (iy_state x \<noteq> IdentityTombstoned \<and> iy_principal_id x = sv_principal_id s \<and>
           iy_domain_name x = Some (sv_domain_name s))"
    and r': "r' = r\<lparr>rg_services := rg_services r @ [s],
                   rg_identities := rg_identities r @ [live_identity s]\<rparr>"
    by (auto simp: add_service_def run_simps)
  from inv new show ?thesis unfolding services_inv_def r' by (auto simp: image_iff)
qed

section \<open>Compare and swap\<close>

definition swap_service :: "service \<Rightarrow> registry \<Rightarrow> registry" where
  "swap_service s r = r\<lparr>
     rg_services := update_where (\<lambda>x. sv_service_id x = sv_service_id s) (\<lambda>_. s) (rg_services r),
     rg_identities := update_where (\<lambda>i. iy_service_id i = sv_service_id s) (\<lambda>_. live_identity s)
       (rg_identities r)\<rparr>"

lemma update_where_cong:
  "(\<And>x. x \<in> set xs \<Longrightarrow> p x = q x) \<Longrightarrow> (\<And>x. x \<in> set xs \<Longrightarrow> p x \<Longrightarrow> f x = g x) \<Longrightarrow>
   update_where p f xs = update_where q g xs"
  by (simp add: update_where_def)

lemma save_service_run:
  assumes inv: "services_inv rt (rg_services r) (rg_identities r)"
  shows "save_service rt s e r = (Inr out, r') \<longleftrightarrow>
    1 \<le> e \<and> e < MAX_SERVICE_REVISION \<and> sv_service_revision s = e + 1 \<and> validate_service rt s \<and>
    (if \<exists>old. service_row (sv_principal_id s) (sv_service_id s) r = Some old \<and>
          sv_service_revision old = e
     then out = Saved \<and> r' = swap_service s r \<and>
       (\<forall>x \<in> set (rg_services r). sv_principal_id x = sv_principal_id s \<and>
           sv_domain_name x = sv_domain_name s \<longrightarrow> sv_service_id x = sv_service_id s) \<and>
       (\<forall>i \<in> set (rg_identities r). live_domain (sv_principal_id s) (sv_domain_name s) i \<longrightarrow>
           iy_service_id i = sv_service_id s)
     else out = StaleSave \<and> r' = r)"
proof -
  let ?t = "\<lambda>x. sv_service_id x = sv_service_id s \<and> sv_principal_id x = sv_principal_id s \<and>
    sv_service_revision x = e"
  have n: "rowcount ?t (rg_services r) = 0 \<longleftrightarrow>
      \<not> (\<exists>old. service_row (sv_principal_id s) (sv_service_id s) r = Some old \<and>
           sv_service_revision old = e)"
    using service_row_iff [OF inv] by (auto simp: rowcount_0_iff)
  show ?thesis
  proof (cases "rowcount ?t (rg_services r) = 0")
    case True
    then show ?thesis using n by (auto simp: save_service_def run_simps Let_def)
  next
    case False
    then obtain old where old: "old \<in> set (rg_services r)" "?t old"
      by (auto simp: rowcount_0_iff)
    have uniq: "x = old" if "x \<in> set (rg_services r)" "sv_service_id x = sv_service_id s" for x
      using unique_by_key [OF services_invD(2) [OF inv] that(1) old(1)] that(2) old(2) by simp
    have tgt: "?t x \<longleftrightarrow> sv_service_id x = sv_service_id s" if "x \<in> set (rg_services r)" for x
      using uniq [OF that] old(2) by auto
    have one: "rowcount ?t (rg_services r) = 1"
      by (rule rowcount_1_iff_find [THEN iffD2, OF services_invD(2) [OF inv]])
        (use old in auto)
    have own: "owned_live s i \<longleftrightarrow> iy_service_id i = sv_service_id s"
      if "i \<in> set (rg_identities r)" for i
      using identity_of_service [OF inv old(1) that] old(2) by (auto simp: owned_live_def)
    have mem: "live_identity old \<in> set (rg_identities r)" by (rule services_invD(4) [OF inv old(1)])
    have one_i: "rowcount (owned_live s) (rg_identities r) = 1"
    proof (rule rowcount_1_iff_find [THEN iffD2, OF services_invD(3) [OF inv], of _ "sv_service_id s"])
      show "\<exists>x \<in> set (rg_identities r). owned_live s x"
        using mem old(2) by (intro bexI [of _ "live_identity old"]) (simp_all add: owned_live_def)
    qed (simp add: owned_live_def)
    have ident: "update_where (owned_live s) (\<lambda>i. i\<lparr>iy_domain_name := Some (sv_domain_name s),
          iy_storage_backend := storage_backend_of s\<rparr>) (rg_identities r) =
        update_where (\<lambda>i. iy_service_id i = sv_service_id s) (\<lambda>_. live_identity s) (rg_identities r)"
    proof (rule update_where_cong)
      fix i assume i: "i \<in> set (rg_identities r)" "owned_live s i"
      then have "i = live_identity old"
        using identity_of_service [OF inv old(1), of i] old(2) by (simp add: owned_live_def)
      with old(2) show "i\<lparr>iy_domain_name := Some (sv_domain_name s),
          iy_storage_backend := storage_backend_of s\<rparr> = live_identity s"
        by (simp add: live_identity_def)
    qed (rule own)
    have serv: "update_where ?t (\<lambda>_. s) (rg_services r) =
        update_where (\<lambda>x. sv_service_id x = sv_service_id s) (\<lambda>_. s) (rg_services r)"
      by (rule update_where_cong) (simp_all add: tgt)
    have ex: "\<exists>old. service_row (sv_principal_id s) (sv_service_id s) r = Some old \<and>
           sv_service_revision old = e" using n False by simp
    have dom: "(\<forall>x \<in> set (rg_services r). sv_principal_id x = sv_principal_id s \<and>
             sv_domain_name x = sv_domain_name s \<longrightarrow> ?t x) \<longleftrightarrow>
        (\<forall>x \<in> set (rg_services r). sv_principal_id x = sv_principal_id s \<and>
             sv_domain_name x = sv_domain_name s \<longrightarrow> sv_service_id x = sv_service_id s)"
      using tgt by blast
    have live: "(\<forall>i \<in> set (rg_identities r). live_domain (sv_principal_id s) (sv_domain_name s) i \<longrightarrow>
           owned_live s i) \<longleftrightarrow>
        (\<forall>i \<in> set (rg_identities r). live_domain (sv_principal_id s) (sv_domain_name s) i \<longrightarrow>
           iy_service_id i = sv_service_id s)"
      using own by blast
    show ?thesis
      unfolding save_service_def Let_def
      using one one_i ex
      by (simp add: run_simps serv ident dom live swap_service_def if_distribR cong: conj_cong)
        (use tgt in \<open>auto simp: ident\<close>)
  qed
qed

end
