(* ===== verification/Registry_Keeps.thy ===== *)
theory Registry_Keeps
  imports Registry_Services
begin

text \<open>
  Preservation of the three parts of the registry invariant by the writes of the unit of work:
  the compare-and-swap of a service, the reservation, publication and tombstoning of an
  identity, the insertion of a claim and its single transition out of the prepared phase.
\<close>

section \<open>Keyed rows\<close>

lemma distinct_key_update:
  assumes "distinct (map i xs)" and "distinct (map k xs)" and u: "i s = u"
    and fresh: "\<And>x. x \<in> set xs \<Longrightarrow> k x = k s \<Longrightarrow> i x = u"
  shows "distinct (map k (update_where (\<lambda>x. i x = u) (\<lambda>_. s) xs))"
  using assms(1,2) fresh
proof (induction xs)
  case (Cons x xs)
  let ?g = "\<lambda>x. if i x = u then s else x"
  have "k (?g x) \<notin> (\<lambda>x. k (?g x)) ` set xs"
  proof
    assume "k (?g x) \<in> (\<lambda>x. k (?g x)) ` set xs"
    then obtain y where y: "y \<in> set xs" "k (?g x) = k (?g y)" by blast
    have "i y \<noteq> i x" "k y \<noteq> k x" using y(1) Cons.prems(1,2) by (auto simp: rev_image_eqI)
    with y Cons.prems(3) [of x] Cons.prems(3) [of y] show False
      by (cases "i x = u"; cases "i y = u") simp_all
  qed
  moreover have "distinct (map (\<lambda>x. k (?g x)) xs)"
    using Cons by (simp add: update_where_def o_def)
  ultimately show ?case by (simp add: update_where_def o_def image_image)
qed simp

lemma filter_update_where:
  assumes "\<And>x. x \<in> set xs \<Longrightarrow> q x \<Longrightarrow> P x \<and> P (f x)"
  shows "filter P (update_where q f xs) = update_where q f (filter P xs)"
  using assms by (induction xs) (auto simp: update_where_def)

section \<open>Compare and swap\<close>

lemma swap_service_keeps:
  assumes inv: "services_inv rt (rg_services r) (rg_identities r)"
    and old: "old \<in> set (rg_services r)" "sv_service_id old = sv_service_id s"
    and valid: "validate_service rt s"
    and dom: "\<forall>x \<in> set (rg_services r). sv_principal_id x = sv_principal_id s \<and>
        sv_domain_name x = sv_domain_name s \<longrightarrow> sv_service_id x = sv_service_id s"
    and live: "\<forall>i \<in> set (rg_identities r).
        live_domain (sv_principal_id s) (sv_domain_name s) i \<longrightarrow> iy_service_id i = sv_service_id s"
  shows "services_inv rt (rg_services (swap_service s r)) (rg_identities (swap_service s r))"
proof -
  let ?q = "\<lambda>i. iy_service_id i = sv_service_id s"
  let ?is = "update_where ?q (\<lambda>_. live_identity s) (rg_identities r)"
  let ?ss = "update_where (\<lambda>x. sv_service_id x = sv_service_id s) (\<lambda>_. s) (rg_services r)"
  note d = services_invD [OF inv]
  have st: "iy_state i = IdentityLive" if "i \<in> set (rg_identities r)" "?q i" for i
    using service_is_live [OF inv old(1) that(1)] that(2) old(2) by simp
  have keys: "map sv_service_id ?ss = map sv_service_id (rg_services r)"
    "map iy_service_id ?is = map iy_service_id (rg_identities r)"
    by (auto simp: update_where_def)
  have "filter (\<lambda>i. iy_state i \<noteq> IdentityTombstoned) ?is =
      update_where ?q (\<lambda>_. live_identity s)
        (filter (\<lambda>i. iy_state i \<noteq> IdentityTombstoned) (rg_identities r))"
    by (rule filter_update_where) (simp add: st)
  then have di: "distinct (map (\<lambda>i. (iy_principal_id i, iy_domain_name i))
      (filter (\<lambda>i. iy_state i \<noteq> IdentityTombstoned) ?is))"
    using distinct_key_update [of iy_service_id "filter (\<lambda>i. iy_state i \<noteq> IdentityTombstoned) (rg_identities r)"
        "\<lambda>i. (iy_principal_id i, iy_domain_name i)" "live_identity s" "sv_service_id s"]
      d(3,8) live by (simp add: distinct_map_filter live_domain_def)
  have ds: "distinct (map (\<lambda>s. (sv_principal_id s, sv_domain_name s)) ?ss)"
    by (rule distinct_key_update [OF d(2,6)]) (use dom in auto)
  have "live_identity x \<in> set ?is" if "x \<in> set ?ss" for x
  proof (cases "x = s")
    case True
    then show ?thesis
      using d(4) [OF old(1)] old(2) by (force simp: set_update_where)
  next
    case False
    then have "x \<in> set (rg_services r)" "sv_service_id x \<noteq> sv_service_id s"
      using that by (auto simp: set_update_where split: if_splits)
    then show ?thesis using d(4) by (force simp: set_update_where)
  qed
  moreover have "i \<in> live_identity ` set ?ss" if i: "i \<in> set ?is" "iy_state i = IdentityLive" for i
  proof (cases "i = live_identity s")
    case True
    then show ?thesis using old by (force simp: set_update_where)
  next
    case False
    then have "i \<in> set (rg_identities r)" "iy_service_id i \<noteq> sv_service_id s"
      using i(1) by (auto simp: set_update_where split: if_splits)
    then obtain x where "x \<in> set (rg_services r)" "i = live_identity x" using d(5) i(2) by auto
    with \<open>iy_service_id i \<noteq> sv_service_id s\<close> show ?thesis by (force simp: set_update_where)
  qed
  ultimately show ?thesis
    unfolding services_inv_def swap_service_def
    using d(1,2,3,7,9) di ds valid by (auto simp: keys set_update_where)
qed

section \<open>Identities of imports and purges\<close>

lemma reserve_identity_keeps:
  assumes inv: "services_inv rt ss is"
    and new: "\<forall>x \<in> set is. iy_service_id x \<noteq> iy_service_id i \<and>
        \<not> (iy_state x \<noteq> IdentityTombstoned \<and> iy_principal_id x = iy_principal_id i \<and>
           iy_domain_name x = iy_domain_name i)"
    and i: "iy_state i = IdentityImportPrepared" "iy_domain_name i \<noteq> None"
      "iy_storage_namespace i = svc_namespace (iy_service_id i)"
  shows "services_inv rt ss (is @ [i])"
  using services_invD [OF inv] new i unfolding services_inv_def by (auto simp: image_iff)

text \<open>Publishing replaces the reservation by the live identity of the new service.\<close>

lemma publish_keeps:
  assumes inv: "services_inv rt ss is" and res: "res \<in> set is"
    and st: "iy_state res = IdentityImportPrepared"
    and key: "iy_service_id res = sv_service_id s" "iy_principal_id res = sv_principal_id s"
      "iy_domain_name res = Some (sv_domain_name s)"
    and valid: "validate_service rt s"
    and new: "\<forall>x \<in> set ss. sv_service_id x \<noteq> sv_service_id s \<and>
        \<not> (sv_principal_id x = sv_principal_id s \<and> sv_domain_name x = sv_domain_name s)"
  shows "services_inv rt (ss @ [s])
    (update_where (\<lambda>x. iy_service_id x = sv_service_id s) (\<lambda>_. live_identity s) is)"
proof -
  let ?q = "\<lambda>i. iy_service_id i = sv_service_id s"
  let ?is = "update_where ?q (\<lambda>_. live_identity s) is"
  note d = services_invD [OF inv]
  have only: "x = res" if "x \<in> set is" "?q x" for x
    using unique_by_key [OF d(3) that(1) res] that(2) key(1) by simp
  have "filter (\<lambda>i. iy_state i \<noteq> IdentityTombstoned) ?is =
      update_where ?q (\<lambda>_. live_identity s) (filter (\<lambda>i. iy_state i \<noteq> IdentityTombstoned) is)"
    by (rule filter_update_where) (use only st in auto)
  moreover have "iy_service_id x = sv_service_id s"
    if "x \<in> set (filter (\<lambda>i. iy_state i \<noteq> IdentityTombstoned) is)"
      "(iy_principal_id x, iy_domain_name x) =
       (iy_principal_id (live_identity s), iy_domain_name (live_identity s))" for x
  proof -
    have "x = res"
      by (rule unique_by_key [OF d(8) that(1)]) (use res st key that(2) in auto)
    then show ?thesis using key(1) by simp
  qed
  ultimately have di: "distinct (map (\<lambda>i. (iy_principal_id i, iy_domain_name i))
      (filter (\<lambda>i. iy_state i \<noteq> IdentityTombstoned) ?is))"
    using distinct_key_update [of iy_service_id "filter (\<lambda>i. iy_state i \<noteq> IdentityTombstoned) is"
        "\<lambda>i. (iy_principal_id i, iy_domain_name i)" "live_identity s" "sv_service_id s"]
      d(3,8) by (simp add: distinct_map_filter)
  have ids: "map iy_service_id ?is = map iy_service_id is" by (auto simp: update_where_def)
  have "live_identity x \<in> set ?is" if "x \<in> set (ss @ [s])" for x
    using that d(4) [of x] new res key(1) by (force simp: set_update_where)
  moreover have "i \<in> live_identity ` set (ss @ [s])" if "i \<in> set ?is" "iy_state i = IdentityLive" for i
    using that d(5) by (auto simp: set_update_where split: if_splits)
  ultimately show ?thesis
    unfolding services_inv_def using d(1,2,3,6,7,9) di new valid
    by (auto simp: ids set_update_where)
qed

lemma publish_identity_eq:
  assumes inv: "services_inv rt ss is" and res: "res \<in> set is"
    and ok: "reserved_identity i s res" "iy_domain_name res = Some (sv_domain_name s)"
  shows "update_where (reserved_identity i s)
         (\<lambda>x. x\<lparr>iy_state := IdentityLive, iy_storage_backend := storage_backend_of s,
               iy_claim_key := None, iy_lifecycle_at := None\<rparr>) is =
    update_where (\<lambda>x. iy_service_id x = sv_service_id s) (\<lambda>_. live_identity s) is"
proof (rule update_where_cong)
  note d = services_invD [OF inv]
  have only: "x = res" if "x \<in> set is" "iy_service_id x = sv_service_id s" for x
    using unique_by_key [OF d(3) that(1) res] that(2) ok(1) by (simp add: reserved_identity_def)
  fix x assume x: "x \<in> set is"
  show "reserved_identity i s x \<longleftrightarrow> iy_service_id x = sv_service_id s"
    using only [OF x] ok(1) by (auto simp: reserved_identity_def)
  assume "reserved_identity i s x"
  then show "x\<lparr>iy_state := IdentityLive, iy_storage_backend := storage_backend_of s,
      iy_claim_key := None, iy_lifecycle_at := None\<rparr> = live_identity s"
    using only [OF x] ok d(7) [OF res] by (simp add: live_identity_def reserved_identity_def)
qed

lemma distinct_filter_update:
  assumes "\<And>x. k (f x) = k x" and "\<And>x. p x \<Longrightarrow> P (f x) \<Longrightarrow> P x"
    and "distinct (map k (filter P xs))"
  shows "distinct (map k (filter P (update_where p f xs)))"
proof -
  have "k ` set (filter P (update_where p f ys)) \<subseteq> k ` set (filter P ys)" for ys
  proof
    fix v assume "v \<in> k ` set (filter P (update_where p f ys))"
    then obtain y where "y \<in> set ys" "P (if p y then f y else y)" "v = k (if p y then f y else y)"
      by (auto simp: set_update_where)
    with assms(1,2) have "y \<in> set ys \<and> P y \<and> v = k y" by (metis (full_types))
    then show "v \<in> k ` set (filter P ys)" by simp
  qed
  then show ?thesis
    using assms(3)
  proof (induction xs)
    case (Cons x xs)
    have eq: "update_where p f (x # xs) = (if p x then f x else x) # update_where p f xs"
      by (simp add: update_where_def)
    have kx: "k (if p x then f x else x) = k x" by (simp add: assms(1))
    have px: "P (if p x then f x else x) \<Longrightarrow> P x" using assms(2) by (cases "p x") auto
    have IH: "distinct (map k (filter P (update_where p f xs)))" using Cons by (cases "P x") auto
    show ?case
    proof (cases "P (if p x then f x else x)")
      case True
      then have "k x \<notin> k ` set (filter P xs)" using Cons.prems(2) px by auto
      then have "k x \<notin> k ` set (filter P (update_where p f xs))" using Cons.prems(1) by blast
      with IH True kx show ?thesis unfolding eq by simp
    qed (use IH in \<open>simp add: eq\<close>)
  qed simp
qed

lemma erase_keeps:
  assumes inv: "services_inv rt ss is"
    and f: "\<And>x. iy_service_id (f x) = iy_service_id x \<and> iy_principal_id (f x) = iy_principal_id x \<and>
        iy_storage_namespace (f x) = iy_storage_namespace x \<and> iy_state (f x) = IdentityTombstoned"
  shows "services_inv rt (delete_where (purged_service i) ss) (update_where (purged_identity i) f is)"
proof -
  let ?is = "update_where (purged_identity i) f is"
  note d = services_invD [OF inv]
  have "map iy_service_id ?is = map iy_service_id is" using f by (auto simp: update_where_def)
  then have ids: "distinct (map iy_service_id ?is)" using d(3) by simp
  have "filter (\<lambda>i. iy_state i \<noteq> IdentityTombstoned) ?is =
      filter (\<lambda>x. iy_state x \<noteq> IdentityTombstoned \<and> \<not> purged_identity i x) is"
    unfolding update_where_def using f by (induction "is") auto
  also have "\<dots> = filter (\<lambda>x. \<not> purged_identity i x) (filter (\<lambda>i. iy_state i \<noteq> IdentityTombstoned) is)"
    by (simp add: conj_commute)
  finally have di: "distinct (map (\<lambda>i. (iy_principal_id i, iy_domain_name i))
      (filter (\<lambda>i. iy_state i \<noteq> IdentityTombstoned) ?is))"
    using d(8) by (simp only: distinct_map_filter)
  have "live_identity x \<in> set ?is" if "x \<in> set (delete_where (purged_service i) ss)" for x
    using that d(4) [of x]
    by (force simp: set_update_where set_delete_where purged_identity_def purged_service_def)
  moreover have "x \<in> live_identity ` set (delete_where (purged_service i) ss)"
    if x: "x \<in> set ?is" "iy_state x = IdentityLive" for x
  proof -
    have "x \<in> set is" "\<not> purged_identity i x"
      using x f by (auto simp: set_update_where split: if_splits)
    with d(5) x(2) obtain t where "t \<in> set ss" "x = live_identity t" by blast
    with \<open>\<not> purged_identity i x\<close> show ?thesis
      by (auto simp: set_delete_where purged_identity_def purged_service_def)
  qed
  moreover have "iy_storage_namespace x = svc_namespace (iy_service_id x)" if "x \<in> set ?is" for x
    using that d(7) f by (auto simp: set_update_where split: if_splits)
  moreover have "iy_domain_name x \<noteq> None" if "x \<in> set ?is" "iy_state x \<noteq> IdentityTombstoned" for x
    using that d(9) f by (auto simp: set_update_where split: if_splits)
  ultimately show ?thesis
    unfolding services_inv_def using d(1) delete_where_keys [OF d(2)] delete_where_keys [OF d(6)] di ids
    by (simp add: set_delete_where)
qed

section \<open>Claims\<close>

lemma insert_claim_keeps:
  assumes "claims_inv rt cs" and "claim_ok rt c"
    and "\<forall>x \<in> set cs. \<not> (cl_principal_id x = cl_principal_id c \<and>
        cl_idempotency_key x = cl_idempotency_key c)"
    and "active_phase (cl_phase c) \<longrightarrow>
        (\<forall>x \<in> set cs. active_phase (cl_phase x) \<longrightarrow> active_key x \<noteq> active_key c)"
  shows "claims_inv rt (cs @ [c])"
  using assms by (auto simp: claims_inv_def claim_key_def)

lemma update_claims_keeps:
  assumes inv: "claims_inv rt cs" and k: "\<And>c. claim_key (f c) = claim_key c"
    and a: "\<And>c. active_key (f c) = active_key c"
    and act: "\<And>c. p c \<Longrightarrow> active_phase (cl_phase (f c)) \<Longrightarrow> active_phase (cl_phase c)"
    and ok: "\<And>c. c \<in> set cs \<Longrightarrow> p c \<Longrightarrow> claim_ok rt (f c)"
  shows "claims_inv rt (update_where p f cs)"
proof -
  have "distinct (map active_key (filter (\<lambda>c. active_phase (cl_phase c)) (update_where p f cs)))"
    by (rule distinct_filter_update) (use a act inv in \<open>auto simp: claims_inv_def\<close>)
  moreover have "distinct (map claim_key (update_where p f cs))"
    using inv by (simp add: update_where_keys k claims_inv_def)
  ultimately show ?thesis
    using inv ok by (auto simp: claims_inv_def set_update_where)
qed

lemma claim_lookup_Some:
  "claim_lookup p key r = Some c \<Longrightarrow>
     c \<in> set (rg_claims r) \<and> cl_principal_id c = p \<and> cl_idempotency_key c = key"
  by (auto simp: claim_lookup_def dest: find_Some_iff_first)

lemma claim_lookup_unique:
  assumes "claims_inv rt (rg_claims r)" and "claim_lookup p key r = Some c"
    and "c' \<in> set (rg_claims r)" "cl_principal_id c' = p" "cl_idempotency_key c' = key"
  shows "c' = c"
  by (rule unique_by_key [of claim_key "rg_claims r"])
    (use assms claim_lookup_Some [OF assms(2)] in \<open>auto simp: claims_inv_def claim_key_def\<close>)

lemma claim_lookup_None:
  "claim_lookup p key r = None \<longleftrightarrow>
     (\<forall>c \<in> set (rg_claims r). \<not> (cl_principal_id c = p \<and> cl_idempotency_key c = key))"
  by (auto simp: claim_lookup_def find_None_iff)

lemma claims_invD:
  assumes "claims_inv rt cs" and "c \<in> set cs"
  shows "claim_ok rt c"
  using assms by (simp add: claims_inv_def)

end
