(* ===== verification/Ledger_Inv.thy ===== *)
theory Ledger_Inv
  imports Registry_Keeps
begin

text \<open>
  Every repository method for services, seed, design, materialise and evolve keeps the
  registry invariant when it returns.
\<close>

section \<open>Methods that keep the invariant\<close>

definition keeps :: "runtime \<Rightarrow> 'a reg \<Rightarrow> bool" where
  "keeps rt m \<longleftrightarrow> (\<forall>r x r'. registry_inv rt r \<longrightarrow> m r = (Inr x, r') \<longrightarrow> registry_inv rt r')"

named_theorems keeps_intros

lemma keepsI: "(\<And>r x r'. registry_inv rt r \<Longrightarrow> m r = (Inr x, r') \<Longrightarrow> registry_inv rt r') \<Longrightarrow> keeps rt m"
  by (auto simp: keeps_def)

lemma keepsD: "keeps rt m \<Longrightarrow> registry_inv rt r \<Longrightarrow> m r = (Inr x, r') \<Longrightarrow> registry_inv rt r'"
  by (auto simp: keeps_def)

lemma keeps_read [keeps_intros]: "(\<And>r x r'. m r = (Inr x, r') \<Longrightarrow> r' = r) \<Longrightarrow> keeps rt m"
  unfolding keeps_def by metis

lemma keeps_bind: "keeps rt m \<Longrightarrow> (\<And>x. keeps rt (f x)) \<Longrightarrow> keeps rt (rbind m f)"
  unfolding keeps_def rbind_Inr_iff by blast

lemma registry_invD:
  assumes "registry_inv rt r"
  shows "services_inv rt (rg_services r) (rg_identities r)" "claims_inv rt (rg_claims r)"
    "audits_inv (rg_audits r)"
  using assms by (simp_all add: registry_inv_def)

lemma keeps_add_service: "keeps rt (add_service rt s)"
proof (rule keepsI)
  fix r x r' assume inv: "registry_inv rt r" and run: "add_service rt s r = (Inr x, r')"
  then have "rg_claims r' = rg_claims r" "rg_audits r' = rg_audits r"
    by (auto simp: add_service_def run_simps)
  with registry_invD [OF inv] add_service_keeps [OF _ run] show "registry_inv rt r'"
    by (simp add: registry_inv_def)
qed

lemma save_service_keeps:
  assumes "registry_inv rt r" and "save_service rt s e r = (Inr out, r')"
  shows "registry_inv rt r' \<and> rg_claims r' = rg_claims r \<and> rg_audits r' = rg_audits r \<and>
    (out = StaleSave \<longrightarrow> r' = r)"
proof (cases "\<exists>old. service_row (sv_principal_id s) (sv_service_id s) r = Some old \<and>
    sv_service_revision old = e")
  case True
  then obtain old where old: "service_row (sv_principal_id s) (sv_service_id s) r = Some old"
    "sv_service_revision old = e" by blast
  have run: "validate_service rt s" "r' = swap_service s r" "out = Saved"
      "\<forall>x \<in> set (rg_services r). sv_principal_id x = sv_principal_id s \<and>
          sv_domain_name x = sv_domain_name s \<longrightarrow> sv_service_id x = sv_service_id s"
      "\<forall>i \<in> set (rg_identities r). live_domain (sv_principal_id s) (sv_domain_name s) i \<longrightarrow>
          iy_service_id i = sv_service_id s"
    using assms(2) unfolding save_service_run [OF registry_invD(1) [OF assms(1)]] if_P [OF True]
    by blast+
  have "services_inv rt (rg_services r') (rg_identities r')"
    unfolding run(2)
    by (rule swap_service_keeps [OF registry_invD(1) [OF assms(1)] _ _ run(1,4,5), of old])
      (use service_row_Some [OF old(1)] in auto)
  with registry_invD [OF assms(1)] run show ?thesis
    by (simp add: registry_inv_def swap_service_def)
next
  case False
  then show ?thesis
    using assms unfolding save_service_run [OF registry_invD(1) [OF assms(1)]] if_not_P [OF False]
    by blast
qed

lemma keeps_save_service: "keeps rt (save_service rt s e)"
  by (rule keepsI) (use save_service_keeps in blast)

lemma keeps_append_audit: "keeps rt (append_audit k out u p via t)"
proof (rule keepsI)
  fix r x r' assume "registry_inv rt r" and "append_audit k out u p via t r = (Inr x, r')"
  then show "registry_inv rt r'"
    by (auto simp: run_simps registry_inv_def intro!: append_audit_keeps)
qed

lemma keeps_complete_non_lifecycle: "keeps rt (complete_non_lifecycle rt kind p key fp s)"
proof (rule keepsI)
  fix r x r' assume inv: "registry_inv rt r"
    and run: "complete_non_lifecycle rt kind p key fp s r = (Inr x, r')"
  have "claims_inv rt (rg_claims r')"
    using run registry_invD(2) [OF inv]
    by (cases kind)
      (auto simp: complete_non_lifecycle_def run_simps claim_ok_def completion_row_ok_def
        non_lifecycle_row_kind_def intro!: insert_claim_keeps)
  moreover have "rg_services r' = rg_services r" "rg_identities r' = rg_identities r"
    "rg_audits r' = rg_audits r"
    using run by (auto simp: complete_non_lifecycle_def run_simps)
  ultimately show "registry_inv rt r'" using inv by (simp add: registry_inv_def)
qed

section \<open>Admission of a lifecycle command\<close>

lemma prepare_intent_ok:
  "prepare_intent rt c t = Inr i \<Longrightarrow>
     intent_spec rt i \<and> li_phase i = Prepared \<and> li_kind i = command_kind c \<and>
     li_fields i = command_fields c \<and> li_target_manifest i = t \<and>
     li_fingerprint i = lifecycle_fingerprint rt c"
  by (auto simp: prepare_intent_def bind_sum_Inr_iff manifest_snapshot_iff make_lifecycle_intent_iff)

text \<open>The stored evidence and the row's own columns give the intent back.\<close>

lemma intent_row_roundtrip:
  "cl_idempotency_key c = cf_idempotency_key (li_fields i) \<Longrightarrow> cl_fingerprint c = li_fingerprint i \<Longrightarrow>
   intent_from_row (lifecycle_document i) (li_phase i) c = i"
  by (simp add: intent_from_row_def lifecycle_document_def)

lemma insert_prepared_keeps:
  assumes inv: "registry_inv rt r" and i: "intent_spec rt i" "li_phase i = Prepared"
    and run: "insert_prepared i r = (Inr x, r')"
  shows "registry_inv rt r'"
proof -
  let ?c = "\<lparr>cl_principal_id = cf_principal_id (li_fields i),
        cl_idempotency_key = cf_idempotency_key (li_fields i),
        cl_fingerprint = li_fingerprint i, cl_service_id = cf_service_id (li_fields i),
        cl_kind = lifecycle_claim_kind (li_kind i), cl_phase = PhasePrepared,
        cl_created_via = Some (cf_created_via (li_fields i)),
        cl_intent = Some (LifecycleDocument (lifecycle_document i)), cl_result = None,
        cl_recovery_category = False\<rparr>"
  have "intent_from_row (lifecycle_document i) Prepared ?c = i"
    using intent_row_roundtrip [of ?c i] i(2) by simp
  then have "lifecycle_row_ok rt ?c"
    using i(1) by (auto simp: lifecycle_row_ok_def lifecycle_document_def)
  then have "claim_ok rt ?c"
    by (cases "li_kind i")
      (auto simp: claim_ok_def non_lifecycle_row_kind_def claim_shape_ok.simps)
  then have "claims_inv rt (rg_claims r')"
    using run registry_invD(2) [OF inv]
    by (auto simp: insert_prepared_def run_simps intro!: insert_claim_keeps)
  moreover have "rg_services r' = rg_services r" "rg_identities r' = rg_identities r"
    "rg_audits r' = rg_audits r"
    using run by (auto simp: insert_prepared_def run_simps)
  ultimately show ?thesis using inv by (simp add: registry_inv_def)
qed

lemma decode_reads:
  "decode_lifecycle_intent rt c r = (Inr i, t) \<Longrightarrow> t = r"
  "decode_result rt d p u r = (Inr s, t) \<Longrightarrow> t = r"
  by (simp_all add: run_simps)

lemma existing_lifecycle_claim_run:
  "existing_lifecycle_claim rt c command fp r = (Inr out, r') \<longleftrightarrow> r' = r \<and>
     (if cl_fingerprint c \<noteq> fp \<or> cl_kind c \<noteq> lifecycle_claim_kind (command_kind command)
      then out = ConflictClaim
      else \<exists>i. decode_lifecycle_intent rt c r = (Inr i, r) \<and>
        (if li_phase i = Prepared then out = PreparedLifecycleClaim i
         else if li_phase i = RecoveryRequiredPhase then out = RecoveryRequiredLifecycleClaim i
         else \<exists>s. decode_result rt (cl_result c) (cf_principal_id (li_fields i))
               (cf_service_id (li_fields i)) r = (Inr s, r) \<and> completed_lifecycle_ok i s \<and>
             out = CompletedLifecycleClaim i s))"
proof -
  have body: "(if li_phase i = Prepared then rret (PreparedLifecycleClaim i)
        else if li_phase i = RecoveryRequiredPhase then rret (RecoveryRequiredLifecycleClaim i)
        else completed_lifecycle_claim rt c i) x = (Inr out, r') \<longleftrightarrow> r' = x \<and>
      (if li_phase i = Prepared then out = PreparedLifecycleClaim i
       else if li_phase i = RecoveryRequiredPhase then out = RecoveryRequiredLifecycleClaim i
       else \<exists>s. decode_result rt (cl_result c) (cf_principal_id (li_fields i))
               (cf_service_id (li_fields i)) x = (Inr s, x) \<and> completed_lifecycle_ok i s \<and>
             out = CompletedLifecycleClaim i s)" for i x
    by (auto simp: completed_lifecycle_claim_def rbind_Inr_iff rcheck_Inr_iff dest: decode_reads)
  show ?thesis
    by (cases "cl_fingerprint c \<noteq> fp \<or> cl_kind c \<noteq> lifecycle_claim_kind (command_kind command)")
      (auto simp: existing_lifecycle_claim_def rbind_Inr_iff body dest: decode_reads)
qed

lemma blocking_outcome_run:
  "blocking_outcome rt c r = (Inr out, r') \<Longrightarrow> r' = r \<and>
     (out = OperationInProgressOutcome \<or> (\<exists>i. out = RecoveryRequiredLifecycleClaim i))"
  unfolding blocking_outcome_def by (auto simp: run_simps split: if_splits)

text \<open>The successful runs of the admission: a replayed claim, a refusal, a blocker, or the
  insertion of a prepared claim for the service's authoritative target.\<close>

lemma resolve_or_admit_cases:
  assumes "resolve_or_admit rt command r = (Inr out, r')"
  obtains
    (existing) c where
      "claim_lookup (cf_principal_id (command_fields command))
         (cf_idempotency_key (command_fields command)) r = Some c"
      "existing_lifecycle_claim rt c command (lifecycle_fingerprint rt command) r = (Inr out, r')"
  | (refused) "r' = r" "out = StaleRevisionOutcome \<or> out = UnsupportedTransitionOutcome"
  | (blocked) b where
      "b \<in> set (active_claims (cf_principal_id (command_fields command))
         (cf_service_id (command_fields command)) r)"
      "r' = r" "out = OperationInProgressOutcome \<or> (\<exists>i. out = RecoveryRequiredLifecycleClaim i)"
  | (admitted) s target i where
      "claim_lookup (cf_principal_id (command_fields command))
         (cf_idempotency_key (command_fields command)) r = None"
      "service_row (cf_principal_id (command_fields command))
         (cf_service_id (command_fields command)) r = Some s"
      "sv_service_revision s = cf_expected_service_revision (command_fields command)"
      "sv_schema_version s = Some (cf_expected_schema_version (command_fields command))"
      "supported_lifecycle_state s command" "sv_service_revision s < MAX_SERVICE_REVISION"
      "active_claims (cf_principal_id (command_fields command))
         (cf_service_id (command_fields command)) r = []"
      "admitted_target s command = Some (True, target)"
      "prepare_intent rt command target = Inr i" "insert_prepared i r = (Inr (), r')"
      "out = PreparedLifecycleClaim i"
proof (cases "claim_lookup (cf_principal_id (command_fields command))
    (cf_idempotency_key (command_fields command)) r")
  case (Some c)
  then show ?thesis using assms existing by (simp add: resolve_or_admit_def Let_def)
next
  case None
  note start = assms None
  show ?thesis
  proof (cases "service_row (cf_principal_id (command_fields command))
      (cf_service_id (command_fields command)) r")
    case None
    then show ?thesis using start refused by (auto simp: resolve_or_admit_def Let_def run_simps)
  next
    case (Some s)
    show ?thesis
    proof (cases "active_claims (cf_principal_id (command_fields command))
        (cf_service_id (command_fields command)) r")
      case Nil
      then show ?thesis
        using start Some refused admitted
        by (fastforce simp: resolve_or_admit_def Let_def run_simps
            split: if_splits option.splits prod.splits)
    next
      case (Cons b bs)
      then show ?thesis
        using start Some refused blocked [of b] blocking_outcome_run [of rt b r out r']
        by (auto simp: resolve_or_admit_def Let_def run_simps split: if_splits)
    qed
  qed
qed

lemma keeps_resolve_or_admit: "keeps rt (resolve_or_admit rt command)"
proof (rule keepsI)
  fix r out r' assume inv: "registry_inv rt r" and run: "resolve_or_admit rt command r = (Inr out, r')"
  from run show "registry_inv rt r'"
  proof (cases rule: resolve_or_admit_cases)
    case existing
    then show ?thesis using inv by (simp add: existing_lifecycle_claim_run)
  next
    case (admitted s target i)
    then show ?thesis
      using insert_prepared_keeps [OF inv _ _ admitted(10)] prepare_intent_ok [OF admitted(9)] by simp
  qed (use inv in simp_all)
qed

section \<open>Finalization of a lifecycle operation\<close>

text \<open>The row of a prepared lifecycle intent.\<close>

definition lifecycle_row_for :: "lifecycle_intent \<Rightarrow> claim_row \<Rightarrow> bool" where
  "lifecycle_row_for i c \<longleftrightarrow>
     cl_principal_id c = cf_principal_id (li_fields i) \<and>
     cl_idempotency_key c = cf_idempotency_key (li_fields i) \<and>
     cl_fingerprint c = li_fingerprint i \<and> cl_service_id c = cf_service_id (li_fields i) \<and>
     cl_kind c = lifecycle_claim_kind (li_kind i) \<and> cl_phase c = PhasePrepared \<and>
     cl_intent c = Some (LifecycleDocument (lifecycle_document i))"

lemma phase_from_column_iff: "phase_from_column ph = Some p \<longleftrightarrow> ph = ledger_phase_of p"
  by (cases ph; cases p) simp_all

lemma intent_from_row_simps [simp]:
  "li_phase (intent_from_row e ph c) = ph" "li_kind (intent_from_row e ph c) = le_kind e"
  "li_fingerprint (intent_from_row e ph c) = cl_fingerprint c"
  "lifecycle_document (intent_from_row e ph c) = e"
  "cf_principal_id (li_fields (intent_from_row e ph c)) = le_principal_id e"
  "cf_service_id (li_fields (intent_from_row e ph c)) = le_service_id e"
  "cf_idempotency_key (li_fields (intent_from_row e ph c)) = cl_idempotency_key c"
  by (simp_all add: intent_from_row_def lifecycle_document_def)

lemma terminal_or_prepared_cases:
  assumes "terminal_or_prepared rt i r = (Inr out, r')"
  obtains
    (terminal) "r' = r" "is_terminal_claim out"
  | (prepared) c where "r' = r" "out = PreparedLifecycleClaim i" "intent_spec rt i"
      "li_phase i = Prepared"
      "claim_lookup (cf_principal_id (li_fields i)) (cf_idempotency_key (li_fields i)) r = Some c"
      "lifecycle_row_for i c"
proof -
  from assms obtain c stored where i: "li_phase i = Prepared"
    and c: "claim_lookup (cf_principal_id (li_fields i)) (cf_idempotency_key (li_fields i)) r = Some c"
    and st: "decode_lifecycle_intent rt c r = (Inr stored, r)" "cl_fingerprint c = li_fingerprint i"
    and rest: "(if li_phase stored = Prepared then
               rbind (rcheck (stored = i)) (\<lambda>_. rret (PreparedLifecycleClaim stored))
             else if li_phase stored = RecoveryRequiredPhase then
               rret (RecoveryRequiredLifecycleClaim stored)
             else
               rbind (decode_result rt (cl_result c) (cf_principal_id (li_fields i))
                 (cf_service_id (li_fields i))) (\<lambda>s.
               rbind (rcheck (completed_lifecycle_ok stored s)) (\<lambda>_.
                 rret (CompletedLifecycleClaim stored s)))) r = (Inr out, r')"
    unfolding terminal_or_prepared_def
    by (auto simp: rbind_Inr_iff rcheck_Inr_iff dest: decode_reads split: option.splits)
  show ?thesis
  proof (cases "li_phase stored = Prepared")
    case True
    with rest have eq: "stored = i" "out = PreparedLifecycleClaim i" "r' = r"
      by (auto simp: rbind_Inr_iff rcheck_Inr_iff)
    from st(1) eq(1) obtain e ph where row: "cl_intent c = Some (LifecycleDocument e)"
      "phase_from_column (cl_phase c) = Some ph" "i = intent_from_row e ph c" "intent_spec rt i"
      "le_principal_id e = cl_principal_id c" "le_service_id e = cl_service_id c"
      "lifecycle_claim_kind (le_kind e) = cl_kind c"
      by (auto simp: decode_lifecycle_intent_run)
    moreover have "ph = Prepared" using row(3) i by simp
    ultimately have "lifecycle_row_for i c"
      by (simp add: lifecycle_row_for_def phase_from_column_iff)
    with prepared eq row(4) i c show ?thesis by blast
  next
    case False
    with rest terminal show ?thesis
      by (auto simp: is_terminal_claim_def rbind_Inr_iff rcheck_Inr_iff dest: decode_reads
          split: if_splits)
  qed
qed

text \<open>The single transition of the row, to either terminal phase.\<close>

lemma lifecycle_row_recovery:
  assumes "lifecycle_row_for i c" and "intent_spec rt i" and "claim_shape_ok c"
  shows "claim_ok rt (c\<lparr>cl_phase := PhaseRecoveryRequired, cl_recovery_category := True\<rparr>)"
proof -
  let ?d = "c\<lparr>cl_phase := PhaseRecoveryRequired, cl_recovery_category := True\<rparr>"
  have "intent_from_row (lifecycle_document i) RecoveryRequiredPhase ?d =
      i\<lparr>li_phase := RecoveryRequiredPhase\<rparr>"
    using assms(1) by (simp add: intent_from_row_def lifecycle_document_def lifecycle_row_for_def)
  then have "lifecycle_row_ok rt ?d"
    using assms(1,2) by (auto simp: lifecycle_row_ok_def lifecycle_row_for_def lifecycle_document_def)
  with assms(1,3) show ?thesis
    by (cases "li_kind i")
      (auto simp: claim_ok_def lifecycle_row_for_def claim_shape_ok.simps non_lifecycle_row_kind_def)
qed

lemma lifecycle_row_completed:
  assumes "lifecycle_row_for i c" and "intent_spec rt i" and "claim_shape_ok c"
    and "validate_service rt s" and "completed_lifecycle_ok (i\<lparr>li_phase := Completed\<rparr>) s"
  shows "claim_ok rt (c\<lparr>cl_phase := PhaseCompleted, cl_result := Some (ServiceDocument s)\<rparr>)"
proof -
  let ?d = "c\<lparr>cl_phase := PhaseCompleted, cl_result := Some (ServiceDocument s)\<rparr>"
  have "intent_from_row (lifecycle_document i) Completed ?d = i\<lparr>li_phase := Completed\<rparr>"
    using assms(1) by (simp add: intent_from_row_def lifecycle_document_def lifecycle_row_for_def)
  then have "lifecycle_row_ok rt ?d"
    using assms(1,2,4,5)
    by (auto simp: lifecycle_row_ok_def lifecycle_row_for_def lifecycle_document_def)
  with assms(1,3) show ?thesis
    by (cases "li_kind i")
      (auto simp: claim_ok_def lifecycle_row_for_def claim_shape_ok.simps non_lifecycle_row_kind_def)
qed

lemma prepared_row_unique:
  assumes "claims_inv rt (rg_claims r)" and "claim_lookup p key r = Some c"
    and "c' \<in> set (rg_claims r)" "prepared_row p key fp c'"
  shows "c' = c"
  using claim_lookup_unique [OF assms(1-3)] assms(4) by (simp add: prepared_row_def)

lemma mark_recovery_run:
  "mark_recovery rt i t r = (Inr out, r') \<Longrightarrow>
     out = RecoveryRequiredLifecycleClaim (i\<lparr>li_phase := RecoveryRequiredPhase\<rparr>) \<and>
     rg_services r' = rg_services r \<and> rg_identities r' = rg_identities r \<and>
     rg_receipts r' = rg_receipts r \<and>
     rg_claims r' = update_where (prepared_row (cf_principal_id (li_fields i))
        (cf_idempotency_key (li_fields i)) (li_fingerprint i))
        (\<lambda>c. c\<lparr>cl_phase := PhaseRecoveryRequired, cl_recovery_category := True\<rparr>) (rg_claims r)"
  by (auto simp: mark_recovery_def run_simps append_terminal_def with_phase_iff)

lemma mark_recovery_audits:
  "audits_inv (rg_audits r) \<Longrightarrow> mark_recovery rt i t r = (Inr out, r') \<Longrightarrow> audits_inv (rg_audits r')"
  by (auto simp: mark_recovery_def run_simps append_terminal_def intro!: append_audit_keeps)

lemma mark_recovery_keeps:
  assumes inv: "registry_inv rt r" and i: "intent_spec rt i"
    and c: "claim_lookup (cf_principal_id (li_fields i)) (cf_idempotency_key (li_fields i)) r = Some c"
      "lifecycle_row_for i c"
    and run: "mark_recovery rt i t r = (Inr out, r')"
  shows "registry_inv rt r'"
proof -
  note run' = mark_recovery_run [OF run]
  have shape: "claim_shape_ok c"
    using claims_invD [OF registry_invD(2) [OF inv]] claim_lookup_Some [OF c(1)]
    by (auto simp: claim_ok_def)
  have "claims_inv rt (rg_claims r')"
    unfolding run' [THEN conjunct2, THEN conjunct2, THEN conjunct2, THEN conjunct2]
  proof (rule update_claims_keeps [OF registry_invD(2) [OF inv]])
    fix d assume "d \<in> set (rg_claims r)"
      "prepared_row (cf_principal_id (li_fields i)) (cf_idempotency_key (li_fields i)) (li_fingerprint i) d"
    then have "d = c" by (rule prepared_row_unique [OF registry_invD(2) [OF inv] c(1)])
    with lifecycle_row_recovery [OF c(2) i shape]
    show "claim_ok rt (d\<lparr>cl_phase := PhaseRecoveryRequired, cl_recovery_category := True\<rparr>)" by simp
  qed (auto simp: claim_key_def active_key_def active_phase_def prepared_row_def)
  moreover have "audits_inv (rg_audits r')"
    by (rule mark_recovery_audits [OF registry_invD(3) [OF inv] run])
  ultimately show ?thesis using run' registry_invD(1) [OF inv] by (simp add: registry_inv_def)
qed

lemma stale_save_reads: "save_service rt s e r = (Inr StaleSave, r') \<Longrightarrow> r' = r"
  by (auto simp: save_service_def Let_def rbind_Inr_iff rcheck_Inr_iff split: if_splits)

lemma finalize_completed_cases:
  assumes "finalize_completed rt co r = (Inr out, r')"
  obtains
    (terminal) "r' = r" "is_terminal_claim out" "terminal_or_prepared rt (co_intent co) r = (Inr out, r)"
  | (recovery) c where "intent_spec rt (co_intent co)" "lifecycle_row_for (co_intent co) c"
      "claim_lookup (cf_principal_id (li_fields (co_intent co)))
         (cf_idempotency_key (li_fields (co_intent co))) r = Some c"
      "mark_recovery rt (co_intent co) (co_at co) r = (Inr out, r')"
  | (stale) c s where "intent_spec rt (co_intent co)" "lifecycle_row_for (co_intent co) c"
      "claim_lookup (cf_principal_id (li_fields (co_intent co)))
         (cf_idempotency_key (li_fields (co_intent co))) r = Some c"
      "save_service rt (terminal_service s co)
         (cf_expected_service_revision (li_fields (co_intent co))) r = (Inr StaleSave, r)"
      "mark_recovery rt (co_intent co) (co_at co) r = (Inr out, r')"
  | (completed) c s r1 where "intent_spec rt (co_intent co)" "lifecycle_row_for (co_intent co) c"
      "li_phase (co_intent co) = Prepared"
      "claim_lookup (cf_principal_id (li_fields (co_intent co)))
         (cf_idempotency_key (li_fields (co_intent co))) r = Some c"
      "service_row (cf_principal_id (li_fields (co_intent co)))
         (cf_service_id (li_fields (co_intent co))) r = Some s"
      "finalization_preconditions s co"
      "save_service rt (terminal_service s co)
         (cf_expected_service_revision (li_fields (co_intent co))) r = (Inr Saved, r1)"
      "validate_service rt (terminal_service s co)"
      "completed_lifecycle_ok ((co_intent co)\<lparr>li_phase := Completed\<rparr>) (terminal_service s co)"
      "out = CompletedLifecycleClaim ((co_intent co)\<lparr>li_phase := Completed\<rparr>) (terminal_service s co)"
      "rbind (update_prepared (cf_principal_id (li_fields (co_intent co)))
          (cf_idempotency_key (li_fields (co_intent co))) (li_fingerprint (co_intent co))
          (\<lambda>c. c\<lparr>cl_phase := PhaseCompleted,
                cl_result := Some (ServiceDocument (terminal_service s co))\<rparr>))
         (\<lambda>_. append_terminal (co_intent co) CompletedEvent (co_at co)) r1 = (Inr (), r')"
proof -
  let ?i = "co_intent co"
  from assms obtain existing t where ex: "terminal_or_prepared rt ?i r = (Inr existing, t)"
    by (auto simp: finalize_completed_def Let_def rbind_Inr_iff)
  from ex show ?thesis
  proof (cases rule: terminal_or_prepared_cases)
    case terminal
    then show ?thesis using assms ex that(1) by (simp add: finalize_completed_def Let_def rbind_apply)
  next
    case (prepared c)
    have np: "\<not> is_terminal_claim (PreparedLifecycleClaim ?i)" by (simp add: is_terminal_claim_def)
    show ?thesis
    proof (cases "service_row (cf_principal_id (li_fields ?i)) (cf_service_id (li_fields ?i)) r")
      case None
      then show ?thesis
        using assms ex prepared np that(2)
        by (auto simp: finalize_completed_def Let_def rbind_Inr_iff get_service_run)
    next
      case (Some s)
      show ?thesis
      proof (cases "finalization_preconditions s co")
        case False
        then show ?thesis
          using assms ex prepared np Some that(2)
          by (auto simp: finalize_completed_def Let_def rbind_Inr_iff get_service_run split: if_splits)
      next
        case True
        with assms ex prepared np Some obtain saved r1 where
          save: "save_service rt (terminal_service s co)
              (cf_expected_service_revision (li_fields ?i)) r = (Inr saved, r1)"
          and rest: "(if saved \<noteq> Saved then mark_recovery rt ?i (co_at co)
            else rbind (rlift (with_phase rt ?i Completed)) (\<lambda>terminal_intent.
              rbind (rcheck (validate_service rt (terminal_service s co))) (\<lambda>_.
              rbind (update_prepared (cf_principal_id (li_fields ?i))
                  (cf_idempotency_key (li_fields ?i)) (li_fingerprint ?i)
                  (\<lambda>c. c\<lparr>cl_phase := PhaseCompleted,
                        cl_result := Some (ServiceDocument (terminal_service s co))\<rparr>)) (\<lambda>_.
              rbind (append_terminal ?i CompletedEvent (co_at co)) (\<lambda>_.
              rbind (rcheck (completed_lifecycle_ok terminal_intent (terminal_service s co))) (\<lambda>_.
                rret (CompletedLifecycleClaim terminal_intent (terminal_service s co)))))))) r1 =
            (Inr out, r')"
          by (auto simp: finalize_completed_def Let_def rbind_Inr_iff get_service_run rlift_Inr_iff
              make_service_def valued_Inr_iff split: if_splits)
        show ?thesis
        proof (cases saved)
          case StaleSave
          then have "r1 = r" using stale_save_reads save by blast
          with save rest StaleSave prepared that(3) show ?thesis by simp
        next
          case Saved
          with rest obtain r2 where
            "validate_service rt (terminal_service s co)"
            "completed_lifecycle_ok (?i\<lparr>li_phase := Completed\<rparr>) (terminal_service s co)"
            "out = CompletedLifecycleClaim (?i\<lparr>li_phase := Completed\<rparr>) (terminal_service s co)"
            "update_prepared (cf_principal_id (li_fields ?i))
                  (cf_idempotency_key (li_fields ?i)) (li_fingerprint ?i)
                  (\<lambda>c. c\<lparr>cl_phase := PhaseCompleted,
                        cl_result := Some (ServiceDocument (terminal_service s co))\<rparr>) r1 = (Inr (), r2)"
            "append_terminal ?i CompletedEvent (co_at co) r2 = (Inr (), r')"
            by (auto simp: rbind_Inr_iff rlift_Inr_iff rcheck_Inr_iff with_phase_iff)
          with save Saved prepared Some True that(4) [of c s r1] show ?thesis
            by (simp add: rbind_Inr_iff)
        qed
      qed
    qed
  qed
qed

lemma complete_row_keeps:
  assumes inv: "registry_inv rt r" and i: "intent_spec rt i"
    and c: "claim_lookup (cf_principal_id (li_fields i)) (cf_idempotency_key (li_fields i)) r = Some c"
      "lifecycle_row_for i c"
    and s: "validate_service rt s" "completed_lifecycle_ok (i\<lparr>li_phase := Completed\<rparr>) s"
    and run: "rbind (update_prepared (cf_principal_id (li_fields i))
          (cf_idempotency_key (li_fields i)) (li_fingerprint i)
          (\<lambda>c. c\<lparr>cl_phase := PhaseCompleted, cl_result := Some (ServiceDocument s)\<rparr>))
         (\<lambda>_. append_terminal i CompletedEvent t) r = (Inr (), r')"
  shows "registry_inv rt r'"
proof -
  let ?f = "\<lambda>c. c\<lparr>cl_phase := PhaseCompleted, cl_result := Some (ServiceDocument s)\<rparr>"
  let ?p = "prepared_row (cf_principal_id (li_fields i)) (cf_idempotency_key (li_fields i))
      (li_fingerprint i)"
  have r': "rg_claims r' = update_where ?p ?f (rg_claims r)" "rg_services r' = rg_services r"
    "rg_identities r' = rg_identities r" "audits_inv (rg_audits r')"
    using run registry_invD(3) [OF inv]
    by (auto simp: run_simps append_terminal_def intro!: append_audit_keeps)
  have shape: "claim_shape_ok c"
    using claims_invD [OF registry_invD(2) [OF inv]] claim_lookup_Some [OF c(1)]
    by (auto simp: claim_ok_def)
  have "claims_inv rt (update_where ?p ?f (rg_claims r))"
  proof (rule update_claims_keeps [OF registry_invD(2) [OF inv]])
    fix d assume "d \<in> set (rg_claims r)" "?p d"
    then have "d = c" by (rule prepared_row_unique [OF registry_invD(2) [OF inv] c(1)])
    with lifecycle_row_completed [OF c(2) i shape s] show "claim_ok rt (?f d)" by simp
  qed (auto simp: claim_key_def active_key_def active_phase_def)
  with r' registry_invD(1) [OF inv] show ?thesis by (simp add: registry_inv_def)
qed

lemma keeps_finalize_completed: "keeps rt (finalize_completed rt co)"
proof (rule keepsI)
  fix r out r' assume inv: "registry_inv rt r" and run: "finalize_completed rt co r = (Inr out, r')"
  from run show "registry_inv rt r'"
  proof (cases rule: finalize_completed_cases)
    case (recovery c)
    show ?thesis by (rule mark_recovery_keeps [OF inv recovery(1,3,2,4)])
  next
    case (stale c s)
    show ?thesis by (rule mark_recovery_keeps [OF inv stale(1,3,2,5)])
  next
    case (completed c s r1)
    note k = save_service_keeps [OF inv completed(7)]
    then have "claim_lookup p key r1 = claim_lookup p key r" for p key by (simp add: claim_lookup_def)
    with completed(4) show ?thesis
      using complete_row_keeps [OF _ completed(1) _ completed(2,8,9,11)] k by simp
  qed (use inv in simp)
qed

lemma keeps_finalize_recovery_required: "keeps rt (finalize_recovery_required rt i t)"
proof (rule keepsI)
  fix r out r' assume inv: "registry_inv rt r"
    and run: "finalize_recovery_required rt i t r = (Inr out, r')"
  then obtain existing r0 where ex: "terminal_or_prepared rt i r = (Inr existing, r0)"
    and rest: "(if is_terminal_claim existing then rret existing else mark_recovery rt i t) r0 =
      (Inr out, r')"
    by (auto simp: finalize_recovery_required_def rbind_Inr_iff)
  from ex show "registry_inv rt r'"
  proof (cases rule: terminal_or_prepared_cases)
    case (prepared c)
    then have "mark_recovery rt i t r = (Inr out, r')" using rest by (simp add: is_terminal_claim_def)
    with mark_recovery_keeps [OF inv prepared(3,5,6)] show ?thesis by blast
  qed (use inv rest in simp)
qed

end
