(* ===== verification/Authority_Inv.thy ===== *)
theory Authority_Inv
  imports Ledger_Inv
begin

text \<open>
  The shared claim authority keeps the registry invariant. A finalizer is given the intent the
  admission returned: \<open>issued\<close> says that the intent in hand is the one the claim row stores.
  The code compares only the kind and the fingerprint of the two, so this is what the callers
  contribute.
\<close>

definition issued :: "registry \<Rightarrow> authority_intent \<Rightarrow> bool" where
  "issued r i \<longleftrightarrow> (\<forall>c \<in> set (rg_claims r). \<forall>j. cl_principal_id c = ai_principal i \<and>
     cl_idempotency_key c = ai_key i \<and> cl_intent c = Some (AuthorityDocument j) \<and>
     ai_phase j = Prepared \<longrightarrow> j = i)"

definition authority_row_for :: "authority_intent \<Rightarrow> claim_row \<Rightarrow> bool" where
  "authority_row_for i c \<longleftrightarrow>
     cl_intent c = Some (AuthorityDocument i) \<and> authority_row_matches c i"

section \<open>Intents\<close>

definition with_ai_phase :: "authority_intent \<Rightarrow> lifecycle_phase \<Rightarrow> authority_intent" where
  "with_ai_phase i p = (case i of OperationalIntent a \<Rightarrow> OperationalIntent (a\<lparr>oi_phase := p\<rparr>)
     | PortableIntent a \<Rightarrow> PortableIntent (a\<lparr>po_phase := p\<rparr>))"

lemma with_ai_phase_simps [simp]:
  "ai_principal (with_ai_phase i p) = ai_principal i" "ai_key (with_ai_phase i p) = ai_key i"
  "ai_service (with_ai_phase i p) = ai_service i" "ai_kind (with_ai_phase i p) = ai_kind i"
  "ai_created_via (with_ai_phase i p) = ai_created_via i"
  "ai_fingerprint (with_ai_phase i p) = ai_fingerprint i" "ai_phase (with_ai_phase i p) = p"
  "ai_ok rt (with_ai_phase i p) = ai_ok rt i"
  by (cases i; simp add: with_ai_phase_def operational_intent_spec_def)+

lemma ai_with_phase_run:
  "ai_with_phase rt i p = Inr j \<longleftrightarrow>
     ai_phase i = Prepared \<and> p \<noteq> Prepared \<and> ai_ok rt i \<and> j = with_ai_phase i p"
  unfolding ai_with_phase_iff by (cases i) (auto simp: with_ai_phase_def)

lemma ai_kind_authority: "\<not> pre_authority_kind (ai_kind i)"
proof (cases i)
  case (OperationalIntent a)
  then show ?thesis by (cases "oc_kind (oi_command a)") (simp_all add: pre_authority_kind_def)
next
  case (PortableIntent a)
  then show ?thesis by (cases "po_kind a") (simp_all add: pre_authority_kind_def)
qed

lemma authority_kind_row:
  "\<not> pre_authority_kind k \<Longrightarrow> \<not> non_lifecycle_row_kind k \<and> k \<noteq> KMaterialise \<and> k \<noteq> KEvolve"
  by (auto simp: pre_authority_kind_def non_lifecycle_row_kind_def)

lemma prepare_registry_intent_ok:
  assumes "prepare_registry_intent rt command = Inr i"
  shows "ai_ok rt i \<and> ai_phase i = Prepared"
proof (cases command)
  case (OperationalCommand c)
  then obtain a where "prepare_operational_intent rt c = Inr a" "i = OperationalIntent a"
    using assms by (cases "prepare_operational_intent rt c") auto
  then show ?thesis by (auto simp: prepare_operational_intent_def make_operational_intent_iff)
next
  case (PortableCommand c)
  then obtain a where "prepare_portable_intent rt c = Inr a" "i = PortableIntent a"
    using assms by (cases "prepare_portable_intent rt c") auto
  then show ?thesis
    by (cases c) (auto simp: prepare_portable_intent_def make_portable_intent_def authorised_Inr_iff)
qed

section \<open>Rows\<close>

lemma authority_row_ok_iff:
  "\<not> pre_authority_kind (cl_kind c) \<Longrightarrow> cl_phase c \<noteq> PhaseTombstoned \<Longrightarrow>
   claim_ok rt c \<longleftrightarrow> claim_shape_ok c \<and> authority_row_ok rt c"
  using authority_kind_row [of "cl_kind c"] by (simp add: claim_ok_def)

lemma insert_authority_prepared_keeps:
  assumes inv: "registry_inv rt r" and i: "ai_ok rt i" "ai_phase i = Prepared"
    and run: "insert_authority_prepared i r = (Inr x, r')"
  shows "registry_inv rt r' \<and> rg_services r' = rg_services r \<and> rg_identities r' = rg_identities r"
proof -
  let ?c = "\<lparr>cl_principal_id = ai_principal i, cl_idempotency_key = ai_key i,
        cl_fingerprint = ai_fingerprint i, cl_service_id = ai_service i, cl_kind = ai_kind i,
        cl_phase = PhasePrepared, cl_created_via = Some (ai_created_via i),
        cl_intent = Some (AuthorityDocument i), cl_result = None, cl_recovery_category = False\<rparr>"
  have "authority_row_ok rt ?c" using i by (simp add: authority_row_ok_def authority_row_matches_def)
  moreover have "claim_shape_ok ?c"
    using authority_kind_row [OF ai_kind_authority [of i]] by (simp add: claim_shape_ok.simps)
  ultimately have "claim_ok rt ?c"
    using authority_row_ok_iff [of ?c] ai_kind_authority [of i] by simp
  then have "claims_inv rt (rg_claims r')"
    using run registry_invD(2) [OF inv]
    by (auto simp: insert_authority_prepared_def run_simps intro!: insert_claim_keeps)
  moreover have "rg_services r' = rg_services r" "rg_identities r' = rg_identities r"
    "rg_audits r' = rg_audits r"
    using run by (auto simp: insert_authority_prepared_def run_simps)
  ultimately show ?thesis using inv by (simp add: registry_inv_def)
qed

text \<open>The row update that both ends of an operation perform.\<close>

lemma update_authority_row_keeps:
  assumes inv: "registry_inv rt r"
    and c: "claim_lookup (ai_principal i) (ai_key i) r = Some c"
    and ok: "claim_ok rt (f c)"
    and f: "\<And>c. claim_key (f c) = claim_key c" "\<And>c. active_key (f c) = active_key c"
    and r': "rg_services r' = rg_services r" "rg_identities r' = rg_identities r"
      "rg_claims r' = update_where (prepared_row (ai_principal i) (ai_key i) (ai_fingerprint i)) f
         (rg_claims r)" "audits_inv (rg_audits r')"
  shows "registry_inv rt r'"
proof -
  have "claims_inv rt (rg_claims r')" unfolding r'(3)
  proof (rule update_claims_keeps [OF registry_invD(2) [OF inv] f])
    fix d assume "d \<in> set (rg_claims r)"
      "prepared_row (ai_principal i) (ai_key i) (ai_fingerprint i) d"
    then have "d = c" by (rule prepared_row_unique [OF registry_invD(2) [OF inv] c])
    with ok show "claim_ok rt (f d)" by simp
  qed (auto simp: prepared_row_def active_phase_def)
  with r' registry_invD(1) [OF inv] show ?thesis by (simp add: registry_inv_def)
qed

lemma authority_row_shape:
  assumes inv: "registry_inv rt r" and c: "claim_lookup p k r = Some c"
    and row: "authority_row_for i c" "ai_phase i = Prepared"
  shows "cl_created_via c \<noteq> None" "cl_result c = None" "\<not> cl_recovery_category c"
    "cl_phase c = PhasePrepared" "cl_kind c = ai_kind i"
proof -
  have "claim_ok rt c"
    using claims_invD [OF registry_invD(2) [OF inv]] claim_lookup_Some [OF c] by blast
  moreover show "cl_phase c = PhasePrepared" "cl_kind c = ai_kind i"
    using row by (simp_all add: authority_row_for_def authority_row_matches_def)
  ultimately show "cl_created_via c \<noteq> None" "cl_result c = None" "\<not> cl_recovery_category c"
    by (simp_all add: claim_ok_def claim_shape_ok.simps)
qed

lemma mark_authority_recovery_keeps:
  assumes inv: "registry_inv rt r" and c: "claim_lookup (ai_principal i) (ai_key i) r = Some c"
    and row: "authority_row_for i c"
    and run: "mark_authority_recovery rt i t r = (Inr out, r')"
  shows "registry_inv rt r'"
proof -
  let ?j = "with_ai_phase i RecoveryRequiredPhase"
  let ?f = "\<lambda>c. c\<lparr>cl_phase := PhaseRecoveryRequired, cl_intent := Some (AuthorityDocument ?j),
      cl_recovery_category := True\<rparr>"
  have run': "ai_phase i = Prepared" "ai_ok rt i" "rg_services r' = rg_services r"
    "rg_identities r' = rg_identities r" "audits_inv (rg_audits r')"
    "rg_claims r' = update_where (prepared_row (ai_principal i) (ai_key i) (ai_fingerprint i)) ?f
       (rg_claims r)"
    using run registry_invD(3) [OF inv]
    by (auto simp: mark_authority_recovery_def run_simps ai_with_phase_run append_local_event_def
        intro!: append_audit_keeps)
  note sh = authority_row_shape [OF inv c row run'(1)]
  have "claim_ok rt (?f c)"
    using row run'(2) sh authority_row_ok_iff [of "?f c"] ai_kind_authority [of i]
      authority_kind_row [OF ai_kind_authority [of i]]
    by (auto simp: authority_row_ok_def authority_row_for_def authority_row_matches_def
        claim_shape_ok.simps)
  then show ?thesis
    by (rule update_authority_row_keeps [OF inv c _ _ _ run'(3,4,6,5)])
      (simp_all add: claim_key_def active_key_def)
qed

lemma complete_authority_keeps:
  assumes inv: "registry_inv rt r" and c: "claim_lookup (ai_principal i) (ai_key i) r = Some c"
    and row: "authority_row_for i c"
    and run: "complete_authority rt i v t r = (Inr out, r')"
  shows "registry_inv rt r'"
proof -
  let ?j = "with_ai_phase i Completed"
  let ?f = "\<lambda>c. c\<lparr>cl_phase := PhaseCompleted, cl_intent := Some (AuthorityDocument ?j),
      cl_result := Some (AuthorityResultDocument v)\<rparr>"
  have run': "ai_phase i = Prepared" "ai_ok rt i" "rg_services r' = rg_services r"
    "rg_identities r' = rg_identities r" "audits_inv (rg_audits r')"
    "rg_claims r' = update_where (prepared_row (ai_principal i) (ai_key i) (ai_fingerprint i)) ?f
       (rg_claims r)" "authority_result_ok rt v" "completed_registry_ok ?j v"
    using run registry_invD(3) [OF inv]
    by (auto simp: complete_authority_def run_simps ai_with_phase_run append_local_event_def
        intro!: append_audit_keeps)
  note sh = authority_row_shape [OF inv c row run'(1)]
  have "claim_ok rt (?f c)"
    using row run'(2,7,8) sh authority_row_ok_iff [of "?f c"] ai_kind_authority [of i]
      authority_kind_row [OF ai_kind_authority [of i]]
    by (auto simp: authority_row_ok_def authority_row_for_def authority_row_matches_def
        claim_shape_ok.simps)
  then show ?thesis
    by (rule update_authority_row_keeps [OF inv c _ _ _ run'(3,4,6,5)])
      (simp_all add: claim_key_def active_key_def)
qed

section \<open>Replay and the prepared guard\<close>

lemma authority_decode_reads:
  "decode_authority_intent rt c r = (Inr i, t) \<Longrightarrow> t = r"
  "decode_authority_result rt c i r = (Inr v, t) \<Longrightarrow> t = r"
  "validate_authority_row rt c i r = (Inr x, t) \<Longrightarrow> t = r"
  by (auto simp: run_simps validate_authority_row_def split: if_splits)

lemma existing_authority_claim_reads:
  "existing_authority_claim rt c i r = (Inr out, r') \<Longrightarrow> r' = r"
  unfolding existing_authority_claim_def
  by (auto simp: rbind_Inr_iff rcheck_Inr_iff dest!: authority_decode_reads split: if_splits)

lemma existing_authority_claim_prepared:
  assumes "existing_authority_claim rt c i r = (Inr (PreparedRegistryClaim stored), r')"
  shows "authority_row_for stored c \<and> ai_ok rt stored \<and> ai_phase stored = Prepared \<and>
    ai_kind stored = ai_kind i \<and> ai_fingerprint stored = ai_fingerprint i"
  using assms unfolding existing_authority_claim_def
  by (auto simp: rbind_Inr_iff rcheck_Inr_iff decode_authority_intent_run validate_authority_row_def
      authority_row_for_def split: if_splits)

lemma authority_prepared_or_terminal_run:
  assumes "authority_prepared_or_terminal rt i r = (Inr out, r')"
  shows "r' = r \<and> ai_phase i = Prepared \<and> (\<exists>c. claim_lookup (ai_principal i) (ai_key i) r = Some c \<and>
    existing_authority_claim rt c i r = (Inr out, r))"
proof -
  from assms obtain c current t where ph: "ai_phase i = Prepared"
    and c: "claim_lookup (ai_principal i) (ai_key i) r = Some c"
    and cur: "existing_authority_claim rt c i r = (Inr current, t)"
    and rest: "(case current of RegistryClaimConflict \<Rightarrow> rfail
        | TombstonedRegistryClaim _ _ _ _ \<Rightarrow> rfail | _ \<Rightarrow> rret current) t = (Inr out, r')"
    unfolding authority_prepared_or_terminal_def
    by (auto simp: rbind_Inr_iff rcheck_Inr_iff split: option.splits)
  have "t = r" using cur by (rule existing_authority_claim_reads)
  moreover have "out = current \<and> r' = t" using rest by (cases current) auto
  ultimately show ?thesis using ph c cur by auto
qed

lemma if_prepared_cases:
  assumes "if_prepared rt i body r = (Inr out, r')" and "issued r i"
  obtains
    (other) "r' = r" "ai_phase i = Prepared" "\<And>j. out \<noteq> PreparedRegistryClaim j"
  | (prepared) c where "claim_lookup (ai_principal i) (ai_key i) r = Some c"
      "authority_row_for i c" "ai_ok rt i" "ai_phase i = Prepared" "body r = (Inr out, r')"
proof -
  from assms(1) obtain existing t where
    ex: "authority_prepared_or_terminal rt i r = (Inr existing, t)"
    and rest: "(case existing of PreparedRegistryClaim _ \<Rightarrow> body | _ \<Rightarrow> rret existing) t = (Inr out, r')"
    unfolding if_prepared_def rbind_Inr_iff by blast
  note run = authority_prepared_or_terminal_run [OF ex]
  then have t: "t = r" and ph: "ai_phase i = Prepared" by simp_all
  show ?thesis
  proof (cases "\<exists>j. existing = PreparedRegistryClaim j")
    case True
    then obtain j where j: "existing = PreparedRegistryClaim j" by blast
    from run obtain c where c: "claim_lookup (ai_principal i) (ai_key i) r = Some c"
      "existing_authority_claim rt c i r = (Inr (PreparedRegistryClaim j), r)"
      unfolding j by blast
    note row = existing_authority_claim_prepared [OF c(2)]
    then have "j = i"
      using assms(2) claim_lookup_Some [OF c(1)]
      by (auto simp: issued_def authority_row_for_def)
    with row rest j t c(1) ph prepared show ?thesis by simp
  next
    case False
    then have "out = existing \<and> r' = r" using rest t by (cases existing) auto
    with False ph other show ?thesis by blast
  qed
qed

section \<open>Admission\<close>

lemma authority_blocker_reads: "authority_blocker rt p u r = (Inr b, r') \<Longrightarrow> r' = r"
  by (auto simp: authority_blocker_def rbind_Inr_iff dest: authority_decode_reads decode_reads
      split: list.splits if_splits)

lemma prepare_on_service_cases:
  assumes "prepare_on_service rt i r = (Inr out, r')"
  obtains
    (refused) "r' = r" "\<And>j. out \<noteq> PreparedRegistryClaim j \<or>
       authority_blocker rt (ai_principal i) (ai_service i) r = (Inr (Some out), r)"
  | (admitted) s where "service_row (ai_principal i) (ai_service i) r = Some s"
      "ai_expected i = Some (sv_service_revision s)"
      "authority_blocker rt (ai_principal i) (ai_service i) r = (Inr None, r)"
      "transition_supported i s r" "insert_authority_prepared i r = (Inr (), r')"
      "out = PreparedRegistryClaim i"
proof (cases "service_row (ai_principal i) (ai_service i) r")
  case None
  then show ?thesis
    using assms refused by (auto simp: prepare_on_service_def rbind_Inr_iff get_service_run)
next
  case (Some s)
  show ?thesis
  proof (cases "ai_expected i = Some (sv_service_revision s)")
    case False
    then show ?thesis
      using assms Some refused by (auto simp: prepare_on_service_def rbind_Inr_iff get_service_run)
  next
    case True
    with assms Some obtain b where
      b: "authority_blocker rt (ai_principal i) (ai_service i) r = (Inr b, r)"
      and rest: "(case b of Some b \<Rightarrow> rret b
         | None \<Rightarrow> rbind (rget (transition_supported i s)) (\<lambda>supported.
             if \<not> supported then rret RegistryUnsupportedTransition
             else rbind (insert_authority_prepared i) (\<lambda>_. rret (PreparedRegistryClaim i)))) r =
        (Inr out, r')"
      by (auto simp: prepare_on_service_def rbind_Inr_iff get_service_run dest: authority_blocker_reads)
    show ?thesis
    proof (cases b)
      case None
      with b rest True Some refused admitted [of s] show ?thesis
        by (cases "transition_supported i s r") (auto simp: rbind_Inr_iff)
    qed (use b rest refused in auto)
  qed
qed

lemma keeps_prepare_on_service:
  assumes "registry_inv rt r" and "ai_ok rt i" and "ai_phase i = Prepared"
    and run: "prepare_on_service rt i r = (Inr out, r')"
  shows "registry_inv rt r'"
  using run
proof (cases rule: prepare_on_service_cases)
  case (admitted s)
  then show ?thesis using insert_authority_prepared_keeps [OF assms(1-3)] by blast
qed (use assms(1) in simp)

lemma keeps_prepare_import:
  assumes inv: "registry_inv rt r" and i: "portable_intent_ok rt i" "po_phase i = Prepared"
    and run: "prepare_import i now r = (Inr out, r')"
  shows "registry_inv rt r'"
proof (cases "r' = r")
  case False
  let ?d = "\<lambda>ident. \<lparr>iy_service_id = po_service_id i, iy_principal_id = po_principal_id i,
                     iy_state = IdentityImportPrepared,
                     iy_domain_name = Some (id_domain_name ident),
                     iy_storage_backend = po_destination_backend i,
                     iy_storage_namespace = id_logical_namespace ident,
                     iy_claim_key = Some (po_idempotency_key i), iy_lifecycle_at = Some now\<rparr>"
  from run False obtain ident r1 where id: "po_identity i = Some ident" and k: "po_kind i = ImportKind \<or> po_identity i \<noteq> None"
    and ins: "insert_authority_prepared (PortableIntent i) r = (Inr (), r1)"
    and idn: "insert_identity (?d ident) r1 = (Inr (), r')"
    by (auto simp: prepare_import_def rbind_Inr_iff split: if_splits option.splits)
  have ident: "import_identity_ok ident" "id_service_id ident = po_service_id i"
    using i(1) id
    by (auto simp: portable_intent_ok_def portable_shape_ok_def portable_command_for_def
        split: if_splits option.splits portable_kind.splits)
  note keep = insert_authority_prepared_keeps [OF inv _ _ ins]
  then have inv1: "registry_inv rt r1" using i by simp
  have "services_inv rt (rg_services r1) (rg_identities r1 @ [?d ident])"
    by (rule reserve_identity_keeps [OF registry_invD(1) [OF inv1]])
      (use idn ident in \<open>auto simp: insert_identity_run import_identity_ok_def\<close>)
  with idn inv1 show ?thesis by (auto simp: insert_identity_run registry_inv_def)
qed (use inv in simp)

lemma keeps_resolve_or_prepare: "keeps rt (resolve_or_prepare rt command now)"
proof (rule keepsI)
  fix r out r' assume inv: "registry_inv rt r"
    and run: "resolve_or_prepare rt command now r = (Inr out, r')"
  then obtain i where i: "prepare_registry_intent rt command = Inr i"
    and rest: "(case claim_lookup (ai_principal i) (ai_key i) r of
         Some c \<Rightarrow> existing_authority_claim rt c i
       | None \<Rightarrow>
           (case i of
              PortableIntent p \<Rightarrow>
                if po_kind p = ImportKind then prepare_import p now else prepare_on_service rt i
            | OperationalIntent _ \<Rightarrow> prepare_on_service rt i)) r = (Inr out, r')"
    by (auto simp: resolve_or_prepare_def rbind_Inr_iff rlift_Inr_iff)
  note ok = prepare_registry_intent_ok [OF i]
  show "registry_inv rt r'"
  proof (cases "claim_lookup (ai_principal i) (ai_key i) r")
    case (Some c)
    then show ?thesis using rest inv existing_authority_claim_reads [of rt c i r out r'] by simp
  next
    case None
    with rest ok inv show ?thesis
      using keeps_prepare_on_service [OF inv, of i out r'] keeps_prepare_import [OF inv]
      by (cases i) (auto split: if_splits)
  qed
qed

end
