(* ===== verification/Finalize_Inv.thy ===== *)
theory Finalize_Inv
  imports Authority_Inv
begin

text \<open>
  The finalizers of the shared claim authority keep the registry invariant, for an issued
  intent. \<open>finalize_operational\<close> catches every exception of its save: the first section shows
  that under the invariant such a save fails only before its first write, so the tables that
  \<open>mark_authority_recovery\<close> then updates are the ones before the attempt.
\<close>

section \<open>A failed save leaves the tables alone\<close>

lemma save_service_error_reads:
  assumes inv: "registry_inv rt r"
    and same: "t \<in> set (rg_services r)" "sv_principal_id t = sv_principal_id s"
      "sv_service_id t = sv_service_id s" "sv_domain_name t = sv_domain_name s"
    and run: "save_service rt s e r = (Inl err, r')"
  shows "r' = r"
proof (cases "1 \<le> e \<and> e < MAX_SERVICE_REVISION \<and> sv_service_revision s = e + 1 \<and>
    validate_service rt s")
  case False
  then show ?thesis
    using run by (auto simp: save_service_def Let_def rcheck_def split: if_splits)
next
  case True
  note d = services_invD [OF registry_invD(1) [OF inv]]
  have "x = t" if "x \<in> set (rg_services r)" "sv_principal_id x = sv_principal_id s"
      "sv_domain_name x = sv_domain_name s" for x
    by (rule unique_by_key [OF d(6) that(1) same(1)]) (use that same in simp)
  then have dom: "\<forall>x \<in> set (rg_services r). sv_principal_id x = sv_principal_id s \<and>
      sv_domain_name x = sv_domain_name s \<longrightarrow> sv_service_id x = sv_service_id s"
    using same by blast
  have "i = live_identity t" if "i \<in> set (rg_identities r)"
      "live_domain (sv_principal_id s) (sv_domain_name s) i" for i
    by (rule unique_by_key [OF d(8)]) (use that d(4) [OF same(1)] same in \<open>auto simp: live_domain_def\<close>)
  then have live: "\<forall>i \<in> set (rg_identities r).
      live_domain (sv_principal_id s) (sv_domain_name s) i \<longrightarrow> iy_service_id i = sv_service_id s"
    using same(3) by (metis live_identity_simps(1))
  have "\<exists>out r1. save_service rt s e r = (Inr out, r1)"
    unfolding save_service_run [OF registry_invD(1) [OF inv]] using True dom live
    by (cases "\<exists>old. service_row (sv_principal_id s) (sv_service_id s) r = Some old \<and>
        sv_service_revision old = e") auto
  with run show ?thesis by auto
qed

lemma rbind_Inl_iff: "rbind m f s = (Inl e, s') \<longleftrightarrow>
    m s = (Inl e, s') \<or> (\<exists>x t. m s = (Inr x, t) \<and> f x t = (Inl e, s'))"
  by (auto simp: rbind_def split: prod.splits sum.splits)

lemma rcheck_Inl: "rcheck b s = (Inl e, s') \<Longrightarrow> s' = s"
  by (auto simp: rcheck_def split: if_splits)

lemma rlift_Inl: "rlift m s = (Inl e, s') \<Longrightarrow> s' = s"
  by (auto simp: rlift_def split: sum.splits)

lemma operational_terminal_error_reads:
  assumes inv: "registry_inv rt r"
    and found: "found = service_row p u r"
    and run: "operational_terminal rt i found t r = (Inl err, r')"
  shows "r' = r"
proof (cases found)
  case (Some s)
  have s: "s \<in> set (rg_services r)" using found Some service_row_Some [of p u r s] by simp
  let ?moved = "\<lambda>target. s\<lparr>sv_operational_status := target, sv_updated_at := t,
              sv_last_activity_at := t, sv_service_revision := sv_service_revision s + 1\<rparr>"
  have save: "r1 = r" if "save_service rt (?moved target) e r = (Inl err, r1)" for target e r1
    by (rule save_service_error_reads [OF inv s _ _ _ that]) simp_all
  show ?thesis
  proof (rule ccontr)
    assume "r' \<noteq> r"
    with run Some save obtain target e saved r1
      where "save_service rt (?moved target) e r = (Inr saved, r1)" "saved \<noteq> Saved" "r' = r1"
      by (auto simp: operational_terminal_def rbind_Inl_iff rlift_Inr_iff rcheck_Inr_iff
          make_service_def valued_Inr_iff rcheck_def dest: rcheck_Inl rlift_Inl split: if_splits)
    with \<open>r' \<noteq> r\<close> show False by (cases saved) (auto dest: stale_save_reads)
  qed
qed (use run in \<open>simp add: operational_terminal_def\<close>)

lemma operational_terminal_run:
  "operational_terminal rt i found t r = (Inr s', r') \<longleftrightarrow>
     (\<exists>s target. found = Some s \<and>
        sv_service_revision s = oc_expected_service_revision (oi_command i) \<and>
        sv_updated_at s \<le> t \<and>
        transition_target_status (oi_command i) (sv_design_state s) (sv_operational_status s) =
          Inr target \<and>
        s' = s\<lparr>sv_operational_status := target, sv_updated_at := t,
              sv_last_activity_at := t, sv_service_revision := sv_service_revision s + 1\<rparr> \<and>
        service_ok s' \<and>
        save_service rt s' (oc_expected_service_revision (oi_command i)) r = (Inr Saved, r'))"
  by (auto simp: operational_terminal_def rbind_Inr_iff rcheck_Inr_iff rlift_Inr_iff
      make_service_def valued_Inr_iff split: option.splits)

lemma finalize_operational_cases:
  assumes inv: "registry_inv rt r" and iss: "issued r (OperationalIntent i)"
    and run: "finalize_operational rt i t r = (Inr out, r')"
  obtains
    (other) "r' = r" "\<And>j. out \<noteq> PreparedRegistryClaim j"
  | (recovery) c where
      "claim_lookup (oc_principal_id (oi_command i)) (oc_idempotency_key (oi_command i)) r = Some c"
      "authority_row_for (OperationalIntent i) c"
      "mark_authority_recovery rt (OperationalIntent i) t r = (Inr out, r')"
  | (completed) c s r1 where
      "claim_lookup (oc_principal_id (oi_command i)) (oc_idempotency_key (oi_command i)) r = Some c"
      "authority_row_for (OperationalIntent i) c"
      "operational_terminal rt i
         (service_row (oc_principal_id (oi_command i)) (oc_service_id (oi_command i)) r) t r =
         (Inr s, r1)"
      "complete_authority rt (OperationalIntent i) (ServiceResult s) t r1 = (Inr out, r')"
  using run iss unfolding finalize_operational_def
proof (cases rule: if_prepared_cases)
  case other
  then show ?thesis using that(1) by blast
next
  case (prepared c)
  let ?found = "service_row (oc_principal_id (oi_command i)) (oc_service_id (oi_command i)) r"
  have "rbind (rcatch (rbind (operational_terminal rt i ?found t) (\<lambda>s. rret (Some s))) (rret None))
      (\<lambda>outcome. case outcome of None \<Rightarrow> mark_authority_recovery rt (OperationalIntent i) t
         | Some s \<Rightarrow> complete_authority rt (OperationalIntent i) (ServiceResult s) t) r = (Inr out, r')"
    using prepared(5) by (subst (asm) rbind_Inr_iff) (auto simp: get_service_run)
  then have rest: "(case rcatch (rbind (operational_terminal rt i ?found t) (\<lambda>s. rret (Some s)))
        (rret None) r of (Inl e, x) \<Rightarrow> (Inl e, x) | (Inr outcome, x) \<Rightarrow>
        (case outcome of None \<Rightarrow> mark_authority_recovery rt (OperationalIntent i) t
         | Some s \<Rightarrow> complete_authority rt (OperationalIntent i) (ServiceResult s) t) x) = (Inr out, r')"
    by (simp add: rbind_apply)
  show ?thesis
  proof (cases "operational_terminal rt i ?found t r")
    case (Pair res r1)
    show ?thesis
    proof (cases res)
      case (Inl e)
      then have "r1 = r" using operational_terminal_error_reads [OF inv refl] Pair by blast
      with rest Pair Inl prepared that(2) show ?thesis by (simp add: rcatch_def rbind_apply)
    next
      case (Inr s)
      with rest Pair prepared that(3) show ?thesis by (simp add: rcatch_def rbind_apply)
    qed
  qed
qed

lemma finalize_operational_keeps:
  assumes inv: "registry_inv rt r" and iss: "issued r (OperationalIntent i)"
    and run: "finalize_operational rt i t r = (Inr out, r')"
  shows "registry_inv rt r'"
  using inv iss run
proof (cases rule: finalize_operational_cases)
  case (recovery c)
  then show ?thesis using mark_authority_recovery_keeps [OF inv _ recovery(2,3)] by simp
next
  case (completed c s r1)
  then obtain e where "save_service rt s e r = (Inr Saved, r1)"
    by (auto simp: operational_terminal_run)
  note k = save_service_keeps [OF inv this]
  then have "claim_lookup p key r1 = claim_lookup p key r" for p key by (simp add: claim_lookup_def)
  with completed(1) k show ?thesis
    using complete_authority_keeps [OF _ _ completed(2,4)] by simp
qed (use inv in simp)

section \<open>Export, import and purge\<close>

lemma insert_receipt_frame:
  "insert_receipt i receipt r = (Inr x, r') \<Longrightarrow>
     rg_services r' = rg_services r \<and> rg_identities r' = rg_identities r \<and>
     rg_claims r' = rg_claims r \<and> rg_audits r' = rg_audits r"
  by (auto simp: insert_receipt_def rbind_Inr_iff rcheck_Inr_iff)

lemma complete_export_keeps:
  assumes inv: "registry_inv rt r" and iss: "issued r (PortableIntent i)"
    and run: "complete_export rt i receipt r = (Inr out, r')"
  shows "registry_inv rt r'"
proof -
  let ?found = "service_row (po_principal_id i) (po_service_id i) r"
  let ?ok = "case ?found of None \<Rightarrow> False | Some s \<Rightarrow> export_matches i receipt s r"
  from run have "if_prepared rt (PortableIntent i)
       (rbind (get_service rt (po_principal_id i) (po_service_id i)) (\<lambda>found.
        rbind (rget (\<lambda>r. case found of None \<Rightarrow> False | Some s \<Rightarrow> export_matches i receipt s r)) (\<lambda>ok.
          if \<not> ok then mark_authority_recovery rt (PortableIntent i) (tr_created_at receipt)
          else rbind (insert_receipt i receipt) (\<lambda>_.
              complete_authority rt (PortableIntent i) (ReceiptResult receipt)
                (tr_created_at receipt))))) r = (Inr out, r')"
    by (simp add: complete_export_def rbind_Inr_iff rcheck_Inr_iff)
  from this iss show ?thesis
  proof (cases rule: if_prepared_cases)
    case (prepared c)
    show ?thesis
    proof (cases ?ok)
      case False
      then have "mark_authority_recovery rt (PortableIntent i) (tr_created_at receipt) r = (Inr out, r')"
        using prepared(5) by (auto simp: rbind_Inr_iff get_service_run)
      then show ?thesis using mark_authority_recovery_keeps [OF inv prepared(1,2)] by blast
    next
      case True
      then obtain r1 where ins: "insert_receipt i receipt r = (Inr (), r1)"
        and comp: "complete_authority rt (PortableIntent i) (ReceiptResult receipt)
          (tr_created_at receipt) r1 = (Inr out, r')"
        using prepared(5) by (auto simp: rbind_Inr_iff get_service_run)
      note fr = insert_receipt_frame [OF ins]
      then have inv1: "registry_inv rt r1" using inv by (simp add: registry_inv_def)
      show ?thesis
        by (rule complete_authority_keeps [OF inv1 _ prepared(2) comp])
          (use prepared(1) fr in \<open>simp add: claim_lookup_def\<close>)
    qed
  qed (use inv in simp)
qed

lemma import_matches_reservation:
  assumes "import_matches i s receipt r"
  obtains ident res where "po_identity i = Some ident" "res \<in> set (rg_identities r)"
    "iy_service_id res = po_service_id i" "iy_state res = IdentityImportPrepared"
    "iy_principal_id res = sv_principal_id s" "iy_domain_name res = Some (sv_domain_name s)"
    "iy_claim_key res = Some (po_idempotency_key i)" "sv_service_id s = id_service_id ident"
    "sv_principal_id s = id_principal_id ident"
  using assms
  by (auto simp: import_matches_def split: option.splits dest!: find_Some_iff_first)

lemma portable_identity:
  "portable_intent_ok rt i \<Longrightarrow> po_identity i = Some ident \<Longrightarrow> id_service_id ident = po_service_id i"
  by (auto simp: portable_intent_ok_def portable_shape_ok_def split: if_splits)

lemma publish_import_keeps:
  assumes inv: "registry_inv rt r" and iss: "issued r (PortableIntent i)"
    and run: "publish_import rt i s receipt r = (Inr out, r')"
  shows "registry_inv rt r'"
proof -
  from run have "if_prepared rt (PortableIntent i)
       (rbind (rget (import_matches i s receipt)) (\<lambda>ok.
          if \<not> ok then mark_authority_recovery rt (PortableIntent i) (tr_created_at receipt)
          else
            rbind (insert_service rt s) (\<lambda>_.
            rbind (publish_identity i s) (\<lambda>_.
            rbind (insert_receipt i receipt) (\<lambda>_.
              complete_authority rt (PortableIntent i) (ServiceResult s) (tr_created_at receipt)))))) r =
      (Inr out, r')"
    by (simp add: publish_import_def rbind_Inr_iff rcheck_Inr_iff)
  from this iss show ?thesis
  proof (cases rule: if_prepared_cases)
    case (prepared c)
    show ?thesis
    proof (cases "import_matches i s receipt r")
      case False
      then have "mark_authority_recovery rt (PortableIntent i) (tr_created_at receipt) r = (Inr out, r')"
        using prepared(5) by (auto simp: rbind_Inr_iff)
      then show ?thesis using mark_authority_recovery_keeps [OF inv prepared(1,2)] by blast
    next
      case True
      then obtain r1 r2 r3 where ins: "insert_service rt s r = (Inr (), r1)"
        and pub: "publish_identity i s r1 = (Inr (), r2)"
        and rec: "insert_receipt i receipt r2 = (Inr (), r3)"
        and comp: "complete_authority rt (PortableIntent i) (ServiceResult s)
          (tr_created_at receipt) r3 = (Inr out, r')"
        using prepared(5) by (auto simp: rbind_Inr_iff)
      from True obtain ident res where res: "po_identity i = Some ident" "res \<in> set (rg_identities r)"
        "iy_service_id res = po_service_id i" "iy_state res = IdentityImportPrepared"
        "iy_principal_id res = sv_principal_id s" "iy_domain_name res = Some (sv_domain_name s)"
        "iy_claim_key res = Some (po_idempotency_key i)" "sv_service_id s = id_service_id ident"
        by (rule import_matches_reservation)
      then have id: "iy_service_id res = sv_service_id s"
        using portable_identity [of rt i] prepared(3) by simp
      note r1 = ins [unfolded insert_service_run]
      have r2: "rg_services r2 = rg_services r @ [s]" "rg_claims r2 = rg_claims r"
        "rg_audits r2 = rg_audits r"
        "rg_identities r2 = update_where (\<lambda>x. iy_service_id x = sv_service_id s) (\<lambda>_. live_identity s)
           (rg_identities r)"
        using pub r1 publish_identity_eq [OF registry_invD(1) [OF inv] res(2), of i s] res id
        by (auto simp: publish_identity_def rbind_Inr_iff rcheck_Inr_iff reserved_identity_def)
      have "services_inv rt (rg_services r2) (rg_identities r2)"
        unfolding r2
        by (rule publish_keeps [OF registry_invD(1) [OF inv] res(2,4) id res(5,6)]) (use r1 in auto)
      with r2 insert_receipt_frame [OF rec] inv
      have inv3: "registry_inv rt r3" and cl: "rg_claims r3 = rg_claims r"
        by (simp_all add: registry_inv_def)
      show ?thesis
        by (rule complete_authority_keeps [OF inv3 _ prepared(2) comp])
          (use prepared(1) cl in \<open>simp add: claim_lookup_def\<close>)
    qed
  qed (use inv in simp)
qed

lemma erase_service_run:
  "erase_service i t r = (Inr x, r') \<longleftrightarrow>
     (\<forall>c \<in> set (rg_claims r). purged_claim i c \<longrightarrow> claim_shape_ok (tombstone_claim c)) \<and>
     rowcount (purged_service i) (rg_services r) = 1 \<and>
     rowcount (purged_identity i) (rg_identities r) = 1 \<and>
     r' = r\<lparr>rg_receipts := delete_where (purged_receipt i) (rg_receipts r),
            rg_claims := update_where (purged_claim i) tombstone_claim (rg_claims r),
            rg_services := delete_where (purged_service i) (rg_services r),
            rg_identities := update_where (purged_identity i)
              (\<lambda>x. x\<lparr>iy_state := IdentityTombstoned, iy_domain_name := None,
                    iy_storage_backend := None, iy_claim_key := Some (po_idempotency_key i),
                    iy_lifecycle_at := Some t\<rparr>) (rg_identities r)\<rparr>"
  by (auto simp: erase_service_def rbind_Inr_iff rcheck_Inr_iff)

lemma erase_service_keeps:
  assumes inv: "registry_inv rt r" and run: "erase_service i t r = (Inr x, r')"
  shows "registry_inv rt r'"
    and "claim_lookup (po_principal_id i) (po_idempotency_key i) r' =
      claim_lookup (po_principal_id i) (po_idempotency_key i) r"
proof -
  note r' = run [unfolded erase_service_run]
  have "claims_inv rt (update_where (purged_claim i) tombstone_claim (rg_claims r))"
    by (rule update_claims_keeps [OF registry_invD(2) [OF inv]])
      (use r' in \<open>auto simp: tombstone_claim_def claim_key_def active_key_def active_phase_def claim_ok_def\<close>)
  moreover have "services_inv rt (delete_where (purged_service i) (rg_services r))
      (update_where (purged_identity i) (\<lambda>x. x\<lparr>iy_state := IdentityTombstoned, iy_domain_name := None,
          iy_storage_backend := None, iy_claim_key := Some (po_idempotency_key i),
          iy_lifecycle_at := Some t\<rparr>) (rg_identities r))"
    by (rule erase_keeps [OF registry_invD(1) [OF inv]]) simp
  ultimately show "registry_inv rt r'" using r' registry_invD(3) [OF inv] by (simp add: registry_inv_def)
  show "claim_lookup (po_principal_id i) (po_idempotency_key i) r' =
      claim_lookup (po_principal_id i) (po_idempotency_key i) r"
    using r' by (auto simp: claim_lookup_def tombstone_claim_def purged_claim_def
        intro!: find_update_where_other)
qed

text \<open>The successful ends of a purge that was prepared.\<close>

lemma finalize_purge_cases:
  assumes "finalize_purge rt i t r = (Inr out, r')" and "issued r (PortableIntent i)"
  obtains
    (other) "r' = r" "\<And>j. out \<noteq> PreparedRegistryClaim j"
  | (recovery) c where "claim_lookup (po_principal_id i) (po_idempotency_key i) r = Some c"
      "authority_row_for (PortableIntent i) c"
      "mark_authority_recovery rt (PortableIntent i) t r = (Inr out, r')"
  | (purged) c s a r1 where "claim_lookup (po_principal_id i) (po_idempotency_key i) r = Some c"
      "authority_row_for (PortableIntent i) c" "po_kind i = PurgeKind" "portable_intent_ok rt i"
      "service_row (po_principal_id i) (po_service_id i) r = Some s"
      "po_purge_authority i = Some a" "Some (sv_service_revision s) = po_expected_service_revision i"
      "sv_operational_status s = Archived" "sv_updated_at s \<le> t" "purge_receipt_valid i r"
      "erase_service i t r = (Inr (), r1)"
      "complete_authority rt (PortableIntent i)
         (TombstoneResult (purge_tombstone_of i s a t)) t r1 = (Inr out, r')"
proof -
  let ?mark = "mark_authority_recovery rt (PortableIntent i) t"
  from assms(1) have kind: "po_kind i = PurgeKind" by (simp add: finalize_purge_def rbind_Inr_iff rcheck_Inr_iff)
  from assms(1) have "if_prepared rt (PortableIntent i)
       (rbind (get_service rt (po_principal_id i) (po_service_id i)) (\<lambda>found.
        rbind (rget (purge_receipt_valid i)) (\<lambda>receipt_valid.
          case (found, po_purge_authority i) of
            (Some s, Some a) \<Rightarrow>
              if Some (sv_service_revision s) \<noteq> po_expected_service_revision i \<or>
                 sv_operational_status s \<noteq> Archived \<or> t < sv_updated_at s \<or> \<not> receipt_valid
              then ?mark
              else
                rbind (rcheck (purge_tombstone_ok (purge_tombstone_of i s a t))) (\<lambda>_.
                rbind (erase_service i t) (\<lambda>_.
                  complete_authority rt (PortableIntent i)
                    (TombstoneResult (purge_tombstone_of i s a t)) t))
          | _ \<Rightarrow> ?mark))) r = (Inr out, r')"
    by (simp add: finalize_purge_def rbind_Inr_iff rcheck_Inr_iff)
  from this assms(2) show ?thesis
  proof (cases rule: if_prepared_cases)
    case other
    then show ?thesis using that(1) by blast
  next
    case (prepared c)
    note row = prepared(1,2) [simplified]
    show ?thesis
    proof (cases "service_row (po_principal_id i) (po_service_id i) r")
      case None
      then have "?mark r = (Inr out, r')" using prepared(5) by (simp add: rbind_Inr_iff get_service_run)
      with row that(2) show ?thesis by blast
    next
      case (Some s)
      show ?thesis
      proof (cases "po_purge_authority i")
        case None
        then have "?mark r = (Inr out, r')"
          using prepared(5) Some by (simp add: rbind_Inr_iff get_service_run)
        with row that(2) show ?thesis by blast
      next
        case a: (Some a)
        show ?thesis
        proof (cases "Some (sv_service_revision s) \<noteq> po_expected_service_revision i \<or>
                 sv_operational_status s \<noteq> Archived \<or> t < sv_updated_at s \<or> \<not> purge_receipt_valid i r")
          case True
          then have "?mark r = (Inr out, r')"
            using prepared(5) Some a by (auto simp: rbind_Inr_iff get_service_run split: if_splits)
          with row that(2) show ?thesis by blast
        next
          case False
          then obtain r1 where "erase_service i t r = (Inr (), r1)"
            "complete_authority rt (PortableIntent i)
               (TombstoneResult (purge_tombstone_of i s a t)) t r1 = (Inr out, r')"
            using prepared(5) Some a
            by (auto simp: rbind_Inr_iff rcheck_Inr_iff get_service_run split: if_splits)
          with False row kind Some a prepared(3) that(3) [of c s a r1] show ?thesis by simp
        qed
      qed
    qed
  qed
qed

lemma finalize_purge_keeps:
  assumes inv: "registry_inv rt r" and iss: "issued r (PortableIntent i)"
    and run: "finalize_purge rt i t r = (Inr out, r')"
  shows "registry_inv rt r'"
  using run iss
proof (cases rule: finalize_purge_cases)
  case (recovery c)
  then show ?thesis using mark_authority_recovery_keeps [OF inv _ recovery(2,3)] by simp
next
  case (purged c s a r1)
  show ?thesis
    by (rule complete_authority_keeps [OF erase_service_keeps(1) [OF inv purged(11)] _ purged(2,12)])
      (use erase_service_keeps(2) [OF inv purged(11)] purged(1) in simp)
qed (use inv in simp)

lemma mark_recovery_required_keeps:
  assumes inv: "registry_inv rt r" and iss: "issued r i"
    and run: "mark_recovery_required rt i t r = (Inr out, r')"
  shows "registry_inv rt r'"
  using run iss unfolding mark_recovery_required_def
proof (cases rule: if_prepared_cases)
  case (prepared c)
  then show ?thesis using mark_authority_recovery_keeps [OF inv] by blast
qed (use inv in simp)

section \<open>Transactions\<close>

text \<open>One repository method of one transaction. A transaction that fails is rolled back, so a
  failing run is no step. \<open>RegistryStep\<close> names the writing methods with their arguments; the
  reading ones leave the tables as they are.\<close>

inductive registry_step :: "runtime \<Rightarrow> registry \<Rightarrow> registry \<Rightarrow> bool" for rt where
  add: "add_service rt s r = (Inr x, r') \<Longrightarrow> registry_step rt r r'"
| save: "save_service rt s e r = (Inr res, r') \<Longrightarrow> registry_step rt r r'"
| audit: "append_audit k out u p via t r = (Inr x, r') \<Longrightarrow> registry_step rt r r'"
| complete_nl: "complete_non_lifecycle rt kind p key fp s r = (Inr x, r') \<Longrightarrow> registry_step rt r r'"
| admit: "resolve_or_admit rt command r = (Inr o1, r') \<Longrightarrow> registry_step rt r r'"
| finalize: "finalize_completed rt co r = (Inr o1, r') \<Longrightarrow> registry_step rt r r'"
| poison: "finalize_recovery_required rt li t r = (Inr o1, r') \<Longrightarrow> registry_step rt r r'"
| prepare: "resolve_or_prepare rt ac now r = (Inr o2, r') \<Longrightarrow> registry_step rt r r'"
| operational: "issued r (OperationalIntent oi) \<Longrightarrow> finalize_operational rt oi t r = (Inr o2, r') \<Longrightarrow>
    registry_step rt r r'"
| export: "issued r (PortableIntent i) \<Longrightarrow> complete_export rt i receipt r = (Inr o2, r') \<Longrightarrow>
    registry_step rt r r'"
| publish: "issued r (PortableIntent i) \<Longrightarrow> publish_import rt i s receipt r = (Inr o2, r') \<Longrightarrow>
    registry_step rt r r'"
| purge: "issued r (PortableIntent i) \<Longrightarrow> finalize_purge rt i t r = (Inr o2, r') \<Longrightarrow>
    registry_step rt r r'"
| poison_authority: "issued r ai \<Longrightarrow> mark_recovery_required rt ai t r = (Inr o2, r') \<Longrightarrow>
    registry_step rt r r'"

lemmas keeps_methods = keeps_add_service keeps_save_service keeps_append_audit
  keeps_complete_non_lifecycle keeps_resolve_or_admit keeps_finalize_completed
  keeps_finalize_recovery_required keeps_resolve_or_prepare

lemmas keeps_finalizers = finalize_operational_keeps complete_export_keeps publish_import_keeps
  finalize_purge_keeps mark_recovery_required_keeps

lemma registry_step_keeps: "registry_step rt r r' \<Longrightarrow> registry_inv rt r \<Longrightarrow> registry_inv rt r'"
  by (induction rule: registry_step.induct) (blast intro: keeps_methods [THEN keepsD] keeps_finalizers)+

inductive registry_reachable :: "runtime \<Rightarrow> registry \<Rightarrow> bool" for rt where
  initial: "registry_reachable rt empty_registry"
| step: "registry_reachable rt r \<Longrightarrow> registry_step rt r r' \<Longrightarrow> registry_reachable rt r'"

lemma reachable_inv: "registry_reachable rt r \<Longrightarrow> registry_inv rt r"
  by (induction rule: registry_reachable.induct) (auto intro: empty_registry_inv registry_step_keeps)

end
