(* ===== verification/Ledger_History.thy ===== *)
theory Ledger_History
  imports Finalize_Inv
begin

text \<open>
  How the claim and identity tables evolve over the steps of the registry: a claim row is never
  deleted and never changes its key, fingerprint, kind or service; it leaves the prepared phase
  once, and a terminal row only ever becomes a tombstone. A tombstoned identity stays one.
\<close>

definition claim_evolves :: "claim_row \<Rightarrow> claim_row \<Rightarrow> bool" where
  "claim_evolves c d \<longleftrightarrow>
     claim_key d = claim_key c \<and> cl_fingerprint d = cl_fingerprint c \<and> cl_kind d = cl_kind c \<and>
     cl_service_id d = cl_service_id c \<and>
     (d = c \<or> cl_phase d = PhaseTombstoned \<or>
      cl_phase c = PhasePrepared \<and> cl_phase d \<in> {PhaseCompleted, PhaseRecoveryRequired})"

definition claims_evolve :: "claim_row list \<Rightarrow> claim_row list \<Rightarrow> bool" where
  "claims_evolve cs ds \<longleftrightarrow> (\<forall>c \<in> set cs. \<exists>d \<in> set ds. claim_evolves c d)"

lemma claim_evolves_refl [simp]: "claim_evolves c c"
  by (simp add: claim_evolves_def)

lemma claim_evolves_trans: "claim_evolves c d \<Longrightarrow> claim_evolves d e \<Longrightarrow> claim_evolves c e"
  by (auto simp: claim_evolves_def)

lemma claims_evolve_refl [simp]: "claims_evolve cs cs"
  by (auto simp: claims_evolve_def intro: claim_evolves_refl)

lemma claims_evolve_trans: "claims_evolve cs ds \<Longrightarrow> claims_evolve ds es \<Longrightarrow> claims_evolve cs es"
  unfolding claims_evolve_def by (meson claim_evolves_trans)

lemma claims_evolve_append [simp]: "claims_evolve cs (cs @ ds)"
  by (auto simp: claims_evolve_def intro: claim_evolves_refl)

lemma claims_evolve_update:
  assumes "\<And>c. c \<in> set cs \<Longrightarrow> p c \<Longrightarrow> claim_evolves c (f c)"
  shows "claims_evolve cs (update_where p f cs)"
  unfolding claims_evolve_def
proof
  fix c assume "c \<in> set cs"
  then show "\<exists>d \<in> set (update_where p f cs). claim_evolves c d"
    using assms [of c]
    by (intro bexI [of _ "if p c then f c else c"]) (auto simp: set_update_where)
qed

section \<open>The claim table\<close>

definition tombstones :: "identity_row list \<Rightarrow> identity_row set" where
  "tombstones is = {i \<in> set is. iy_state i = IdentityTombstoned}"

definition registry_evolves :: "registry \<Rightarrow> registry \<Rightarrow> bool" where
  "registry_evolves r r' \<longleftrightarrow> claims_evolve (rg_claims r) (rg_claims r') \<and>
     tombstones (rg_identities r) \<subseteq> tombstones (rg_identities r')"

lemma registry_evolves_refl [simp]: "registry_evolves r r"
  by (simp add: registry_evolves_def)

lemma registry_evolves_trans: "registry_evolves r s \<Longrightarrow> registry_evolves s t \<Longrightarrow> registry_evolves r t"
  unfolding registry_evolves_def using claims_evolve_trans by blast

lemma tombstones_append [simp]: "tombstones (is @ js) = tombstones is \<union> tombstones js"
  by (auto simp: tombstones_def)

lemma tombstones_update:
  "(\<And>i. i \<in> set is \<Longrightarrow> p i \<Longrightarrow> iy_state i \<noteq> IdentityTombstoned) \<Longrightarrow> x \<in> tombstones is \<Longrightarrow>
   x \<in> tombstones (update_where p f is)"
  by (force simp: tombstones_def set_update_where)

text \<open>A method that changes the claims by appending a row, by ending prepared rows, or by
  tombstoning.\<close>

definition evolves :: "'a reg \<Rightarrow> bool" where
  "evolves m \<longleftrightarrow> (\<forall>r x r'. m r = (Inr x, r') \<longrightarrow> registry_evolves r r')"

lemma evolvesI: "(\<And>r x r'. m r = (Inr x, r') \<Longrightarrow> registry_evolves r r') \<Longrightarrow> evolves m"
  by (auto simp: evolves_def)

lemma evolvesD: "evolves m \<Longrightarrow> m r = (Inr x, r') \<Longrightarrow> registry_evolves r r'"
  by (auto simp: evolves_def)

named_theorems evolve_intros

lemma evolves_bind [evolve_intros]:
  "evolves m \<Longrightarrow> (\<And>x. evolves (f x)) \<Longrightarrow> evolves (rbind m f)"
  unfolding evolves_def rbind_Inr_iff by (meson registry_evolves_trans)

lemma evolves_basic [evolve_intros]:
  "evolves (rret x)" "evolves (rcheck b)" "evolves (rlift m)" "evolves (rget g)" "evolves rfail"
  "evolves (get_service rt p u)" "evolves (decode_result rt d p u)"
  "evolves (decode_lifecycle_intent rt c)" "evolves (decode_authority_intent rt c)"
  "evolves (decode_authority_result rt c i)" "evolves (append_audit k out u p via t)"
  "evolves (insert_claim c)" "evolves (insert_service rt s)" "evolves (insert_identity ident)"
  "evolves (insert_receipt pin receipt)" "evolves (publish_identity pin s)"
  by (auto simp: evolves_def registry_evolves_def run_simps publish_identity_def
      reserved_identity_def intro!: tombstones_update dest: insert_receipt_frame)

lemma evolves_save [evolve_intros]: "evolves (save_service rt s e)"
  by (auto simp: evolves_def registry_evolves_def save_service_def Let_def run_simps owned_live_def
      intro!: tombstones_update split: if_splits)

lemma evolves_update_prepared [evolve_intros]:
  assumes "\<And>c. cl_phase c = PhasePrepared \<Longrightarrow> claim_evolves c (f c)"
  shows "evolves (update_prepared p key fp f)"
  by (auto simp: evolves_def registry_evolves_def run_simps prepared_row_def
      intro!: claims_evolve_update assms)

lemma evolves_if [evolve_intros]: "(b \<Longrightarrow> evolves m) \<Longrightarrow> (\<not> b \<Longrightarrow> evolves n) \<Longrightarrow> evolves (if b then m else n)"
  by simp

lemma evolves_mark_recovery [evolve_intros]: "evolves (mark_recovery rt i t)"
  unfolding mark_recovery_def append_terminal_def
  by (intro evolve_intros) (simp add: claim_evolves_def claim_key_def)

lemma evolves_mark_authority [evolve_intros]: "evolves (mark_authority_recovery rt i t)"
  unfolding mark_authority_recovery_def append_local_event_def
  by (intro evolve_intros) (simp add: claim_evolves_def claim_key_def)

lemma evolves_complete_authority [evolve_intros]: "evolves (complete_authority rt i v t)"
  unfolding complete_authority_def append_local_event_def
  by (intro evolve_intros) (simp add: claim_evolves_def claim_key_def)

lemma evolves_reads [evolve_intros]:
  "evolves (existing_lifecycle_claim rt c command fp)" "evolves (existing_authority_claim rt c i)"
  "evolves (authority_blocker rt p u)" "evolves (terminal_or_prepared rt li)"
  "evolves (blocking_outcome rt c)"
  by (auto simp: evolves_def existing_lifecycle_claim_run dest: existing_authority_claim_reads
      authority_blocker_reads blocking_outcome_run elim!: terminal_or_prepared_cases)

lemma evolves_rcatch [evolve_intros]:
  "evolves m \<Longrightarrow> (\<And>r e r' x r''. m r = (Inl e, r') \<Longrightarrow> h r' = (Inr x, r'') \<Longrightarrow>
      registry_evolves r r'') \<Longrightarrow> evolves (rcatch m h)"
  unfolding evolves_def rcatch_def by (auto split: prod.splits sum.splits)

lemma evolves_resolve_or_admit: "evolves (resolve_or_admit rt command)"
proof (rule evolvesI)
  fix r out r' assume "resolve_or_admit rt command r = (Inr out, r')"
  then show "registry_evolves r r'"
    by (cases rule: resolve_or_admit_cases)
      (auto simp: existing_lifecycle_claim_run insert_prepared_def registry_evolves_def run_simps)
qed

lemma evolves_finalize_completed: "evolves (finalize_completed rt co)"
proof (rule evolvesI)
  fix r out r' assume "finalize_completed rt co r = (Inr out, r')"
  then show "registry_evolves r r'"
  proof (cases rule: finalize_completed_cases)
    case (recovery c)
    then show ?thesis using evolvesD [OF evolves_mark_recovery] by blast
  next
    case (stale c s)
    then show ?thesis using evolvesD [OF evolves_mark_recovery] by blast
  next
    case (completed c s r1)
    have "evolves (rbind (update_prepared (cf_principal_id (li_fields (co_intent co)))
          (cf_idempotency_key (li_fields (co_intent co))) (li_fingerprint (co_intent co))
          (\<lambda>c. c\<lparr>cl_phase := PhaseCompleted,
                cl_result := Some (ServiceDocument (terminal_service s co))\<rparr>))
         (\<lambda>_. append_terminal (co_intent co) CompletedEvent (co_at co)))"
      unfolding append_terminal_def
      by (intro evolve_intros) (simp add: claim_evolves_def claim_key_def)
    from evolvesD [OF this completed(11)] evolvesD [OF evolves_save completed(7)] show ?thesis
      by (rule registry_evolves_trans [rotated])
  qed simp
qed

lemma evolves_finalize_recovery: "evolves (finalize_recovery_required rt li t)"
  unfolding finalize_recovery_required_def by (intro evolve_intros)

lemma evolves_if_prepared [evolve_intros]: "evolves body \<Longrightarrow> evolves (if_prepared rt i body)"
proof -
  assume body: "evolves body"
  have "evolves (authority_prepared_or_terminal rt i)"
    by (auto simp: evolves_def dest: authority_prepared_or_terminal_run)
  moreover have "evolves (case out of PreparedRegistryClaim _ \<Rightarrow> body | _ \<Rightarrow> rret out)" for out
    by (cases out) (simp_all add: body evolve_intros)
  ultimately show ?thesis unfolding if_prepared_def by (intro evolve_intros)
qed

lemma evolves_insert_authority [evolve_intros]: "evolves (insert_authority_prepared i)"
  unfolding insert_authority_prepared_def by (intro evolve_intros)

lemma evolves_prepare_on_service [evolve_intros]: "evolves (prepare_on_service rt i)"
proof (rule evolvesI)
  fix r out r' assume "prepare_on_service rt i r = (Inr out, r')"
  then show "registry_evolves r r'"
    by (cases rule: prepare_on_service_cases)
      (auto dest: evolvesD [OF evolves_insert_authority])
qed

lemma evolves_case_option [evolve_intros]:
  "evolves m \<Longrightarrow> (\<And>x. evolves (f x)) \<Longrightarrow> evolves (case v of None \<Rightarrow> m | Some x \<Rightarrow> f x)"
  by (cases v) simp_all

lemma evolves_resolve_or_prepare: "evolves (resolve_or_prepare rt command now)"
proof -
  have "evolves (prepare_import i now)" for i
    unfolding prepare_import_def by (intro evolve_intros)
  then show ?thesis
    unfolding resolve_or_prepare_def
    by (intro evolve_intros) (auto intro!: evolve_intros split: authority_intent.splits)
qed

section \<open>Finalizers\<close>

lemma evolves_complete_export: "evolves (complete_export rt i receipt)"
  unfolding complete_export_def by (intro evolve_intros)

lemma evolves_publish_import: "evolves (publish_import rt i s receipt)"
  unfolding publish_import_def by (intro evolve_intros)

lemma evolves_mark_required: "evolves (mark_recovery_required rt i t)"
  unfolding mark_recovery_required_def by (intro evolve_intros)

lemma erase_service_evolves: "erase_service i t r = (Inr x, r') \<Longrightarrow> registry_evolves r r'"
  unfolding erase_service_run registry_evolves_def
  by (auto intro!: claims_evolve_update tombstones_update
      simp: claim_evolves_def claim_key_def tombstone_claim_def purged_identity_def)

lemma finalize_purge_evolves:
  assumes "issued r (PortableIntent i)" and "finalize_purge rt i t r = (Inr out, r')"
  shows "registry_evolves r r'"
  using assms(2,1)
proof (cases rule: finalize_purge_cases)
  case (recovery c)
  then show ?thesis using evolvesD [OF evolves_mark_authority] by blast
next
  case (purged c s a r1)
  from erase_service_evolves [OF purged(11)] evolvesD [OF evolves_complete_authority purged(12)]
  show ?thesis by (rule registry_evolves_trans)
qed simp

lemma finalize_operational_evolves:
  assumes "registry_inv rt r" and "issued r (OperationalIntent i)"
    and "finalize_operational rt i t r = (Inr out, r')"
  shows "registry_evolves r r'"
  using assms
proof (cases rule: finalize_operational_cases)
  case (recovery c)
  then show ?thesis using evolvesD [OF evolves_mark_authority] by blast
next
  case (completed c s r1)
  then obtain e where "save_service rt s e r = (Inr Saved, r1)" by (auto simp: operational_terminal_run)
  from evolvesD [OF evolves_save this] evolvesD [OF evolves_complete_authority completed(4)]
  show ?thesis by (rule registry_evolves_trans)
qed simp

lemma evolves_add_service: "evolves (add_service rt s)"
  unfolding add_service_def by (intro evolve_intros)

lemma evolves_complete_non_lifecycle: "evolves (complete_non_lifecycle rt kind p key fp s)"
  unfolding complete_non_lifecycle_def by (intro evolve_intros)

lemmas evolves_methods = evolves_add_service evolves_save evolves_complete_non_lifecycle
  evolves_basic evolves_resolve_or_admit evolves_finalize_completed evolves_finalize_recovery
  evolves_resolve_or_prepare evolves_complete_export evolves_publish_import evolves_mark_required

lemma registry_step_evolves:
  "registry_step rt r r' \<Longrightarrow> registry_inv rt r \<Longrightarrow> registry_evolves r r'"
  by (induction rule: registry_step.induct)
    (blast intro: evolves_methods [THEN evolvesD] finalize_purge_evolves finalize_operational_evolves)+

inductive registry_steps :: "runtime \<Rightarrow> registry \<Rightarrow> registry \<Rightarrow> bool" for rt where
  none: "registry_steps rt r r"
| more: "registry_steps rt r s \<Longrightarrow> registry_step rt s t \<Longrightarrow> registry_steps rt r t"

lemma registry_steps_trans:
  "registry_steps rt s t \<Longrightarrow> registry_steps rt r s \<Longrightarrow> registry_steps rt r t"
  by (induction rule: registry_steps.induct) (auto intro: registry_steps.intros)

lemma registry_steps_one: "registry_step rt r r' \<Longrightarrow> registry_steps rt r r'"
  by (blast intro: registry_steps.intros)

lemma registry_steps_reachable:
  "registry_steps rt r r' \<Longrightarrow> registry_reachable rt r \<Longrightarrow> registry_reachable rt r'"
  by (induction rule: registry_steps.induct) (auto intro: registry_reachable.step)

lemma registry_steps_evolve:
  assumes "registry_steps rt r r'" and "registry_inv rt r"
  shows "registry_inv rt r' \<and> registry_evolves r r'"
  using assms
proof (induction rule: registry_steps.induct)
  case (more r s t)
  then show ?case
    using registry_step_keeps registry_step_evolves registry_evolves_trans by blast
qed simp

end
