(* ===== verification/Ledger_Replay.thy ===== *)
theory Ledger_Replay
  imports Ledger_History
begin

text \<open>
  The idempotency contract of the ledger as an interface: an operation whose answer is settled
  returns the same answer, and writes nothing, when it is run again. The retrying callers rely
  on it whatever the operation is. The locale states it and derives what a caller sees after any
  number of retries; the admissions and the finalizers of the registry interpret it.
\<close>

section \<open>The interface\<close>

fun retry :: "('s \<Rightarrow> ('e + 'o) \<times> 's) \<Rightarrow> nat \<Rightarrow> 's \<Rightarrow> ('e + 'o) \<times> 's" where
  "retry run 0 s = run s"
| "retry run (Suc n) s = retry run n (snd (run s))"

locale replayable =
  fixes run :: "'s \<Rightarrow> ('e + 'o) \<times> 's"
    and valid :: "'s \<Rightarrow> bool"
    and settled :: "'o \<Rightarrow> bool"
  assumes replay: "valid s \<Longrightarrow> run s = (Inr out, s') \<Longrightarrow> settled out \<Longrightarrow> run s' = (Inr out, s')"
    and stays_valid: "valid s \<Longrightarrow> run s = (Inr out, s') \<Longrightarrow> valid s'"
begin

lemma retry_settled:
  assumes "valid s" and "run s = (Inr out, s')" and "settled out"
  shows "retry run n s = (Inr out, s')"
proof (cases n)
  case (Suc m)
  have fixed: "run s' = (Inr out, s')" using replay [OF assms] .
  then have "retry run m s' = (Inr out, s')" by (induction m) simp_all
  with Suc assms(2) show ?thesis by simp
qed (use assms(2) in simp)

lemma retry_valid: "valid s \<Longrightarrow> retry run n s = (Inr out, s') \<Longrightarrow> settled out \<Longrightarrow>
    run s = (Inr o1, s1) \<Longrightarrow> settled o1 \<Longrightarrow> out = o1 \<and> s' = s1"
  using retry_settled by fastforce

end

section \<open>Active claims\<close>

lemma active_claims_le_1:
  assumes "claims_inv rt (rg_claims r)"
  shows "length (active_claims p u r) \<le> 1"
proof -
  have "distinct (map active_key (filter (\<lambda>c. active_phase (cl_phase c)) (rg_claims r)))"
    using assms by (simp add: claims_inv_def)
  from rowcount_key_le_1 [OF this, of "\<lambda>c. active_key c = (p, u)" "(p, u)"]
  have "length (filter (\<lambda>c. active_key c = (p, u) \<and> active_phase (cl_phase c)) (rg_claims r)) \<le> 1"
    by (simp add: rowcount_def conj_commute)
  also have "(\<lambda>c. active_key c = (p, u) \<and> active_phase (cl_phase c)) =
      (\<lambda>c. cl_principal_id c = p \<and> cl_service_id c = u \<and> active_phase (cl_phase c))"
    by (auto simp: active_key_def fun_eq_iff)
  finally show ?thesis by (simp add: active_claims_def)
qed

lemma get_recovery_state_run:
  assumes "claims_inv rt (rg_claims r)"
  shows "get_recovery_state p u r = (Inr (case active_claims p u r of [] \<Rightarrow> Clear
      | c # _ \<Rightarrow> if cl_phase c = PhasePrepared then Pending else RecoveryRequiredState), r)"
proof -
  have "active_phase (cl_phase c)" if "c \<in> set (active_claims p u r)" for c
    using that by (simp add: active_claims_def)
  then show ?thesis
    using active_claims_le_1 [OF assms, of p u]
    by (cases "active_claims p u r") (auto simp: get_recovery_state_def active_phase_def Suc_le_eq)
qed

section \<open>Admission\<close>

lemma existing_prepared_row:
  assumes "lifecycle_row_for i c" and "intent_spec rt i" and "li_phase i = Prepared"
  shows "decode_lifecycle_intent rt c r = (Inr i, r)"
proof -
  have "intent_from_row (lifecycle_document i) Prepared c = i"
    using assms(1,3) intent_row_roundtrip [of c i] by (simp add: lifecycle_row_for_def)
  then show ?thesis
    using assms by (auto simp: decode_lifecycle_intent_run lifecycle_row_for_def lifecycle_document_def)
qed

lemma claim_lookup_append:
  "claim_lookup p k r = None \<Longrightarrow> rg_claims r' = rg_claims r @ [c] \<Longrightarrow> cl_principal_id c = p \<Longrightarrow>
   cl_idempotency_key c = k \<Longrightarrow> claim_lookup p k r' = Some c"
  by (simp add: claim_lookup_def find_append)

lemma insert_prepared_row:
  assumes "insert_prepared i r = (Inr (), r')"
  shows "\<exists>c. rg_claims r' = rg_claims r @ [c] \<and> (li_phase i = Prepared \<longrightarrow> lifecycle_row_for i c) \<and>
    cl_principal_id c = cf_principal_id (li_fields i) \<and>
    cl_idempotency_key c = cf_idempotency_key (li_fields i)"
  using assms by (auto simp: insert_prepared_def insert_claim_run lifecycle_row_for_def)

text \<open>An admitted command is admitted again, with the same intent.\<close>

lemma resolve_or_admit_replay:
  assumes "resolve_or_admit rt command r = (Inr (PreparedLifecycleClaim i), r')"
  shows "resolve_or_admit rt command r' = (Inr (PreparedLifecycleClaim i), r')"
  using assms
proof (cases rule: resolve_or_admit_cases)
  case (existing c)
  then have "r' = r" by (simp add: existing_lifecycle_claim_run)
  with assms show ?thesis by simp
next
  case (admitted s target j)
  then have j: "j = i" by simp
  note ok = prepare_intent_ok [OF admitted(9)]
  obtain c where c: "rg_claims r' = rg_claims r @ [c]" "lifecycle_row_for i c"
    "cl_principal_id c = cf_principal_id (li_fields i)"
    "cl_idempotency_key c = cf_idempotency_key (li_fields i)"
    using insert_prepared_row [OF admitted(10)] ok j by auto
  have look: "claim_lookup (cf_principal_id (command_fields command))
      (cf_idempotency_key (command_fields command)) r' = Some c"
    by (rule claim_lookup_append [OF admitted(1) c(1)]) (use c(3,4) ok j in simp_all)
  have "existing_lifecycle_claim rt c command (lifecycle_fingerprint rt command) r' =
      (Inr (PreparedLifecycleClaim i), r')"
    unfolding existing_lifecycle_claim_run
    using existing_prepared_row [OF c(2)] ok j c(2) by (auto simp: lifecycle_row_for_def)
  with look show ?thesis by (simp add: resolve_or_admit_def Let_def)
qed auto

interpretation admission: replayable "resolve_or_admit rt command" "registry_inv rt"
  "\<lambda>out. \<exists>i. out = PreparedLifecycleClaim i" for rt command
  by unfold_locales (use resolve_or_admit_replay keeps_resolve_or_admit [THEN keepsD] in blast)+

section \<open>Finalization\<close>

lemma save_service_claims:
  "save_service rt s e r = (Inr out, r') \<Longrightarrow> rg_claims r' = rg_claims r"
  by (auto simp: save_service_def update_live_identity_def Let_def rbind_Inr_iff rcheck_Inr_iff
      split: if_splits)

lemma mark_recovery_prepared: "mark_recovery rt i t r = (Inr out, r') \<Longrightarrow> li_phase i = Prepared"
  by (auto simp: mark_recovery_def rbind_Inr_iff rlift_Inr_iff with_phase_iff)

text \<open>The answer of \<open>_terminal_or_prepared\<close> for a terminal row.\<close>

lemma terminal_row_completed:
  assumes c: "claim_lookup (cf_principal_id (li_fields i)) (cf_idempotency_key (li_fields i)) r =
      Some (c\<lparr>cl_phase := PhaseCompleted, cl_result := Some (ServiceDocument s)\<rparr>)"
    and row: "lifecycle_row_for i c" and i: "intent_spec rt i" "li_phase i = Prepared"
    and s: "validate_service rt s" "completed_lifecycle_ok (i\<lparr>li_phase := Completed\<rparr>) s"
  shows "terminal_or_prepared rt i r = (Inr (CompletedLifecycleClaim (i\<lparr>li_phase := Completed\<rparr>) s), r)"
proof -
  let ?d = "c\<lparr>cl_phase := PhaseCompleted, cl_result := Some (ServiceDocument s)\<rparr>"
  let ?j = "i\<lparr>li_phase := Completed\<rparr>"
  have "intent_from_row (lifecycle_document i) Completed ?d = ?j"
    using row by (simp add: intent_from_row_def lifecycle_document_def lifecycle_row_for_def)
  then have dec: "decode_lifecycle_intent rt ?d r = (Inr ?j, r)"
    using row i by (auto simp: decode_lifecycle_intent_run lifecycle_row_for_def lifecycle_document_def)
  have res: "decode_result rt (cl_result ?d) (cf_principal_id (li_fields i))
      (cf_service_id (li_fields i)) r = (Inr s, r)"
    using s by (simp add: decode_result_run completed_lifecycle_ok_def validate_terminal_service_def)
  show ?thesis
    using c row i(2) dec res s(2)
    by (simp add: terminal_or_prepared_def rbind_Inr_iff rcheck_Inr_iff lifecycle_row_for_def)
qed

lemma terminal_row_recovery:
  assumes c: "claim_lookup (cf_principal_id (li_fields i)) (cf_idempotency_key (li_fields i)) r =
      Some (c\<lparr>cl_phase := PhaseRecoveryRequired, cl_recovery_category := True\<rparr>)"
    and row: "lifecycle_row_for i c" and i: "intent_spec rt i" "li_phase i = Prepared"
  shows "terminal_or_prepared rt i r =
    (Inr (RecoveryRequiredLifecycleClaim (i\<lparr>li_phase := RecoveryRequiredPhase\<rparr>)), r)"
proof -
  let ?d = "c\<lparr>cl_phase := PhaseRecoveryRequired, cl_recovery_category := True\<rparr>"
  let ?j = "i\<lparr>li_phase := RecoveryRequiredPhase\<rparr>"
  have "intent_from_row (lifecycle_document i) RecoveryRequiredPhase ?d = ?j"
    using row by (simp add: intent_from_row_def lifecycle_document_def lifecycle_row_for_def)
  then have dec: "decode_lifecycle_intent rt ?d r = (Inr ?j, r)"
    using row i by (auto simp: decode_lifecycle_intent_run lifecycle_row_for_def lifecycle_document_def)
  show ?thesis
    using c row i(2) dec
    by (simp add: terminal_or_prepared_def rbind_Inr_iff rcheck_Inr_iff lifecycle_row_for_def)
qed

text \<open>Looking a row up after the single transition of \<open>update_prepared\<close>.\<close>

lemma claim_lookup_ended:
  assumes c: "claim_lookup p k r = Some c" and pr: "prepared_row p k fp c"
    and r': "rg_claims r' = update_where (prepared_row p k fp) f (rg_claims r)"
    and f: "\<And>c. claim_key (f c) = claim_key c"
  shows "claim_lookup p k r' = Some (f c)"
proof -
  have "List.find (\<lambda>c. cl_principal_id c = p \<and> cl_idempotency_key c = k)
      (update_where (prepared_row p k fp) f cs) =
    map_option (\<lambda>c. if prepared_row p k fp c then f c else c)
      (List.find (\<lambda>c. cl_principal_id c = p \<and> cl_idempotency_key c = k) cs)" for cs
    using f by (induction cs) (auto simp: update_where_def prepared_row_def claim_key_def)
  with c pr r' show ?thesis by (simp add: claim_lookup_def)
qed

lemma lifecycle_prepared_row:
  "lifecycle_row_for i c \<Longrightarrow> prepared_row (cf_principal_id (li_fields i))
     (cf_idempotency_key (li_fields i)) (li_fingerprint i) c"
  by (simp add: lifecycle_row_for_def prepared_row_def)

lemma mark_recovery_terminal:
  assumes i: "intent_spec rt i" "li_phase i = Prepared" and row: "lifecycle_row_for i c"
    and c: "claim_lookup (cf_principal_id (li_fields i)) (cf_idempotency_key (li_fields i)) r = Some c"
    and run: "mark_recovery rt i t r = (Inr out, r')"
  shows "terminal_or_prepared rt i r' = (Inr out, r') \<and> is_terminal_claim out"
proof -
  note run' = mark_recovery_run [OF run]
  have "claim_lookup (cf_principal_id (li_fields i)) (cf_idempotency_key (li_fields i)) r' =
      Some (c\<lparr>cl_phase := PhaseRecoveryRequired, cl_recovery_category := True\<rparr>)"
    by (rule claim_lookup_ended [OF c lifecycle_prepared_row [OF row]])
      (use run' in \<open>simp_all add: claim_key_def\<close>)
  from terminal_row_recovery [OF this row i] run' show ?thesis by (simp add: is_terminal_claim_def)
qed

lemma complete_row_terminal:
  assumes i: "intent_spec rt i" "li_phase i = Prepared" and row: "lifecycle_row_for i c"
    and c: "claim_lookup (cf_principal_id (li_fields i)) (cf_idempotency_key (li_fields i)) r = Some c"
    and s: "validate_service rt s" "completed_lifecycle_ok (i\<lparr>li_phase := Completed\<rparr>) s"
    and run: "rbind (update_prepared (cf_principal_id (li_fields i))
          (cf_idempotency_key (li_fields i)) (li_fingerprint i)
          (\<lambda>c. c\<lparr>cl_phase := PhaseCompleted, cl_result := Some (ServiceDocument s)\<rparr>))
         (\<lambda>_. append_terminal i CompletedEvent t) r = (Inr (), r')"
  shows "claim_lookup (cf_principal_id (li_fields i)) (cf_idempotency_key (li_fields i)) r' =
      Some (c\<lparr>cl_phase := PhaseCompleted, cl_result := Some (ServiceDocument s)\<rparr>)"
    and "terminal_or_prepared rt i r' = (Inr (CompletedLifecycleClaim (i\<lparr>li_phase := Completed\<rparr>) s), r')"
proof -
  let ?f = "\<lambda>c. c\<lparr>cl_phase := PhaseCompleted, cl_result := Some (ServiceDocument s)\<rparr>"
  show look: "claim_lookup (cf_principal_id (li_fields i)) (cf_idempotency_key (li_fields i)) r' =
      Some (?f c)"
    by (rule claim_lookup_ended [OF c lifecycle_prepared_row [OF row]])
      (use run in \<open>auto simp: run_simps append_terminal_def claim_key_def\<close>)
  from terminal_row_completed [OF look row i s]
  show "terminal_or_prepared rt i r' = (Inr (CompletedLifecycleClaim (i\<lparr>li_phase := Completed\<rparr>) s), r')" .
qed

lemma terminal_settles:
  assumes "terminal_or_prepared rt i r = (Inr out, r)" and "is_terminal_claim out"
  shows "finalize_recovery_required rt i t r = (Inr out, r)"
    and "co_intent co = i \<Longrightarrow> finalize_completed rt co r = (Inr out, r)"
  using assms by (simp_all add: finalize_recovery_required_def finalize_completed_def Let_def rbind_apply)

text \<open>A finalization is answered again, with the terminal outcome it committed.\<close>

lemma finalize_completed_replay:
  assumes "finalize_completed rt co r = (Inr out, r')"
  shows "finalize_completed rt co r' = (Inr out, r')"
  using assms
proof (cases rule: finalize_completed_cases)
  case (recovery c)
  then have "li_phase (co_intent co) = Prepared"
    using mark_recovery_prepared by blast
  from mark_recovery_terminal [OF recovery(1) this recovery(2,3,4)] show ?thesis
    using terminal_settles(2) by blast
next
  case (stale c s)
  then have "li_phase (co_intent co) = Prepared"
    using mark_recovery_prepared by blast
  from mark_recovery_terminal [OF stale(1) this stale(2,3,5)] show ?thesis
    using terminal_settles(2) by blast
next
  case (completed c s r1)
  then have "claim_lookup p k r1 = claim_lookup p k r" for p k
    by (simp add: claim_lookup_def save_service_claims)
  with completed(4) have "claim_lookup (cf_principal_id (li_fields (co_intent co)))
      (cf_idempotency_key (li_fields (co_intent co))) r1 = Some c" by simp
  from complete_row_terminal(2) [OF completed(1,3,2) this completed(8,9,11)] completed(10)
  show ?thesis by (simp add: terminal_settles is_terminal_claim_def)
qed (use assms in simp)

lemma finalize_recovery_replay:
  assumes "finalize_recovery_required rt i t r = (Inr out, r')"
  shows "finalize_recovery_required rt i t r' = (Inr out, r')"
proof -
  from assms obtain existing r0 where ex: "terminal_or_prepared rt i r = (Inr existing, r0)"
    and rest: "(if is_terminal_claim existing then rret existing else mark_recovery rt i t) r0 =
      (Inr out, r')"
    by (auto simp: finalize_recovery_required_def rbind_Inr_iff)
  from ex show ?thesis
  proof (cases rule: terminal_or_prepared_cases)
    case terminal
    with rest ex show ?thesis by (simp add: terminal_settles)
  next
    case (prepared c)
    then have "mark_recovery rt i t r = (Inr out, r')" using rest by (simp add: is_terminal_claim_def)
    from mark_recovery_terminal [OF prepared(3,4,6,5) this] show ?thesis
      using terminal_settles(1) by blast
  qed
qed

interpretation finalization: replayable "finalize_completed rt co" "registry_inv rt" "\<lambda>_. True" for rt co
  by unfold_locales
    (use finalize_completed_replay keeps_finalize_completed [THEN keepsD] in blast)+

interpretation poisoning: replayable "finalize_recovery_required rt i t" "registry_inv rt" "\<lambda>_. True"
  for rt i t
  by unfold_locales
    (use finalize_recovery_replay keeps_finalize_recovery_required [THEN keepsD] in blast)+

end
