(* ===== verification/Ledger_Admission.thy ===== *)
theory Ledger_Admission
  imports Ledger_Replay
begin

text \<open>
  The admission contract of the ledger beyond the invariant: a command that meets the
  preconditions is admitted, a key used for another request is a conflict, a service with an
  unfinished operation admits nothing, an admitted command is admitted again.
\<close>

section \<open>A command that meets the preconditions is admitted\<close>

lemma valid_text_length: "valid_text s n \<Longrightarrow> 1 \<le> length s \<and> length s \<le> n"
  by (cases s) (auto simp: valid_text_def)

definition lifecycle_row :: "lifecycle_intent \<Rightarrow> claim_row" where
  "lifecycle_row i =
     \<lparr>cl_principal_id = cf_principal_id (li_fields i),
      cl_idempotency_key = cf_idempotency_key (li_fields i),
      cl_fingerprint = li_fingerprint i, cl_service_id = cf_service_id (li_fields i),
      cl_kind = lifecycle_claim_kind (li_kind i), cl_phase = PhasePrepared,
      cl_created_via = Some (cf_created_via (li_fields i)),
      cl_intent = Some (LifecycleDocument (lifecycle_document i)), cl_result = None,
      cl_recovery_category = False\<rparr>"

definition authority_row :: "authority_intent \<Rightarrow> claim_row" where
  "authority_row i =
     \<lparr>cl_principal_id = ai_principal i, cl_idempotency_key = ai_key i,
      cl_fingerprint = ai_fingerprint i, cl_service_id = ai_service i, cl_kind = ai_kind i,
      cl_phase = PhasePrepared, cl_created_via = Some (ai_created_via i),
      cl_intent = Some (AuthorityDocument i), cl_result = None, cl_recovery_category = False\<rparr>"

lemma lifecycle_row_columns: "intent_spec rt i \<Longrightarrow> claim_columns_ok (lifecycle_row i)"
  using valid_text_length
  by (auto simp: intent_spec_def common_fields_spec_def claim_columns_ok_def lifecycle_row_def)

lemma authority_row_columns: "ai_ok rt i \<Longrightarrow> claim_columns_ok (authority_row i)"
proof (cases i)
  case (OperationalIntent a)
  moreover assume "ai_ok rt i"
  ultimately show ?thesis
    using valid_text_length
    by (auto simp: operational_intent_spec_def make_operational_command_def guard_simps
        op_field_guards_def claim_columns_ok_def authority_row_def simp del: guards_None_iff)
next
  case (PortableIntent a)
  moreover assume "ai_ok rt i"
  ultimately show ?thesis
    using valid_text_length by (auto simp: portable_intent_ok_def claim_columns_ok_def authority_row_def)
qed

lemma lifecycle_row_shape: "claim_shape_ok (lifecycle_row i)"
  by (cases "li_kind i") (simp_all add: claim_shape_ok.simps lifecycle_row_def non_lifecycle_row_kind_def)

lemma authority_row_shape_ok: "claim_shape_ok (authority_row i)"
  using authority_kind_row [OF ai_kind_authority [of i]]
  by (simp add: claim_shape_ok.simps authority_row_def)

lemma insert_claim_fresh:
  assumes "claim_columns_ok c" and "claim_shape_ok c"
    and "claim_lookup (cl_principal_id c) (cl_idempotency_key c) r = None"
    and "active_claims (cl_principal_id c) (cl_service_id c) r = []"
  shows "insert_claim c r = (Inr (), r\<lparr>rg_claims := rg_claims r @ [c]\<rparr>)"
  using assms
  by (auto simp: insert_claim_run claim_lookup_def find_None_iff active_claims_def
      filter_empty_conv active_key_def)

lemma insert_prepared_fresh:
  assumes "intent_spec rt i"
    and "claim_lookup (cf_principal_id (li_fields i)) (cf_idempotency_key (li_fields i)) r = None"
    and "active_claims (cf_principal_id (li_fields i)) (cf_service_id (li_fields i)) r = []"
  shows "insert_prepared i r = (Inr (), r\<lparr>rg_claims := rg_claims r @ [lifecycle_row i]\<rparr>)"
  using insert_claim_fresh [OF lifecycle_row_columns [OF assms(1)] lifecycle_row_shape, of r] assms
  by (simp add: insert_prepared_def lifecycle_row_def)

lemma insert_authority_fresh:
  assumes "ai_ok rt i" and "claim_lookup (ai_principal i) (ai_key i) r = None"
    and "active_claims (ai_principal i) (ai_service i) r = []"
  shows "insert_authority_prepared i r = (Inr (), r\<lparr>rg_claims := rg_claims r @ [authority_row i]\<rparr>)"
  using insert_claim_fresh [OF authority_row_columns [OF assms(1)] authority_row_shape_ok, of r] assms
  by (simp add: insert_authority_prepared_def authority_row_def)

lemma get_service_found:
  assumes "services_inv rt (rg_services r) (rg_identities r)" and "service_row p u r = Some s"
  shows "get_service rt p u r = (Inr (Some s), r)"
  using assms services_invD(1) [OF assms(1)] service_row_Some [OF assms(2)]
  by (auto simp: get_service_run)

text \<open>Admission of a lifecycle command for a service in the state it asks for.\<close>

lemma resolve_or_admit_fresh:
  assumes inv: "registry_inv rt r"
    and key: "claim_lookup (cf_principal_id (command_fields c))
      (cf_idempotency_key (command_fields c)) r = None"
    and s: "service_row (cf_principal_id (command_fields c)) (cf_service_id (command_fields c)) r = Some s"
    and rev: "sv_service_revision s = cf_expected_service_revision (command_fields c)"
      "sv_schema_version s = Some (cf_expected_schema_version (command_fields c))"
      "sv_service_revision s < MAX_SERVICE_REVISION" "supported_lifecycle_state s c"
    and idle: "active_claims (cf_principal_id (command_fields c)) (cf_service_id (command_fields c)) r = []"
    and tgt: "admitted_target s c = Some (True, t)" and i: "prepare_intent rt c t = Inr i"
  shows "resolve_or_admit rt c r =
    (Inr (PreparedLifecycleClaim i), r\<lparr>rg_claims := rg_claims r @ [lifecycle_row i]\<rparr>)"
proof -
  note ok = prepare_intent_ok [OF i]
  have ins: "insert_prepared i r = (Inr (), r\<lparr>rg_claims := rg_claims r @ [lifecycle_row i]\<rparr>)"
    by (rule insert_prepared_fresh [of rt]) (use ok key idle in simp_all)
  have found: "get_service rt (cf_principal_id (command_fields c)) (cf_service_id (command_fields c)) r =
      (Inr (Some s), r)"
    by (rule get_service_found [OF registry_invD(1) [OF inv] s])
  show ?thesis
    using rev by (simp add: resolve_or_admit_def Let_def rbind_apply key found idle tgt i ins)
qed

lemma prepare_on_service_fresh:
  assumes inv: "registry_inv rt r" and i: "ai_ok rt i"
    and key: "claim_lookup (ai_principal i) (ai_key i) r = None"
    and s: "service_row (ai_principal i) (ai_service i) r = Some s"
      "ai_expected i = Some (sv_service_revision s)" "transition_supported i s r"
    and idle: "active_claims (ai_principal i) (ai_service i) r = []"
  shows "prepare_on_service rt i r =
    (Inr (PreparedRegistryClaim i), r\<lparr>rg_claims := rg_claims r @ [authority_row i]\<rparr>)"
  using s insert_authority_fresh [OF i key idle] get_service_found [OF registry_invD(1) [OF inv] s(1)] idle
  by (simp add: prepare_on_service_def rbind_apply authority_blocker_def)

lemma resolve_or_prepare_fresh:
  assumes inv: "registry_inv rt r" and c: "prepare_registry_intent rt c = Inr i"
    and key: "claim_lookup (ai_principal i) (ai_key i) r = None"
    and s: "service_row (ai_principal i) (ai_service i) r = Some s"
      "ai_expected i = Some (sv_service_revision s)" "transition_supported i s r"
    and idle: "active_claims (ai_principal i) (ai_service i) r = []"
  shows "resolve_or_prepare rt c now r =
    (Inr (PreparedRegistryClaim i), r\<lparr>rg_claims := rg_claims r @ [authority_row i]\<rparr>)"
proof -
  note ok = prepare_registry_intent_ok [OF c]
  note run = prepare_on_service_fresh [OF inv conjunct1 [OF ok] key s idle]
  have "po_kind a \<noteq> ImportKind" if "i = PortableIntent a" for a
    using that ok s(2) by (auto simp: portable_intent_ok_def portable_shape_ok_def split: if_splits)
  then show ?thesis
    using run key by (cases i) (simp_all add: resolve_or_prepare_def rbind_apply c)
qed

section \<open>One unfinished operation per service\<close>

lemma insert_claim_exclusive:
  assumes "insert_claim c r = (Inr u, r')" and "active_phase (cl_phase c)"
  shows "active_claims (cl_principal_id c) (cl_service_id c) r = []"
    and "claim_lookup (cl_principal_id c) (cl_idempotency_key c) r = None"
    and "r' = r\<lparr>rg_claims := rg_claims r @ [c]\<rparr>"
  using assms
  by (auto simp: insert_claim_run active_claims_def filter_empty_conv active_key_def claim_lookup_def
      find_None_iff)

lemma insert_authority_exclusive:
  assumes "insert_authority_prepared i r = (Inr u, r')"
  shows "active_claims (ai_principal i) (ai_service i) r = []"
    "r' = r\<lparr>rg_claims := rg_claims r @ [authority_row i]\<rparr>"
  using insert_claim_exclusive [of "authority_row i" r u r'] assms
  by (simp_all add: insert_authority_prepared_def authority_row_def active_phase_def)

text \<open>A request either reads, or its key is new, its service idle, and its prepared claim added.\<close>

lemma resolve_or_prepare_cases:
  assumes run: "resolve_or_prepare rt c now r = (Inr out, r')"
  obtains
    (reads) "r' = r"
  | (admitted) i where "prepare_registry_intent rt c = Inr i" "out = PreparedRegistryClaim i"
      "claim_lookup (ai_principal i) (ai_key i) r = None"
      "active_claims (ai_principal i) (ai_service i) r = []"
      "rg_claims r' = rg_claims r @ [authority_row i]" "rg_services r' = rg_services r"
proof -
  from run obtain i where i: "prepare_registry_intent rt c = Inr i"
    and rest: "(case claim_lookup (ai_principal i) (ai_key i) r of
         Some c \<Rightarrow> existing_authority_claim rt c i
       | None \<Rightarrow>
           (case i of
              PortableIntent p \<Rightarrow>
                if po_kind p = ImportKind then prepare_import p now else prepare_on_service rt i
            | OperationalIntent _ \<Rightarrow> prepare_on_service rt i)) r = (Inr out, r')"
    by (auto simp: resolve_or_prepare_def rbind_Inr_iff rlift_Inr_iff)
  note that_admitted = admitted
  have service: thesis if "prepare_on_service rt i r = (Inr out, r')"
    "claim_lookup (ai_principal i) (ai_key i) r = None"
    using that(1)
  proof (cases rule: prepare_on_service_cases)
    case (admitted s)
    note ex = insert_authority_exclusive [OF admitted(5)]
    show ?thesis
      by (rule that_admitted [OF i admitted(6) that(2) ex(1)]) (simp_all add: ex(2))
  qed (rule reads)
  have imp: thesis if im: "prepare_import p now r = (Inr out, r')" "i = PortableIntent p"
    "claim_lookup (ai_principal i) (ai_key i) r = None" for p
  proof (cases "r' = r")
    case False
    with im(1) obtain r1 d where ins: "insert_authority_prepared i r = (Inr (), r1)"
      and idn: "insert_identity d r1 = (Inr (), r')" and out: "out = PreparedRegistryClaim i"
      unfolding prepare_import_def im(2)
      by (auto simp: rbind_Inr_iff split: if_splits option.splits)
    note ex = insert_authority_exclusive [OF ins]
    show ?thesis
      by (rule admitted [OF i out im(3) ex(1)]) (use idn ex(2) in \<open>auto simp: insert_identity_run\<close>)
  qed (rule reads)
  show ?thesis
  proof (cases "claim_lookup (ai_principal i) (ai_key i) r")
    case (Some c)
    then show ?thesis using rest existing_authority_claim_reads reads by auto
  next
    case None
    with rest service imp show ?thesis by (cases i) (auto split: if_splits)
  qed
qed

lemma existing_authority_prepared:
  assumes "ai_ok rt i" and "ai_phase i = Prepared"
  shows "existing_authority_claim rt (authority_row i) i r = (Inr (PreparedRegistryClaim i), r)"
proof -
  have "decode_authority_intent rt (authority_row i) r = (Inr i, r)"
    using assms(1) by (simp add: decode_authority_intent_run authority_row_def)
  moreover have "validate_authority_row rt (authority_row i) i r = (Inr (), r)"
    using assms(2) by (simp add: validate_authority_row_def rbind_apply authority_row_matches_def
        authority_row_def rcheck_def)
  moreover have "cl_phase (authority_row i) = PhasePrepared" "cl_kind (authority_row i) = ai_kind i"
    by (simp_all add: authority_row_def)
  ultimately show ?thesis
    using ai_kind_authority [of i] assms(2)
    by (simp add: existing_authority_claim_def rbind_apply)
qed

lemma resolve_or_prepare_replay:
  assumes run: "resolve_or_prepare rt c now r = (Inr (PreparedRegistryClaim i), r')"
  shows "resolve_or_prepare rt c now r' = (Inr (PreparedRegistryClaim i), r')"
  using run
proof (cases rule: resolve_or_prepare_cases)
  case (admitted j)
  note ok = prepare_registry_intent_ok [OF admitted(1)]
  have j: "j = i" using admitted(2) by simp
  have "claim_lookup (ai_principal j) (ai_key j) r' = Some (authority_row j)"
    by (rule claim_lookup_append [OF admitted(3,5)]) (simp_all add: authority_row_def)
  then show ?thesis
    using j admitted(1) existing_authority_prepared [of rt i r'] ok
    by (simp add: resolve_or_prepare_def rbind_apply)
qed (use run in simp)

interpretation preparation: replayable "resolve_or_prepare rt c now" "registry_inv rt"
  "\<lambda>out. \<exists>i. out = PreparedRegistryClaim i" for rt c now
  by unfold_locales (use resolve_or_prepare_replay keeps_resolve_or_prepare [THEN keepsD] in blast)+

section \<open>A key is bound to its request\<close>

lemma non_lifecycle_conflict:
  assumes "claim_lookup p key r = Some c" and "cl_fingerprint c \<noteq> fp"
  shows "resolve_non_lifecycle rt kind p key fp r = (Inr ConflictNonLifecycleClaim, r)"
  using assms by (simp add: resolve_non_lifecycle_def rbind_apply)

lemma lifecycle_conflict:
  assumes "claim_lookup (cf_principal_id (command_fields c)) (cf_idempotency_key (command_fields c)) r =
      Some row" and "cl_fingerprint row \<noteq> lifecycle_fingerprint rt c"
  shows "resolve_or_admit rt c r = (Inr ConflictClaim, r)"
  using assms by (simp add: resolve_or_admit_def Let_def existing_lifecycle_claim_def)

text \<open>The shared authority decodes the row first: under the invariant it can.\<close>

lemma authority_conflict:
  assumes inv: "registry_inv rt r" and i: "prepare_registry_intent rt c = Inr i"
    and row: "claim_lookup (ai_principal i) (ai_key i) r = Some row"
    and fp: "cl_fingerprint row \<noteq> ai_fingerprint i"
  shows "resolve_or_prepare rt c now r = (Inr RegistryClaimConflict, r)"
proof -
  have ok: "claim_ok rt row"
    using claims_invD [OF registry_invD(2) [OF inv]] claim_lookup_Some [OF row] by blast
  have "existing_authority_claim rt row i r = (Inr RegistryClaimConflict, r)"
  proof (cases "pre_authority_kind (cl_kind row) \<or> cl_phase row = PhaseTombstoned")
    case True
    then show ?thesis
      using ok fp by (auto simp: existing_authority_claim_def claim_ok_def claim_shape_ok.simps rbind_apply)
  next
    case False
    then obtain j where j: "cl_intent row = Some (AuthorityDocument j)" "ai_ok rt j"
      "authority_row_matches row j"
      using ok authority_row_ok_iff [of row] by (auto simp: authority_row_ok_def)
    then show ?thesis
      using False fp
      by (auto simp: existing_authority_claim_def rbind_apply decode_authority_intent_def
          authority_row_matches_def)
  qed
  with i row show ?thesis by (simp add: resolve_or_prepare_def rbind_apply)
qed

end
