(* ===== verification/Ledger_Effects.thy ===== *)
theory Ledger_Effects
  imports Ledger_Admission
begin

text \<open>
  What a finalizer does to the tables. Under the invariant, an operation that was prepared and
  whose service is still the one it was prepared for completes, with the exact new tables; a
  completion that is reported did exactly that.
\<close>

section \<open>Saving without a new domain\<close>

lemma save_service_same_domain:
  assumes inv: "registry_inv rt r" and s: "service_row p u r = Some old"
    and same: "sv_principal_id s = p" "sv_service_id s = u" "sv_domain_name s = sv_domain_name old"
    and v: "validate_service rt s" "sv_service_revision s = sv_service_revision old + 1"
      "sv_service_revision old < MAX_SERVICE_REVISION"
  shows "save_service rt s (sv_service_revision old) r = (Inr Saved, swap_service s r)"
proof -
  note d = services_invD [OF registry_invD(1) [OF inv]]
  note old = service_row_Some [OF s]
  have "sv_service_revision old \<ge> 1" using d(1) old by (auto simp: validate_service_def service_ok_def)
  moreover have "\<forall>x \<in> set (rg_services r). sv_principal_id x = sv_principal_id s \<and>
      sv_domain_name x = sv_domain_name s \<longrightarrow> sv_service_id x = sv_service_id s"
    using unique_by_key [OF d(6), of _ old] old same by auto
  moreover have "\<forall>i \<in> set (rg_identities r). live_domain (sv_principal_id s) (sv_domain_name s) i \<longrightarrow>
      iy_service_id i = sv_service_id s"
  proof clarify
    fix i assume i: "i \<in> set (rg_identities r)" "live_domain (sv_principal_id s) (sv_domain_name s) i"
    have "i = live_identity old"
      by (rule unique_by_key [OF d(8)]) (use i d(4) old same in \<open>auto simp: live_domain_def\<close>)
    then show "iy_service_id i = sv_service_id s" using old same by simp
  qed
  ultimately show ?thesis
    using v s same unfolding save_service_run [OF registry_invD(1) [OF inv]] by simp
qed

lemma rowcount_prepared_1:
  assumes inv: "claims_inv rt (rg_claims r)" and c: "claim_lookup p k r = Some c" "prepared_row p k fp c"
  shows "rowcount (prepared_row p k fp) (rg_claims r) = 1"
proof -
  have "filter (prepared_row p k fp) (rg_claims r) = filter (\<lambda>x. claim_key x = (p, k)) (rg_claims r)"
    by (rule filter_cong [OF refl])
      (use prepared_row_unique [OF inv c(1)] claim_lookup_unique [OF inv c(1)] c in
        \<open>auto simp: prepared_row_def claim_key_def\<close>)
  moreover have "rowcount (\<lambda>x. claim_key x = (p, k)) (rg_claims r) = 1"
    by (rule rowcount_1_iff_find [THEN iffD2, of claim_key _ _ "(p, k)"])
      (use inv claim_lookup_Some [OF c(1)] in \<open>auto simp: claims_inv_def claim_key_def\<close>)
  ultimately show ?thesis by (simp add: rowcount_def)
qed

text \<open>The row update and the audit row of a completion.\<close>

definition completed_authority_row :: "authority_intent \<Rightarrow> authority_result \<Rightarrow> claim_row \<Rightarrow> claim_row" where
  "completed_authority_row i v c = c\<lparr>cl_phase := PhaseCompleted,
     cl_intent := Some (AuthorityDocument (with_ai_phase i Completed)),
     cl_result := Some (AuthorityResultDocument v)\<rparr>"

definition local_event :: "authority_intent \<Rightarrow> audit_outcome \<Rightarrow> time \<Rightarrow> audit_row list \<Rightarrow> audit_row list" where
  "local_event i outcome t rows = trim_audits (ai_principal i) (rows @
     [\<lparr>au_audit_id = next_audit_id rows, au_action = ai_kind i, au_outcome = outcome,
       au_service_id = ai_service i, au_principal_id = ai_principal i,
       au_created_via = ai_created_via i, au_at = t\<rparr>])"

lemma audit_pair_authority: "audit_pair_ok (ai_kind i) CompletedEvent"
  using ai_kind_authority [of i] by (auto simp: audit_pair_ok_def pre_authority_kind_def)

lemma complete_authority_run:
  assumes inv: "registry_inv rt r" and i: "ai_ok rt i" "ai_phase i = Prepared"
    and c: "claim_lookup (ai_principal i) (ai_key i) r = Some c" "authority_row_for i c"
    and v: "authority_result_ok rt v" "completed_registry_ok (with_ai_phase i Completed) v"
  shows "complete_authority rt i v t r = (Inr (CompletedRegistryClaim (with_ai_phase i Completed) v),
    r\<lparr>rg_claims := update_where (prepared_row (ai_principal i) (ai_key i) (ai_fingerprint i))
        (completed_authority_row i v) (rg_claims r),
      rg_audits := local_event i CompletedEvent t (rg_audits r)\<rparr>)"
proof -
  let ?p = "prepared_row (ai_principal i) (ai_key i) (ai_fingerprint i)"
  let ?r1 = "r\<lparr>rg_claims := update_where ?p (completed_authority_row i v) (rg_claims r)\<rparr>"
  note sh = authority_row_shape [OF inv c i(2)]
  have pr: "?p c" using c(2) sh(4) by (simp add: prepared_row_def authority_row_for_def authority_row_matches_def)
  have shape: "claim_shape_ok (completed_authority_row i v x)" if "x \<in> set (rg_claims r)" "?p x" for x
  proof -
    have "x = c" by (rule prepared_row_unique [OF registry_invD(2) [OF inv] c(1) that])
    then show ?thesis
      using sh authority_kind_row [OF ai_kind_authority [of i]]
      by (simp add: claim_shape_ok.simps completed_authority_row_def)
  qed
  have "update_prepared (ai_principal i) (ai_key i) (ai_fingerprint i) (completed_authority_row i v) r =
      (Inr (), ?r1)"
    using shape rowcount_prepared_1 [OF registry_invD(2) [OF inv] c(1) pr] by (simp add: update_prepared_run)
  moreover have "append_local_event (with_ai_phase i Completed) CompletedEvent t ?r1 =
      (Inr (), ?r1\<lparr>rg_audits := local_event i CompletedEvent t (rg_audits r)\<rparr>)"
    using audit_pair_authority [of i] by (simp add: append_local_event_def append_audit_run local_event_def)
  moreover have "ai_with_phase rt i Completed = Inr (with_ai_phase i Completed)"
    using i by (simp add: ai_with_phase_run)
  ultimately show ?thesis
    using v by (simp add: complete_authority_def rbind_apply completed_authority_row_def [abs_def])
qed

lemma if_prepared_run:
  assumes "ai_ok rt i" "ai_phase i = Prepared" and inv: "registry_inv rt r"
    and c: "claim_lookup (ai_principal i) (ai_key i) r = Some c" "authority_row_for i c"
  shows "if_prepared rt i body r = body r"
proof -
  note sh = authority_row_shape [OF inv c assms(2)]
  have fp: "cl_fingerprint c = ai_fingerprint i"
    using c(2) by (simp add: authority_row_for_def authority_row_matches_def)
  have "decode_authority_intent rt c r = (Inr i, r)"
    using assms(1) c(2) by (simp add: decode_authority_intent_run authority_row_for_def)
  moreover have "validate_authority_row rt c i r = (Inr (), r)"
    using assms(2) c(2) sh by (simp add: validate_authority_row_def rbind_apply authority_row_for_def rcheck_def)
  ultimately have "existing_authority_claim rt c i r = (Inr (PreparedRegistryClaim i), r)"
    using ai_kind_authority [of i] assms(2) sh fp
    by (simp add: existing_authority_claim_def rbind_apply)
  then show ?thesis
    using assms(2) c(1) by (simp add: if_prepared_def authority_prepared_or_terminal_def rbind_apply)
qed

section \<open>Suspend, resume, archive and restore\<close>

definition moved_service :: "operational_intent \<Rightarrow> time \<Rightarrow> service \<Rightarrow> service" where
  "moved_service i t s = s\<lparr>sv_operational_status := oi_target_status i, sv_updated_at := t,
     sv_last_activity_at := t, sv_service_revision := sv_service_revision s + 1\<rparr>"

lemma target_of_spec:
  assumes "operational_intent_spec rt i"
  shows "transition_target_status (oi_command i) d s = Inr target \<longleftrightarrow>
    s \<in> set (allowed_sources (oc_kind (oi_command i))) \<and> target = oi_target_status i"
  using assms by (auto simp: operational_intent_spec_def transition_target_status_def)

lemma operational_revision:
  "operational_intent_spec rt i \<Longrightarrow> oc_expected_service_revision (oi_command i) < MAX_SERVICE_REVISION"
  by (auto simp: operational_intent_spec_def make_operational_command_def guard_simps
      op_field_guards_def simp del: guards_None_iff)

lemma moved_service_valid:
  assumes "validate_service rt s" and "sv_updated_at s \<le> t"
    and "sv_service_revision s < MAX_SERVICE_REVISION"
  shows "validate_service rt (moved_service i t s)"
proof -
  have "sv_created_at s \<le> t"
    using assms(1,2) by (simp add: validate_service_def service_ok_def)
  moreover have "\<And>m. sv_materialised_at s = Some m \<Longrightarrow> m \<le> t"
    using assms(1,2) by (auto simp: validate_service_def service_ok_def)
  ultimately show ?thesis
    using assms
    by (auto simp: validate_service_def service_ok_def moved_service_def cong: option.case_cong
        split: option.splits if_splits)
qed

text \<open>The exact tables after a completed operational transition.\<close>

definition moved_registry :: "operational_intent \<Rightarrow> time \<Rightarrow> service \<Rightarrow> registry \<Rightarrow> registry" where
  "moved_registry i t s r =
     (let a = OperationalIntent i; s' = moved_service i t s in
      (swap_service s' r)\<lparr>
        rg_claims := update_where (prepared_row (ai_principal a) (ai_key a) (ai_fingerprint a))
          (completed_authority_row a (ServiceResult s')) (rg_claims r),
        rg_audits := local_event a CompletedEvent t (rg_audits r)\<rparr>)"

lemma finalize_operational_succeeds:
  assumes inv: "registry_inv rt r" and i: "operational_intent_spec rt i" "oi_phase i = Prepared"
    and c: "claim_lookup (oc_principal_id (oi_command i)) (oc_idempotency_key (oi_command i)) r = Some c"
      "authority_row_for (OperationalIntent i) c"
    and s: "service_row (oc_principal_id (oi_command i)) (oc_service_id (oi_command i)) r = Some s"
      "sv_service_revision s = oc_expected_service_revision (oi_command i)"
      "sv_operational_status s \<in> set (allowed_sources (oc_kind (oi_command i)))" "sv_updated_at s \<le> t"
  shows "finalize_operational rt i t r =
    (Inr (CompletedRegistryClaim (OperationalIntent (i\<lparr>oi_phase := Completed\<rparr>))
        (ServiceResult (moved_service i t s))), moved_registry i t s r)"
proof -
  let ?a = "OperationalIntent i" and ?s = "moved_service i t s"
  have ai: "ai_ok rt ?a" "ai_phase ?a = Prepared" using i by simp_all
  note inS = service_row_Some [OF s(1)]
  have rev: "sv_service_revision s < MAX_SERVICE_REVISION" using operational_revision [OF i(1)] s(2) by simp
  have v: "validate_service rt ?s"
    by (rule moved_service_valid [OF _ s(4) rev])
      (use services_invD(1) [OF registry_invD(1) [OF inv]] inS in blast)
  have save: "save_service rt ?s (sv_service_revision s) r = (Inr Saved, swap_service ?s r)"
    by (rule save_service_same_domain [OF inv s(1) _ _ _ v _ rev]) (use inS in \<open>simp_all add: moved_service_def\<close>)
  have tgt: "transition_target_status (oi_command i) (sv_design_state s) (sv_operational_status s) =
      Inr (oi_target_status i)"
    using s(3) i(1) by (simp add: target_of_spec)
  have "make_service ?s = Inr ?s" using v by (simp add: make_service_def valued_def validate_service_def)
  then have moved: "operational_terminal rt i (Some s) t r = (Inr ?s, swap_service ?s r)"
    using s(2,4) save by (simp add: operational_terminal_def rbind_apply tgt moved_service_def)
  note k = save_service_keeps [OF inv save]
  have look: "claim_lookup (ai_principal ?a) (ai_key ?a) (swap_service ?s r) = Some c"
    using c(1) k by (simp add: claim_lookup_def)
  have res: "completed_registry_ok (with_ai_phase ?a Completed) (ServiceResult ?s)"
    using inS s(2) by (simp add: with_ai_phase_def moved_service_def)
  have fin: "finalize_operational rt i t r =
      complete_authority rt ?a (ServiceResult ?s) t (swap_service ?s r)"
    using if_prepared_run [OF ai inv, of c] c
      get_service_found [OF registry_invD(1) [OF inv] s(1)]
    by (simp add: finalize_operational_def rbind_apply rcatch_def moved)
  show ?thesis
    unfolding fin
    using complete_authority_run [OF _ ai look c(2) _ res, of t] k v
    by (simp add: moved_registry_def Let_def with_ai_phase_def swap_service_def)
qed

text \<open>What an operational finalization may report. A save that fails leaves the claim for
  recovery and the service alone.\<close>

lemma finalize_operational_reports:
  assumes inv: "registry_inv rt r" and iss: "issued r (OperationalIntent i)"
    and run: "finalize_operational rt i t r = (Inr out, r')" and w: "r' \<noteq> r"
  shows "(\<exists>s. service_row (oc_principal_id (oi_command i)) (oc_service_id (oi_command i)) r = Some s \<and>
      out = CompletedRegistryClaim (OperationalIntent (i\<lparr>oi_phase := Completed\<rparr>))
        (ServiceResult (moved_service i t s)) \<and> r' = moved_registry i t s r) \<or>
    (out = RecoveryRequiredRegistryClaim
        (AuthorityActive (OperationalIntent (i\<lparr>oi_phase := RecoveryRequiredPhase\<rparr>))) \<and>
      rg_services r' = rg_services r \<and> rg_identities r' = rg_identities r)"
  using inv iss run
proof (cases rule: finalize_operational_cases)
  case (recovery c)
  then show ?thesis
    by (auto simp: mark_authority_recovery_def rbind_Inr_iff rlift_Inr_iff ai_with_phase_run
        with_ai_phase_def update_prepared_run append_local_event_def append_audit_run
        simp del: ai_with_phase.simps)
next
  case (completed c s r1)
  then obtain s0 target where s: "service_row (oc_principal_id (oi_command i))
        (oc_service_id (oi_command i)) r = Some s0"
      "sv_service_revision s0 = oc_expected_service_revision (oi_command i)" "sv_updated_at s0 \<le> t"
      "transition_target_status (oi_command i) (sv_design_state s0) (sv_operational_status s0) = Inr target"
    by (auto simp: operational_terminal_run)
  have i: "operational_intent_spec rt i" "oi_phase i = Prepared"
    using completed(4) by (auto simp: complete_authority_def rbind_Inr_iff rlift_Inr_iff ai_with_phase_run
        simp del: ai_with_phase.simps)
  have "sv_operational_status s0 \<in> set (allowed_sources (oc_kind (oi_command i)))"
    using s(4) i(1) by (simp add: target_of_spec)
  from finalize_operational_succeeds [OF inv i completed(1,2) s(1,2) this s(3)] run s(1) show ?thesis
    by simp
qed (use w in simp)

section \<open>Purge\<close>

lemma finalize_purge_reports:
  assumes inv: "registry_inv rt r" and iss: "issued r (PortableIntent i)"
    and run: "finalize_purge rt i t r = (Inr out, r')"
    and gone: "out = CompletedRegistryClaim j v" "r' \<noteq> r"
  shows "\<exists>s a. service_row (po_principal_id i) (po_service_id i) r = Some s \<and>
    sv_operational_status s = Archived \<and> Some (sv_service_revision s) = po_expected_service_revision i \<and>
    po_purge_authority i = Some a \<and> purge_receipt_valid i r \<and>
    v = TombstoneResult (purge_tombstone_of i s a t) \<and>
    rg_services r' = delete_where (purged_service i) (rg_services r) \<and>
    service_row (po_principal_id i) (po_service_id i) r' = None \<and>
    (\<exists>x \<in> tombstones (rg_identities r'). iy_service_id x = po_service_id i) \<and>
    (\<forall>c \<in> set (rg_claims r'). cl_principal_id c = po_principal_id i \<and>
       cl_service_id c = po_service_id i \<and> cl_idempotency_key c \<noteq> po_idempotency_key i \<longrightarrow>
       cl_phase c = PhaseTombstoned \<and> cl_intent c = None \<and> cl_result c = None) \<and>
    (\<forall>x \<in> set (rg_receipts r'). \<not> purged_receipt i x)"
  using run iss
proof (cases rule: finalize_purge_cases)
  case (recovery c)
  then show ?thesis
    using gone by (auto simp: mark_authority_recovery_def rbind_Inr_iff)
next
  case (purged c s a r1)
  note er = purged(11) [unfolded erase_service_run]
  have rest: "rg_services r' = rg_services r1" "rg_identities r' = rg_identities r1"
    "rg_receipts r' = rg_receipts r1" "v = TombstoneResult (purge_tombstone_of i s a t)"
    "\<exists>f. (\<forall>x. cl_principal_id (f x) = cl_principal_id x \<and> cl_service_id (f x) = cl_service_id x \<and>
        cl_idempotency_key (f x) = cl_idempotency_key x) \<and>
      rg_claims r' = update_where (prepared_row (po_principal_id i) (po_idempotency_key i)
        (po_fingerprint i)) f (rg_claims r1)"
    using purged(12) gone
    by (auto simp: complete_authority_def rbind_Inr_iff rlift_Inr_iff rcheck_Inr_iff
        ai_with_phase_run update_prepared_run append_local_event_def append_audit_run
        simp del: ai_with_phase.simps intro!: exI [of _ "completed_authority_row (PortableIntent i)
          (TombstoneResult (purge_tombstone_of i s a t))"] simp: completed_authority_row_def [abs_def])
  have svc: "rg_services r' = delete_where (purged_service i) (rg_services r)" using rest er by simp
  moreover have "service_row (po_principal_id i) (po_service_id i) r' = None"
    unfolding service_row_def find_None_iff svc by (auto simp: set_delete_where purged_service_def)
  moreover have "\<exists>x \<in> tombstones (rg_identities r'). iy_service_id x = po_service_id i"
  proof -
    from er have "rowcount (purged_identity i) (rg_identities r) \<noteq> 0" by simp
    then obtain x where x: "x \<in> set (rg_identities r)" "purged_identity i x" by (auto simp: rowcount_0_iff)
    let ?x = "x\<lparr>iy_state := IdentityTombstoned, iy_domain_name := None, iy_storage_backend := None,
        iy_claim_key := Some (po_idempotency_key i), iy_lifecycle_at := Some t\<rparr>"
    from x rest(2) er have "?x \<in> set (rg_identities r')" by (force simp: set_update_where)
    with x show ?thesis
      by (intro bexI [of _ ?x]) (simp_all add: tombstones_def purged_identity_def)
  qed
  moreover have "cl_phase c = PhaseTombstoned \<and> cl_intent c = None \<and> cl_result c = None"
    if "c \<in> set (rg_claims r')" "cl_principal_id c = po_principal_id i"
      "cl_service_id c = po_service_id i" "cl_idempotency_key c \<noteq> po_idempotency_key i" for c
    using that rest(5) er
    by (auto simp: set_update_where prepared_row_def purged_claim_def tombstone_claim_def
        split: if_splits)
  moreover have "\<not> purged_receipt i x" if "x \<in> set (rg_receipts r')" for x
    using that rest(3) er by (auto simp: set_delete_where)
  ultimately show ?thesis using purged rest(4) by auto
qed (use gone in simp)

section \<open>Materialise and evolve\<close>

definition completed_lifecycle_row :: "service \<Rightarrow> claim_row \<Rightarrow> claim_row" where
  "completed_lifecycle_row s c = c\<lparr>cl_phase := PhaseCompleted, cl_result := Some (ServiceDocument s)\<rparr>"

definition lifecycle_event :: "lifecycle_intent \<Rightarrow> audit_outcome \<Rightarrow> time \<Rightarrow> audit_row list \<Rightarrow> audit_row list" where
  "lifecycle_event i outcome t rows = trim_audits (cf_principal_id (li_fields i)) (rows @
     [\<lparr>au_audit_id = next_audit_id rows, au_action = lifecycle_claim_kind (li_kind i),
       au_outcome = outcome, au_service_id = cf_service_id (li_fields i),
       au_principal_id = cf_principal_id (li_fields i),
       au_created_via = cf_created_via (li_fields i), au_at = t\<rparr>])"

text \<open>The exact tables after a completed materialisation or evolution.\<close>

definition finalized_registry :: "lifecycle_completion \<Rightarrow> service \<Rightarrow> registry \<Rightarrow> registry" where
  "finalized_registry co s r =
     (let i = co_intent co; s' = terminal_service s co in
      (swap_service s' r)\<lparr>
        rg_claims := update_where (prepared_row (cf_principal_id (li_fields i))
            (cf_idempotency_key (li_fields i)) (li_fingerprint i))
          (completed_lifecycle_row s') (rg_claims r),
        rg_audits := lifecycle_event i CompletedEvent (co_at co) (rg_audits r)\<rparr>)"

lemma lifecycle_event_run:
  "append_terminal i CompletedEvent t r =
     (Inr (), r\<lparr>rg_audits := lifecycle_event i CompletedEvent t (rg_audits r)\<rparr>)"
  by (cases "li_kind i")
    (simp_all add: append_terminal_def append_audit_run lifecycle_event_def audit_pair_ok_def)

lemma finalize_completed_reports:
  assumes inv: "registry_inv rt r" and run: "finalize_completed rt co r = (Inr out, r')" and w: "r' \<noteq> r"
  shows "(\<exists>s. service_row (cf_principal_id (li_fields (co_intent co)))
        (cf_service_id (li_fields (co_intent co))) r = Some s \<and> finalization_preconditions s co \<and>
      out = CompletedLifecycleClaim ((co_intent co)\<lparr>li_phase := Completed\<rparr>) (terminal_service s co) \<and>
      r' = finalized_registry co s r) \<or>
    (out = RecoveryRequiredLifecycleClaim ((co_intent co)\<lparr>li_phase := RecoveryRequiredPhase\<rparr>) \<and>
      rg_services r' = rg_services r \<and> rg_identities r' = rg_identities r)"
  using run
proof (cases rule: finalize_completed_cases)
  case (recovery c)
  then show ?thesis using mark_recovery_run [OF recovery(4)] by simp
next
  case (stale c s)
  then show ?thesis using mark_recovery_run [OF stale(5)] by simp
next
  case (completed c s r1)
  let ?s = "terminal_service s co"
  note inS = service_row_Some [OF completed(5)]
  have same: "sv_principal_id ?s = sv_principal_id s" "sv_service_id ?s = sv_service_id s"
    by (cases co; simp add: terminal_service_def Let_def)+
  have ex: "\<exists>old. service_row (sv_principal_id ?s) (sv_service_id ?s) r = Some old \<and>
      sv_service_revision old = cf_expected_service_revision (li_fields (co_intent co))"
    using completed(5,6) inS by (simp add: same Let_def)
  then have r1: "r1 = swap_service ?s r"
    using completed(7) unfolding save_service_run [OF registry_invD(1) [OF inv]] by simp
  have "r' = finalized_registry co s r"
    using completed(11)
    by (auto simp: rbind_Inr_iff update_prepared_run lifecycle_event_run r1 finalized_registry_def
        Let_def swap_service_def completed_lifecycle_row_def [abs_def])
  with completed(5,6,10) show ?thesis by blast
qed (use w in simp)

lemma terminal_service_id:
  "sv_service_id (terminal_service s co) = sv_service_id s"
  "sv_principal_id (terminal_service s co) = sv_principal_id s"
  "sv_domain_name (terminal_service s co) = sv_domain_name s"
  "sv_service_revision (terminal_service s co) =
     cf_expected_service_revision (li_fields (co_intent co)) + 1"
  by (cases co; simp add: terminal_service_def Let_def)+

text \<open>The other services of a registry after a swap.\<close>

lemma swap_service_rows:
  "x \<in> set (rg_services (swap_service s r)) \<longleftrightarrow>
     x \<in> set (rg_services r) \<and> sv_service_id x \<noteq> sv_service_id s \<or>
     x = s \<and> (\<exists>y \<in> set (rg_services r). sv_service_id y = sv_service_id s)"
  by (auto simp: swap_service_def set_update_where)

text \<open>A prepared materialisation or evolution of an unmoved service completes.\<close>

lemma terminal_service_valid:
  assumes v: "validate_service rt s" and pre: "finalization_preconditions s co" and co: "completion_ok co"
    and i: "intent_spec rt (co_intent co)"
    and rev: "cf_expected_service_revision (li_fields (co_intent co)) < MAX_SERVICE_REVISION"
  shows "validate_service rt (terminal_service s co)"
    and "completed_lifecycle_ok ((co_intent co)\<lparr>li_phase := Completed\<rparr>) (terminal_service s co)"
proof -
  have s: "service_ok s" "sv_created_at s \<le> co_at co"
    "\<And>m. sv_materialised_at s = Some m \<Longrightarrow> m \<le> co_at co"
    using v pre by (auto simp: validate_service_def service_ok_def Let_def)
  have man: "model_validate (li_target_manifest (co_intent co)) = Inr (li_target_manifest (co_intent co))"
      "1 \<le> ma_schema_version (li_target_manifest (co_intent co))"
      "ma_schema_version (li_target_manifest (co_intent co)) \<le> MAX_SCHEMA_VERSION"
    using i manifest_version_bound
    by (auto simp: intent_spec_def model_validate_iff manifest_spec_def manifest_fields_ok_def)
  have ok: "service_ok (terminal_service s co)"
  proof (cases co)
    case (MaterialiseCompletion j t st)
    then show ?thesis
      using s man pre rev co by (auto simp: service_ok_def terminal_service_def Let_def)
  next
    case (EvolveCompletion j t)
    then show ?thesis
      using s man pre rev co
      by (auto simp: service_ok_def terminal_service_def Let_def split: if_splits)
  qed
  moreover have "sv_domain_class (terminal_service s co) = sv_domain_class s"
    "sv_intent_description (terminal_service s co) = sv_intent_description s"
    by (cases co; simp add: terminal_service_def Let_def)+
  ultimately show "validate_service rt (terminal_service s co)"
    using v by (simp add: validate_service_def terminal_service_id)
  have one: "li_kind (co_intent co) = Materialise \<longrightarrow>
      ma_schema_version (li_target_manifest (co_intent co)) = 1"
    using i by (cases "li_kind (co_intent co)") (simp_all add: intent_spec_def)
  show "completed_lifecycle_ok ((co_intent co)\<lparr>li_phase := Completed\<rparr>) (terminal_service s co)"
    using ok pre co one
    by (cases co) (auto simp: completed_lifecycle_ok_def validate_terminal_service_def
        terminal_service_def Let_def)
qed

lemma terminal_or_prepared_run:
  assumes inv: "registry_inv rt r" and i: "intent_spec rt i" "li_phase i = Prepared"
    and c: "claim_lookup (cf_principal_id (li_fields i)) (cf_idempotency_key (li_fields i)) r = Some c"
      "lifecycle_row_for i c"
  shows "terminal_or_prepared rt i r = (Inr (PreparedLifecycleClaim i), r)"
proof -
  have "cl_fingerprint c = li_fingerprint i" using c(2) by (simp add: lifecycle_row_for_def)
  then show ?thesis
    using i(2) c(1) existing_prepared_row [OF c(2) i, of r]
    by (simp add: terminal_or_prepared_def rbind_apply)
qed

lemma finalize_completed_succeeds:
  assumes inv: "registry_inv rt r" and i: "intent_spec rt (co_intent co)" and co: "completion_ok co"
    and rev: "cf_expected_service_revision (li_fields (co_intent co)) < MAX_SERVICE_REVISION"
    and c: "claim_lookup (cf_principal_id (li_fields (co_intent co)))
        (cf_idempotency_key (li_fields (co_intent co))) r = Some c" "lifecycle_row_for (co_intent co) c"
    and s: "service_row (cf_principal_id (li_fields (co_intent co)))
        (cf_service_id (li_fields (co_intent co))) r = Some s" "finalization_preconditions s co"
  shows "finalize_completed rt co r =
    (Inr (CompletedLifecycleClaim ((co_intent co)\<lparr>li_phase := Completed\<rparr>) (terminal_service s co)),
     finalized_registry co s r)"
proof -
  let ?i = "co_intent co" and ?s = "terminal_service s co"
  let ?r = "swap_service ?s r"
  have ph: "li_phase ?i = Prepared" using co by (cases co) simp_all
  note inS = service_row_Some [OF s(1)]
  have "validate_service rt s" using services_invD(1) [OF registry_invD(1) [OF inv]] inS by blast
  note v = terminal_service_valid [OF this s(2) co i rev]
  have p: "sv_service_revision s = cf_expected_service_revision (li_fields ?i)" "sv_updated_at s \<le> co_at co"
    using s(2) by (simp_all add: Let_def)
  have save: "save_service rt ?s (cf_expected_service_revision (li_fields ?i)) r = (Inr Saved, ?r)"
    using save_service_same_domain [OF inv s(1) _ _ _ v(1)] inS p(1) rev by (simp add: terminal_service_id)
  note k = save_service_keeps [OF inv save]
  have pr: "prepared_row (cf_principal_id (li_fields ?i)) (cf_idempotency_key (li_fields ?i))
      (li_fingerprint ?i) c" by (rule lifecycle_prepared_row [OF c(2)])
  have shape: "claim_shape_ok (completed_lifecycle_row ?s x)"
    if "x \<in> set (rg_claims r)" "prepared_row (cf_principal_id (li_fields ?i))
      (cf_idempotency_key (li_fields ?i)) (li_fingerprint ?i) x" for x
  proof -
    have x: "x = c" by (rule prepared_row_unique [OF registry_invD(2) [OF inv] c(1) that])
    have "claim_shape_ok c"
      using claims_invD [OF registry_invD(2) [OF inv]] claim_lookup_Some [OF c(1)] by (auto simp: claim_ok_def)
    then show ?thesis
      using c(2) x by (simp add: claim_shape_ok.simps completed_lifecycle_row_def lifecycle_row_for_def)
  qed
  have "update_prepared (cf_principal_id (li_fields ?i)) (cf_idempotency_key (li_fields ?i))
      (li_fingerprint ?i) (completed_lifecycle_row ?s) ?r =
      (Inr (), ?r\<lparr>rg_claims := update_where (prepared_row (cf_principal_id (li_fields ?i))
        (cf_idempotency_key (li_fields ?i)) (li_fingerprint ?i)) (completed_lifecycle_row ?s) (rg_claims r)\<rparr>)"
    using shape k rowcount_prepared_1 [OF registry_invD(2) [OF inv] c(1) pr] by (simp add: update_prepared_run)
  then show ?thesis
    using terminal_or_prepared_run [OF inv i ph c] get_service_found [OF registry_invD(1) [OF inv] s(1)]
      p(2) s(2) v save i ph k
    by (simp add: finalize_completed_def Let_def rbind_apply is_terminal_claim_def make_service_def
        valued_def validate_service_def with_phase_iff [THEN iffD2] lifecycle_event_run
        finalized_registry_def completed_lifecycle_row_def [abs_def] swap_service_def
        del: finalization_preconditions.simps)
qed

text \<open>A finalized request, sent again.\<close>

lemma completed_is_replayed:
  assumes inv: "registry_inv rt r" and run: "finalize_completed rt co r = (Inr (CompletedLifecycleClaim j s), r')"
    and w: "r' \<noteq> r"
  shows "resolve_or_admit rt (command_of (co_intent co)) r' =
    (Inr (CompletedLifecycleClaim ((co_intent co)\<lparr>li_phase := Completed\<rparr>) s), r')"
  using run
proof (cases rule: finalize_completed_cases)
  case (completed c s0 r1)
  let ?i = "co_intent co" and ?s = "terminal_service s0 co"
  let ?d = "c\<lparr>cl_phase := PhaseCompleted, cl_result := Some (ServiceDocument ?s)\<rparr>"
  have "claim_lookup (cf_principal_id (li_fields ?i)) (cf_idempotency_key (li_fields ?i)) r1 = Some c"
    using completed(4) save_service_claims [OF completed(7)] by (simp add: claim_lookup_def)
  note look = complete_row_terminal(1) [OF completed(1,3,2) this completed(8,9,11)]
  have cmd: "command_fields (command_of ?i) = li_fields ?i" "command_kind (command_of ?i) = li_kind ?i"
    "lifecycle_fingerprint rt (command_of ?i) = li_fingerprint ?i"
    using completed(1) by (cases "li_kind ?i"; simp add: intent_spec_def command_of_def)+
  have "intent_from_row (lifecycle_document ?i) Completed ?d = ?i\<lparr>li_phase := Completed\<rparr>"
    using completed(2) by (simp add: intent_from_row_def lifecycle_document_def lifecycle_row_for_def)
  then have dec: "decode_lifecycle_intent rt ?d r' = (Inr (?i\<lparr>li_phase := Completed\<rparr>), r')"
    using completed(1,2)
    by (auto simp: decode_lifecycle_intent_run lifecycle_row_for_def lifecycle_document_def)
  have res: "decode_result rt (cl_result ?d) (cf_principal_id (li_fields ?i))
      (cf_service_id (li_fields ?i)) r' = (Inr ?s, r')"
    using completed(8,9) by (simp add: decode_result_run completed_lifecycle_ok_def validate_terminal_service_def)
  have "existing_lifecycle_claim rt ?d (command_of ?i) (li_fingerprint ?i) r' =
      (Inr (CompletedLifecycleClaim (?i\<lparr>li_phase := Completed\<rparr>) ?s), r')"
    unfolding existing_lifecycle_claim_run
    using completed(2,9) dec res by (simp add: cmd lifecycle_row_for_def)
  then show ?thesis using look completed(10) by (simp add: resolve_or_admit_def Let_def cmd)
next
  case (recovery c)
  then show ?thesis using mark_recovery_run [OF recovery(4)] by simp
next
  case (stale c s0)
  then show ?thesis using mark_recovery_run [OF stale(5)] by simp
qed (use w in simp)

section \<open>Listing\<close>

lemma list_services_run:
  assumes inv: "services_inv rt (rg_services r) (rg_identities r)"
  shows "\<exists>xs. list_services rt p limit r = (Inr xs, r) \<and> length xs \<le> limit \<and>
    sorted (map (\<lambda>s. (sv_created_at s, uuid_str (sv_service_id s))) xs) \<and> distinct xs \<and>
    (\<forall>s \<in> set xs. s \<in> set (rg_services r) \<and> sv_principal_id s = p \<and> validate_service rt s) \<and>
    (\<forall>s \<in> set (rg_services r). sv_principal_id s = p \<and> s \<notin> set xs \<longrightarrow> length xs = limit \<and>
       (\<forall>x \<in> set xs. (sv_created_at x, uuid_str (sv_service_id x)) \<le>
          (sv_created_at s, uuid_str (sv_service_id s))))"
proof -
  let ?k = "\<lambda>s. (sv_created_at s, uuid_str (sv_service_id s))"
  let ?ys = "sort_key ?k (filter (\<lambda>s. sv_principal_id s = p) (rg_services r))"
  let ?xs = "take limit ?ys"
  note d = services_invD [OF inv]
  have set_ys: "set ?ys = {s \<in> set (rg_services r). sv_principal_id s = p}" by auto
  have valid: "validate_service rt s" if "s \<in> set ?xs" for s
    using d(1) set_ys that by (metis (no_types, lifting) in_set_takeD mem_Collect_eq)
  have "distinct (rg_services r)" using d(2) by (simp add: distinct_map)
  then have dist: "distinct ?xs" by simp
  have sorted: "sorted (map ?k ?ys)" by (rule sorted_sort_key)
  have later: "length ?xs = limit \<and> (\<forall>x \<in> set ?xs. ?k x \<le> ?k s)"
    if "s \<in> set (rg_services r)" "sv_principal_id s = p" "s \<notin> set ?xs" for s
  proof -
    have "s \<in> set ?ys" using that set_ys by blast
    then have s: "s \<in> set (drop limit ?ys)"
      using that(3) by (metis Un_iff append_take_drop_id set_append)
    then have "drop limit ?ys \<noteq> []" by auto
    moreover have "sorted (map ?k (?xs @ drop limit ?ys))" using sorted by simp
    ultimately show ?thesis using s unfolding map_append sorted_append by simp
  qed
  show ?thesis
    using valid dist sorted later set_ys
    by (intro exI [of _ ?xs])
      (auto simp: list_services_def rbind_Inr_iff decode_services_run take_map [symmetric] sorted_wrt_take
        dest: in_set_takeD)
qed

end
