(* ===== verification/Registry_Sample.thy ===== *)
theory Registry_Sample
  imports Ledger_Effects Lifecycle_Properties
begin

text \<open>
  A concrete registry for the witnesses: the sample service of alice is added, its
  materialisation is admitted and finalized; a suspension and the purge of an archived service
  follow the shared claim authority. Each table is written out, and each run is evaluated.
\<close>

definition sample_service :: service where
  "sample_service =
     \<lparr>sv_service_id = 7, sv_principal_id = ascii ''alice'', sv_domain_name = ascii ''notes'',
      sv_domain_class = ascii ''personal'', sv_intent_description = ascii ''my notes'',
      sv_created_at = 1, sv_updated_at = 5, sv_last_activity_at = 5,
      sv_manifest = Some notes_manifest, sv_schema_version = Some 1, sv_design_state = Seeded,
      sv_operational_status = Active, sv_service_revision = 2, sv_materialised_at = None,
      sv_storage = None\<rparr>"

lemma sample_texts:
  "codec_text ascii_runtime (ascii ''alice'') 128" "codec_domain ascii_runtime (ascii ''notes'')"
  "codec_text ascii_runtime (ascii ''personal'') 64"
  "codec_text ascii_runtime (ascii ''my notes'') 1000"
  by (simp_all add: codec_text_def codec_domain_def valid_text_def is_printable_def ascii_runtime_def
      strip_def is_space_def ascii_def is_identifier_def is_lower_def is_digit_def list_all_iff)

lemma sample_service_valid: "validate_service ascii_runtime sample_service"
  using sample_texts notes_validate
  by (simp add: validate_service_def service_ok_def sample_service_def notes_manifest_def
      MAX_SERVICE_REVISION_def MAX_SCHEMA_VERSION_def)

definition seeded_registry :: registry where
  "seeded_registry = empty_registry\<lparr>rg_services := [sample_service],
     rg_identities := [live_identity sample_service]\<rparr>"

lemma sample_added: "add_service ascii_runtime sample_service empty_registry = (Inr (), seeded_registry)"
  using sample_service_valid
  by (auto simp: add_service_def run_simps empty_registry_def seeded_registry_def)

definition sample_claim :: claim_row where
  "sample_claim =
     \<lparr>cl_principal_id = ascii ''alice'', cl_idempotency_key = ascii ''key-1'',
      cl_fingerprint = li_fingerprint sample_intent, cl_service_id = 7, cl_kind = KMaterialise,
      cl_phase = PhasePrepared, cl_created_via = Some (ascii ''mcp''),
      cl_intent = Some (LifecycleDocument (lifecycle_document sample_intent)), cl_result = None,
      cl_recovery_category = False\<rparr>"

definition admitted_registry :: registry where
  "admitted_registry = seeded_registry\<lparr>rg_claims := [sample_claim]\<rparr>"

lemma sample_prepared:
  "prepare_intent ascii_runtime (MaterialiseCommand sample_fields) notes_manifest = Inr sample_intent"
proof -
  let ?c = "MaterialiseCommand sample_fields"
  have "valid_command ?c"
    using sample_fields_ok by (simp add: valid_command_def materialise_command_iff)
      (simp add: sample_fields_def)
  then obtain i where i: "prepare_intent ascii_runtime ?c notes_manifest = Inr i"
    using prepare_intent_total [OF ascii_runtime_ok _ notes_spec, of ?c]
    by (auto simp: notes_manifest_def)
  then have "i = sample_intent"
    using prepare_intent_ok [OF i] by (cases i) (simp add: sample_intent_def)
  with i show ?thesis by simp
qed

lemma notes_compiles: "\<exists>s. compile_manifest notes_manifest = Inr s"
  using notes_spec by (auto simp: compile_manifest_iff)

lemma sample_inserted: "insert_prepared sample_intent seeded_registry = (Inr (), admitted_registry)"
proof -
  have "claim_columns_ok sample_claim"
    using sample_fingerprint by (simp add: claim_columns_ok_def sample_claim_def ascii_def)
  moreover have "claim_shape_ok sample_claim"
    by (simp add: claim_shape_ok.simps sample_claim_def non_lifecycle_row_kind_def)
  ultimately show ?thesis
    by (simp add: insert_prepared_def run_simps seeded_registry_def empty_registry_def
        admitted_registry_def sample_claim_def sample_intent_def sample_fields_def)
qed

lemma sample_service_found:
  "get_service ascii_runtime (ascii ''alice'') 7 seeded_registry = (Inr (Some sample_service), seeded_registry)"
  using sample_service_valid
  by (simp add: get_service_run service_row_def seeded_registry_def) (simp add: sample_service_def)

lemma sample_admitted:
  "resolve_or_admit ascii_runtime (MaterialiseCommand sample_fields) seeded_registry =
     (Inr (PreparedLifecycleClaim sample_intent), admitted_registry)"
proof -
  have look: "claim_lookup (ascii ''alice'') (ascii ''key-1'') seeded_registry = None"
    by (simp add: claim_lookup_def seeded_registry_def empty_registry_def)
  have act: "active_claims (ascii ''alice'') 7 seeded_registry = []"
    by (simp add: active_claims_def seeded_registry_def empty_registry_def)
  have tgt: "admitted_target sample_service (MaterialiseCommand sample_fields) = Some (True, notes_manifest)"
    using notes_compiles by (auto simp: admitted_target_def sample_service_def)
  have sup: "supported_lifecycle_state sample_service (MaterialiseCommand sample_fields)"
    by (simp add: sample_service_def)
  have flds: "cf_principal_id sample_fields = ascii ''alice''" "cf_service_id sample_fields = 7"
    "cf_idempotency_key sample_fields = ascii ''key-1''"
    "cf_expected_service_revision sample_fields = 2" "cf_expected_schema_version sample_fields = 1"
    by (simp_all add: sample_fields_def)
  have rev: "sv_service_revision sample_service = 2" "sv_schema_version sample_service = Some 1"
    by (simp_all add: sample_service_def)
  show ?thesis
    using sup
    by (simp add: resolve_or_admit_def Let_def flds look rbind_apply sample_service_found rev
        act tgt sample_prepared sample_inserted MAX_SERVICE_REVISION_def)
qed

section \<open>Reachability\<close>

lemma seeded_reachable: "registry_reachable ascii_runtime seeded_registry"
  using sample_added by (blast intro: registry_reachable.intros registry_step.add)

lemma admitted_step: "registry_step ascii_runtime seeded_registry admitted_registry"
  using sample_admitted by (rule registry_step.admit)

lemma admitted_reachable: "registry_reachable ascii_runtime admitted_registry"
  using seeded_reachable admitted_step by (rule registry_reachable.step)

section \<open>The materialisation is finalized\<close>

definition sample_storage :: materialisation_storage where
  "sample_storage = \<lparr>st_backend = SQLite, st_namespace = svc_namespace 7\<rparr>"

definition sample_completion :: lifecycle_completion where
  "sample_completion = MaterialiseCompletion sample_intent 9 sample_storage"

definition materialised_service :: service where
  "materialised_service = sample_service\<lparr>sv_updated_at := 9, sv_last_activity_at := 9,
     sv_service_revision := 3, sv_design_state := Materialised, sv_materialised_at := Some 9,
     sv_storage := Some sample_storage\<rparr>"

lemma sample_terminal: "terminal_service sample_service sample_completion = materialised_service"
  by (simp add: terminal_service_def sample_completion_def materialised_service_def sample_intent_def
      sample_fields_def)

lemma materialised_valid: "validate_service ascii_runtime materialised_service"
  using sample_texts notes_validate
  by (simp add: validate_service_def service_ok_def materialised_service_def sample_service_def
      notes_manifest_def sample_storage_def storage_ok_def
      MAX_SERVICE_REVISION_def MAX_SCHEMA_VERSION_def)

definition completed_registry :: registry where
  "completed_registry = admitted_registry\<lparr>rg_services := [materialised_service],
     rg_identities := [live_identity materialised_service],
     rg_claims := [sample_claim\<lparr>cl_phase := PhaseCompleted,
       cl_result := Some (ServiceDocument materialised_service)\<rparr>],
     rg_audits := [\<lparr>au_audit_id = 1, au_action = KMaterialise, au_outcome = CompletedEvent,
       au_service_id = 7, au_principal_id = ascii ''alice'', au_created_via = ascii ''mcp'',
       au_at = 9\<rparr>]\<rparr>"

lemma sample_intent_simps [simp]:
  "li_kind sample_intent = Materialise" "li_phase sample_intent = Prepared"
  "cf_principal_id (li_fields sample_intent) = ascii ''alice''"
  "cf_service_id (li_fields sample_intent) = 7"
  "cf_idempotency_key (li_fields sample_intent) = ascii ''key-1''"
  "cf_expected_service_revision (li_fields sample_intent) = 2"
  "cf_expected_schema_version (li_fields sample_intent) = 1"
  "cf_created_via (li_fields sample_intent) = ascii ''mcp''"
  "li_target_manifest sample_intent = notes_manifest"
  by (simp_all add: sample_intent_def sample_fields_def)

lemma sample_row: "lifecycle_row_for sample_intent sample_claim"
  by (simp add: lifecycle_row_for_def sample_claim_def)

lemma sample_existing:
  "terminal_or_prepared ascii_runtime sample_intent admitted_registry =
     (Inr (PreparedLifecycleClaim sample_intent), admitted_registry)"
proof -
  have look: "claim_lookup (ascii ''alice'') (ascii ''key-1'') admitted_registry = Some sample_claim"
    by (simp add: claim_lookup_def admitted_registry_def sample_claim_def)
  have fp: "cl_fingerprint sample_claim = li_fingerprint sample_intent" by (simp add: sample_claim_def)
  have dec: "decode_lifecycle_intent ascii_runtime sample_claim admitted_registry =
      (Inr sample_intent, admitted_registry)"
    by (rule existing_prepared_row [OF sample_row sample_intent_spec]) simp
  show ?thesis by (simp add: terminal_or_prepared_def look fp rbind_apply dec)
qed

lemma sample_saved:
  "save_service ascii_runtime materialised_service 2 admitted_registry =
     (Inr Saved, swap_service materialised_service admitted_registry)"
proof -
  have inv: "services_inv ascii_runtime (rg_services admitted_registry) (rg_identities admitted_registry)"
    using registry_invD(1) [OF reachable_inv [OF admitted_reachable]] .
  have ex: "\<exists>old. service_row (sv_principal_id materialised_service)
      (sv_service_id materialised_service) admitted_registry = Some old \<and> sv_service_revision old = 2"
    by (simp add: service_row_def admitted_registry_def seeded_registry_def materialised_service_def
        sample_service_def)
  show ?thesis
    unfolding save_service_run [OF inv] if_P [OF ex]
    using materialised_valid
    by (simp add: MAX_SERVICE_REVISION_def admitted_registry_def seeded_registry_def
        materialised_service_def)
qed

lemma materialised_ok:
  "completed_lifecycle_ok (sample_intent\<lparr>li_phase := Completed\<rparr>) materialised_service"
  using materialised_valid
  by (simp add: completed_lifecycle_ok_def validate_terminal_service_def validate_service_def)
    (simp add: materialised_service_def sample_service_def notes_manifest_def)

lemma sample_finalized:
  "finalize_completed ascii_runtime sample_completion admitted_registry =
     (Inr (CompletedLifecycleClaim (sample_intent\<lparr>li_phase := Completed\<rparr>) materialised_service),
      completed_registry)"
proof -
  let ?r = "swap_service materialised_service admitted_registry"
  let ?f = "\<lambda>c. c\<lparr>cl_phase := PhaseCompleted, cl_result := Some (ServiceDocument materialised_service)\<rparr>"
  have co: "co_intent sample_completion = sample_intent" "co_at sample_completion = 9"
    by (simp_all add: sample_completion_def)
  have found: "get_service ascii_runtime (ascii ''alice'') 7 admitted_registry =
      (Inr (Some sample_service), admitted_registry)"
    using sample_service_valid
    by (simp add: get_service_run service_row_def admitted_registry_def seeded_registry_def)
      (simp add: sample_service_def)
  have pre: "finalization_preconditions sample_service sample_completion"
    by (simp add: Let_def co) (simp add: sample_completion_def sample_service_def)
  have mk: "make_service materialised_service = Inr materialised_service"
    using materialised_valid by (simp add: make_service_def valued_Inr_iff validate_service_def)
  have ph: "with_phase ascii_runtime sample_intent Completed = Inr (sample_intent\<lparr>li_phase := Completed\<rparr>)"
    using sample_intent_spec by (simp add: with_phase_iff)
  have upd: "update_prepared (ascii ''alice'') (ascii ''key-1'') (li_fingerprint sample_intent) ?f ?r =
      (Inr (), ?r\<lparr>rg_claims := [?f sample_claim]\<rparr>)"
    by (simp add: run_simps swap_service_def admitted_registry_def prepared_row_def rowcount_def
        update_where_def sample_claim_def claim_shape_ok.simps non_lifecycle_row_kind_def)
  have app: "append_terminal sample_intent CompletedEvent 9 (?r\<lparr>rg_claims := [?f sample_claim]\<rparr>) =
      (Inr (), completed_registry)"
    by (simp add: append_terminal_def run_simps audit_pair_ok_def completed_registry_def
        swap_service_def admitted_registry_def seeded_registry_def empty_registry_def update_where_def
        trim_audits_def delete_where_def rowcount_def next_audit_id_def materialised_service_def)
  have upd_at: "sv_updated_at sample_service = 5" by (simp add: sample_service_def)
  show ?thesis
    using pre
    by (simp add: finalize_completed_def Let_def co rbind_apply sample_existing is_terminal_claim_def
        found upd_at sample_terminal mk sample_saved ph materialised_valid upd app materialised_ok
        del: finalization_preconditions.simps)
qed

lemma completed_differs: "completed_registry \<noteq> admitted_registry"
proof -
  have "rg_audits completed_registry \<noteq> rg_audits admitted_registry"
    by (simp add: completed_registry_def admitted_registry_def seeded_registry_def empty_registry_def)
  then show ?thesis by auto
qed

lemma completed_step: "registry_step ascii_runtime admitted_registry completed_registry"
  using sample_finalized by (rule registry_step.finalize)

lemma completed_reachable: "registry_reachable ascii_runtime completed_registry"
  using admitted_reachable completed_step by (rule registry_reachable.step)

section \<open>A suspension\<close>

definition suspend_intent :: operational_intent where
  "suspend_intent = \<lparr>oi_phase = Prepared, oi_command = suspend_command, oi_target_status = Suspended,
     oi_fingerprint = operational_fingerprint ascii_runtime suspend_command\<rparr>"

lemma suspend_command_simps [simp]:
  "oc_kind suspend_command = Suspend" "oc_principal_id suspend_command = ascii ''alice''"
  "oc_service_id suspend_command = 7" "oc_expected_service_revision suspend_command = 2"
  "oc_idempotency_key suspend_command = ascii ''key-2''"
  "oc_created_via suspend_command = ascii ''mcp''"
  by (simp_all add: suspend_command_def)

lemma suspend_prepared:
  "prepare_registry_intent ascii_runtime (OperationalCommand suspend_command) =
     Inr (OperationalIntent suspend_intent)"
  and suspend_spec: "operational_intent_spec ascii_runtime suspend_intent"
proof -
  show spec: "operational_intent_spec ascii_runtime suspend_intent"
    using suspend_command_ok
    by (simp add: operational_intent_spec_def suspend_intent_def operational_fingerprint_def)
  then have "make_operational_intent ascii_runtime suspend_intent = Inr suspend_intent"
    by (simp add: make_operational_intent_iff)
  then show "prepare_registry_intent ascii_runtime (OperationalCommand suspend_command) =
      Inr (OperationalIntent suspend_intent)"
    by (simp add: prepare_operational_intent_def suspend_intent_def)
qed

lemma suspend_intent_simps [simp]:
  "oi_command suspend_intent = suspend_command" "oi_phase suspend_intent = Prepared"
  "oi_target_status suspend_intent = Suspended"
  by (simp_all add: suspend_intent_def)

lemma sample_service_simps [simp]:
  "sv_service_id sample_service = 7" "sv_principal_id sample_service = ascii ''alice''"
  "sv_service_revision sample_service = 2" "sv_operational_status sample_service = Active"
  "sv_updated_at sample_service = 5" "sv_design_state sample_service = Seeded"
  by (simp_all add: sample_service_def)

lemma seeded_tables [simp]:
  "rg_services seeded_registry = [sample_service]" "rg_claims seeded_registry = []"
  "rg_identities seeded_registry = [live_identity sample_service]" "rg_audits seeded_registry = []"
  "rg_receipts seeded_registry = []"
  by (simp_all add: seeded_registry_def empty_registry_def)

definition suspending_registry :: registry where
  "suspending_registry = seeded_registry
     \<lparr>rg_claims := [authority_row (OperationalIntent suspend_intent)]\<rparr>"

lemma suspend_admitted:
  "resolve_or_prepare ascii_runtime (OperationalCommand suspend_command) 6 seeded_registry =
     (Inr (PreparedRegistryClaim (OperationalIntent suspend_intent)), suspending_registry)"
  using resolve_or_prepare_fresh [OF reachable_inv [OF seeded_reachable] suspend_prepared, of sample_service 6]
  by (simp add: claim_lookup_def service_row_def active_claims_def transition_target_status_def
      suspending_registry_def)

lemma suspending_reachable: "registry_reachable ascii_runtime suspending_registry"
  using seeded_reachable suspend_admitted by (blast intro: registry_reachable.step registry_step.prepare)

lemma suspending_row:
  "claim_lookup (ascii ''alice'') (ascii ''key-2'') suspending_registry =
     Some (authority_row (OperationalIntent suspend_intent))"
  "authority_row_for (OperationalIntent suspend_intent) (authority_row (OperationalIntent suspend_intent))"
  by (simp_all add: claim_lookup_def suspending_registry_def authority_row_def authority_row_for_def
      authority_row_matches_def)

lemma suspending_service:
  "service_row (ascii ''alice'') 7 suspending_registry = Some sample_service"
  by (simp add: service_row_def suspending_registry_def)

lemma suspend_finalized:
  "finalize_operational ascii_runtime suspend_intent 8 suspending_registry =
     (Inr (CompletedRegistryClaim (OperationalIntent (suspend_intent\<lparr>oi_phase := Completed\<rparr>))
        (ServiceResult (moved_service suspend_intent 8 sample_service))),
      moved_registry suspend_intent 8 sample_service suspending_registry)"
  by (rule finalize_operational_succeeds [OF reachable_inv [OF suspending_reachable] suspend_spec])
    (use suspending_row suspending_service in simp_all)

lemma suspend_issued: "issued suspending_registry (OperationalIntent suspend_intent)"
  by (simp add: issued_def suspending_registry_def authority_row_def)

section \<open>The purge of an archived service\<close>

definition archived_service :: service where
  "archived_service = sample_service\<lparr>sv_operational_status := Archived\<rparr>"

lemma archived_valid: "validate_service ascii_runtime archived_service"
  using sample_service_valid
  by (simp add: validate_service_def service_ok_def archived_service_def cong: option.case_cong)

definition archived_registry :: registry where
  "archived_registry = empty_registry\<lparr>rg_services := [archived_service],
     rg_identities := [live_identity archived_service]\<rparr>"

lemma archived_added: "add_service ascii_runtime archived_service empty_registry = (Inr (), archived_registry)"
  using archived_valid by (auto simp: add_service_def run_simps empty_registry_def archived_registry_def)

lemma archived_reachable: "registry_reachable ascii_runtime archived_registry"
  using archived_added by (blast intro: registry_reachable.intros registry_step.add)

definition purge_target :: service_target where
  "purge_target = export_target\<lparr>tg_idempotency_key := ascii ''key-4''\<rparr>"

definition purge_intent :: portable_intent where
  "purge_intent = \<lparr>po_kind = PurgeKind, po_phase = Prepared, po_principal_id = ascii ''alice'',
     po_created_via = ascii ''mcp'', po_service_id = 7, po_expected_service_revision = Some 2,
     po_idempotency_key = ascii ''key-4'',
     po_fingerprint = portable_fingerprint ascii_runtime (PurgeCommand purge_target ExplicitOverride),
     po_identity = None, po_bundle_root_sha256 = None, po_destination_backend = None,
     po_purge_authority = Some ExplicitOverride\<rparr>"

lemma purge_intent_simps [simp]:
  "po_kind purge_intent = PurgeKind" "po_phase purge_intent = Prepared"
  "po_principal_id purge_intent = ascii ''alice''" "po_service_id purge_intent = 7"
  "po_expected_service_revision purge_intent = Some 2"
  "po_idempotency_key purge_intent = ascii ''key-4''" "po_created_via purge_intent = ascii ''mcp''"
  "po_purge_authority purge_intent = Some ExplicitOverride"
  by (simp_all add: purge_intent_def)

lemma purge_prepared:
  "prepare_registry_intent ascii_runtime (PortableCommand (PurgeCommand purge_target ExplicitOverride)) =
     Inr (PortableIntent purge_intent)"
proof -
  let ?c = "PurgeCommand purge_target ExplicitOverride"
  have "portable_command_ok ?c"
    by (simp add: common_ok_def purge_target_def export_target_def valid_text_def strip_def ascii_def
        is_space_def MAX_SERVICE_REVISION_def)
  then obtain i where i: "prepare_portable_intent ascii_runtime ?c = Inr i"
    using prepare_portable_total [OF ascii_runtime_ok] by blast
  then have "i = purge_intent"
    by (simp add: prepare_portable_intent_def make_portable_intent_def authorised_Inr_iff
        purge_intent_def) (simp add: purge_target_def export_target_def)
  with i show ?thesis by simp
qed

definition purging_registry :: registry where
  "purging_registry = archived_registry\<lparr>rg_claims := [authority_row (PortableIntent purge_intent)]\<rparr>"

lemma archived_simps [simp]:
  "sv_service_id archived_service = 7" "sv_principal_id archived_service = ascii ''alice''"
  "sv_service_revision archived_service = 2" "sv_operational_status archived_service = Archived"
  "sv_updated_at archived_service = 5"
  by (simp_all add: archived_service_def)

lemma archived_tables [simp]:
  "rg_services archived_registry = [archived_service]" "rg_claims archived_registry = []"
  "rg_identities archived_registry = [live_identity archived_service]"
  "rg_audits archived_registry = []" "rg_receipts archived_registry = []"
  by (simp_all add: archived_registry_def empty_registry_def)

lemma purge_admitted:
  "resolve_or_prepare ascii_runtime (PortableCommand (PurgeCommand purge_target ExplicitOverride)) 6
     archived_registry = (Inr (PreparedRegistryClaim (PortableIntent purge_intent)), purging_registry)"
  using resolve_or_prepare_fresh [OF reachable_inv [OF archived_reachable] purge_prepared, of archived_service 6]
  by (simp add: claim_lookup_def service_row_def active_claims_def admissible_def
      purge_receipt_valid_def purging_registry_def)

lemma purging_reachable: "registry_reachable ascii_runtime purging_registry"
  using archived_reachable purge_admitted by (blast intro: registry_reachable.step registry_step.prepare)

lemma purging_row:
  "claim_lookup (ascii ''alice'') (ascii ''key-4'') purging_registry = Some (authority_row (PortableIntent purge_intent))"
  "authority_row_for (PortableIntent purge_intent) (authority_row (PortableIntent purge_intent))"
  by (simp_all add: claim_lookup_def purging_registry_def authority_row_def authority_row_for_def
      authority_row_matches_def)

lemma purge_issued: "issued purging_registry (PortableIntent purge_intent)"
  by (simp add: issued_def purging_registry_def authority_row_def)

lemma purge_finalized:
  "\<exists>r'. finalize_purge ascii_runtime purge_intent 8 purging_registry =
     (Inr (CompletedRegistryClaim (PortableIntent (purge_intent\<lparr>po_phase := Completed\<rparr>))
        (TombstoneResult (purge_tombstone_of purge_intent archived_service ExplicitOverride 8))), r') \<and>
     rg_services r' = []"
proof -
  let ?i = "PortableIntent purge_intent"
  let ?t = "purge_tombstone_of purge_intent archived_service ExplicitOverride 8"
  note inv = reachable_inv [OF purging_reachable]
  have ai: "ai_ok ascii_runtime ?i" "ai_phase ?i = Prepared"
    using prepare_registry_intent_ok [OF purge_prepared] by simp_all
  have s: "service_row (ascii ''alice'') 7 purging_registry = Some archived_service"
    by (simp add: service_row_def purging_registry_def)
  have er: "\<exists>r1. erase_service purge_intent 8 purging_registry = (Inr (), r1)"
    unfolding erase_service_run
    by (simp add: purging_registry_def purged_claim_def authority_row_def rowcount_def
        purged_service_def purged_identity_def)
  then obtain r1 where r1: "erase_service purge_intent 8 purging_registry = (Inr (), r1)" by blast
  have gone: "rg_services r1 = []"
    using r1 [unfolded erase_service_run]
    by (simp add: purging_registry_def delete_where_def purged_service_def)
  have t: "purge_tombstone_ok ?t"
    by (simp add: purge_tombstone_ok_def purge_tombstone_of_def valid_text_def strip_def ascii_def
        is_space_def)
  have look: "claim_lookup (ai_principal ?i) (ai_key ?i) r1 = Some (authority_row ?i)"
    using erase_service_keeps(2) [OF inv r1] purging_row(1) by simp
  have "completed_registry_ok (with_ai_phase ?i Completed) (TombstoneResult ?t)"
    by (simp add: with_ai_phase_def purge_tombstone_of_def)
  from complete_authority_run [OF erase_service_keeps(1) [OF inv r1] ai look purging_row(2) _ this, of 8]
  have "\<exists>r'. complete_authority ascii_runtime ?i (TombstoneResult ?t) 8 r1 =
      (Inr (CompletedRegistryClaim (with_ai_phase ?i Completed) (TombstoneResult ?t)), r') \<and>
      rg_services r' = []"
    using t gone by simp
  then show ?thesis
    using if_prepared_run [OF ai inv] purging_row get_service_found [OF registry_invD(1) [OF inv] s] r1 t
    by (auto simp: finalize_purge_def rbind_apply purge_receipt_valid_def with_ai_phase_def)
qed

section \<open>A key in use, a blocked request and a late request to give up\<close>

definition design_claim :: claim_row where
  "design_claim =
     \<lparr>cl_principal_id = ascii ''alice'', cl_idempotency_key = ascii ''key-2'',
      cl_fingerprint = replicate 64 49, cl_service_id = 7, cl_kind = KDesign,
      cl_phase = PhaseCompleted, cl_created_via = None, cl_intent = None,
      cl_result = Some (ServiceDocument sample_service), cl_recovery_category = False\<rparr>"

definition designed_registry :: registry where
  "designed_registry = seeded_registry\<lparr>rg_claims := [design_claim]\<rparr>"

lemma design_recorded:
  "complete_non_lifecycle ascii_runtime DesignKind (ascii ''alice'') (ascii ''key-2'') (replicate 64 49)
     sample_service seeded_registry = (Inr (), designed_registry)"
  using sample_service_valid
  by (simp add: complete_non_lifecycle_def run_simps claim_columns_ok_def claim_shape_ok.simps
      non_lifecycle_row_kind_def valid_digest_def is_hex_def is_digit_def active_phase_def
      ascii_def list_all_iff designed_registry_def design_claim_def)

lemma designed_reachable: "registry_reachable ascii_runtime designed_registry"
  using seeded_reachable design_recorded by (blast intro: registry_reachable.step registry_step.complete_nl)

lemma designed_row:
  "claim_lookup (ascii ''alice'') (ascii ''key-2'') designed_registry = Some design_claim"
  by (simp add: claim_lookup_def designed_registry_def design_claim_def)

lemma suspend_blocked:
  "resolve_or_prepare ascii_runtime (OperationalCommand suspend_command) 6 admitted_registry =
     (Inr (RegistryOperationInProgress (LifecycleActive sample_intent)), admitted_registry)"
proof -
  have found: "get_service ascii_runtime (ascii ''alice'') 7 admitted_registry =
      (Inr (Some sample_service), admitted_registry)"
    using sample_service_valid by (simp add: get_service_run service_row_def admitted_registry_def)
  have act: "active_claims (ascii ''alice'') 7 admitted_registry = [sample_claim]"
    by (simp add: active_claims_def admitted_registry_def sample_claim_def active_phase_def)
  have new: "claim_lookup (ascii ''alice'') (ascii ''key-2'') admitted_registry = None"
    by (simp add: claim_lookup_def admitted_registry_def sample_claim_def)
  have dec: "decode_lifecycle_intent ascii_runtime sample_claim admitted_registry =
      (Inr sample_intent, admitted_registry)"
    by (rule existing_prepared_row [OF sample_row sample_intent_spec]) simp
  have "cl_kind sample_claim = KMaterialise" by (simp add: sample_claim_def)
  then show ?thesis
    by (simp add: resolve_or_prepare_def suspend_prepared rbind_apply new prepare_on_service_def found
        authority_blocker_def act dec del: prepare_registry_intent.simps)
qed

lemma sample_given_up_late:
  "finalize_recovery_required ascii_runtime sample_intent 9 completed_registry =
     (Inr (CompletedLifecycleClaim (sample_intent\<lparr>li_phase := Completed\<rparr>) materialised_service),
      completed_registry)"
proof -
  have "claim_lookup (ascii ''alice'') (ascii ''key-1'') completed_registry =
      Some (sample_claim\<lparr>cl_phase := PhaseCompleted,
        cl_result := Some (ServiceDocument materialised_service)\<rparr>)"
    by (simp add: claim_lookup_def completed_registry_def sample_claim_def)
  then show ?thesis
    using terminal_row_completed [OF _ sample_row sample_intent_spec _ materialised_valid materialised_ok]
    by (simp add: terminal_settles is_terminal_claim_def)
qed

end
