(* ===== verification/Registry_Properties.thy ===== *)
theory Registry_Properties
  imports Registry_Sample
begin

text \<open>
  The properties of the registry over every history of its repository methods: consistency of the
  tables, permanence of claims and tombstones, one unfinished operation per service, idempotency
  of admission and finalization, and the exact effect of the writing methods.
\<close>

text \<open>C1. Every registry that the repository methods can produce from an empty database is
  consistent: service rows are valid and unique by id and by domain within a principal, the live
  identities are exactly those of the services, every claim row decodes to the evidence its
  columns announce, at most one unfinished claim exists per service, audit ids increase, and a
  principal has at most a thousand audit rows.\<close>

theorem registry_always_consistent:
  assumes "registry_reachable rt r"
  shows "services_inv rt (rg_services r) (rg_identities r) \<and> claims_inv rt (rg_claims r) \<and>
    audits_inv (rg_audits r)"
  using reachable_inv [OF assms] by (simp add: registry_inv_def)

theorem registry_always_consistent_witness:
  "claims_inv ascii_runtime (rg_claims completed_registry) \<and> audits_inv (rg_audits completed_registry)"
  using registry_always_consistent [OF completed_reachable] by simp

text \<open>C33. The recovery state of a service is always readable: it is clear exactly when the
  service has no unfinished claim, and there is never more than one.\<close>

theorem recovery_state_total:
  assumes "registry_reachable rt r"
  shows "\<exists>st. get_recovery_state p u r = (Inr st, r) \<and> length (active_claims p u r) \<le> 1 \<and>
    (st = Clear \<longleftrightarrow> active_claims p u r = [])"
proof -
  note inv = registry_invD(2) [OF reachable_inv [OF assms]]
  show ?thesis
    using get_recovery_state_run [OF inv, of p u] active_claims_le_1 [OF inv, of p u]
    by (cases "active_claims p u r") auto
qed

theorem recovery_state_total_witness:
  "\<exists>st. get_recovery_state (ascii ''alice'') 7 admitted_registry = (Inr st, admitted_registry) \<and> st \<noteq> Clear"
proof -
  have "active_claims (ascii ''alice'') 7 admitted_registry \<noteq> []"
    by (simp add: active_claims_def admitted_registry_def sample_claim_def active_phase_def)
  with recovery_state_total [OF admitted_reachable, of "ascii ''alice''" 7] show ?thesis by auto
qed

text \<open>C9. A claim is permanent. Over any further history its row keeps its principal and key, its
  fingerprint, kind and service, and its phase moves only from prepared to an end, or to a
  tombstone.\<close>

theorem claims_are_permanent:
  assumes "registry_reachable rt r" and "registry_steps rt r r'" and "c \<in> set (rg_claims r)"
  shows "\<exists>d \<in> set (rg_claims r').
    cl_principal_id d = cl_principal_id c \<and> cl_idempotency_key d = cl_idempotency_key c \<and>
    cl_fingerprint d = cl_fingerprint c \<and> cl_kind d = cl_kind c \<and>
    cl_service_id d = cl_service_id c \<and>
    (d = c \<or> cl_phase d = PhaseTombstoned \<or>
     cl_phase c = PhasePrepared \<and> cl_phase d \<in> {PhaseCompleted, PhaseRecoveryRequired})"
proof -
  have "registry_evolves r r'" using registry_steps_evolve [OF assms(2) reachable_inv [OF assms(1)]] by simp
  with assms(3) obtain d where "d \<in> set (rg_claims r')" "claim_evolves c d"
    by (auto simp: registry_evolves_def claims_evolve_def)
  then show ?thesis by (auto simp: claim_evolves_def claim_key_def)
qed

theorem claims_are_permanent_witness:
  "\<exists>d \<in> set (rg_claims completed_registry). cl_fingerprint d = cl_fingerprint sample_claim"
proof -
  have st: "registry_steps ascii_runtime admitted_registry completed_registry"
    using completed_step by (blast intro: registry_steps.intros)
  have "sample_claim \<in> set (rg_claims admitted_registry)" by (simp add: admitted_registry_def)
  from claims_are_permanent [OF admitted_reachable st this] show ?thesis by blast
qed

text \<open>C17. A purged identity is permanent: its tombstone survives every further history, and no
  service ever holds its id again.\<close>

theorem tombstones_are_permanent:
  assumes "registry_reachable rt r" and "registry_steps rt r r'"
    and "i \<in> set (rg_identities r)" and "iy_state i = IdentityTombstoned"
  shows "i \<in> set (rg_identities r') \<and> (\<forall>s \<in> set (rg_services r'). sv_service_id s \<noteq> iy_service_id i)"
proof -
  note ev = registry_steps_evolve [OF assms(2) reachable_inv [OF assms(1)]]
  then have i: "i \<in> set (rg_identities r')"
    using assms(3,4) by (auto simp: registry_evolves_def tombstones_def)
  have "iy_state i = IdentityLive" if "s \<in> set (rg_services r')" "sv_service_id s = iy_service_id i" for s
    using service_is_live(1) [OF registry_invD(1) [OF conjunct1 [OF ev]] that(1) i] that(2) by simp
  with i assms(4) show ?thesis by auto
qed

theorem tombstones_are_permanent_witness:
  "\<exists>r'. registry_reachable ascii_runtime r' \<and> 7 \<in> iy_service_id ` set (rg_identities r') \<and>
     7 \<notin> sv_service_id ` set (rg_services r')"
proof -
  obtain r' v j where run: "finalize_purge ascii_runtime purge_intent 8 purging_registry =
      (Inr (CompletedRegistryClaim j v), r')" and gone: "rg_services r' = []"
    using purge_finalized by blast
  then have reach: "registry_reachable ascii_runtime r'"
    using purging_reachable purge_issued by (blast intro: registry_reachable.step registry_step.purge)
  have "r' \<noteq> purging_registry" using gone by (auto simp: purging_registry_def)
  from finalize_purge_reports [OF reachable_inv [OF purging_reachable] purge_issued run refl this]
  obtain x where x: "x \<in> tombstones (rg_identities r')" "iy_service_id x = 7" by auto
  then have "x \<in> set (rg_identities r')" "iy_state x = IdentityTombstoned" by (simp_all add: tombstones_def)
  from tombstones_are_permanent [OF reach registry_steps.none this] x(2) reach show ?thesis
    by (intro exI [of _ r']) force
qed

text \<open>C34. An idempotency key is bound to its request: once a row holds the key, seed and design,
  materialise and evolve, and every operation of the shared authority answer a request with
  another fingerprint by a conflict, and write nothing.\<close>

theorem key_is_bound_to_its_request:
  assumes "registry_reachable rt r" and "claim_lookup p key r = Some c"
  shows "(cl_fingerprint c \<noteq> fp \<longrightarrow>
      resolve_non_lifecycle rt kind p key fp r = (Inr ConflictNonLifecycleClaim, r)) \<and>
    (cf_principal_id (command_fields lc) = p \<and> cf_idempotency_key (command_fields lc) = key \<and>
      cl_fingerprint c \<noteq> lifecycle_fingerprint rt lc \<longrightarrow>
      resolve_or_admit rt lc r = (Inr ConflictClaim, r)) \<and>
    (prepare_registry_intent rt ac = Inr i \<and> ai_principal i = p \<and> ai_key i = key \<and>
      cl_fingerprint c \<noteq> ai_fingerprint i \<longrightarrow>
      resolve_or_prepare rt ac now r = (Inr RegistryClaimConflict, r))"
  using assms non_lifecycle_conflict lifecycle_conflict authority_conflict [OF reachable_inv [OF assms(1)]]
  by auto

theorem key_is_bound_to_its_request_witness:
  "resolve_non_lifecycle ascii_runtime SeedKind (ascii ''alice'') (ascii ''key-2'') [] designed_registry =
     (Inr ConflictNonLifecycleClaim, designed_registry) \<and>
   resolve_or_admit ascii_runtime
     (MaterialiseCommand (sample_fields\<lparr>cf_idempotency_key := ascii ''key-2''\<rparr>)) designed_registry =
     (Inr ConflictClaim, designed_registry) \<and>
   resolve_or_prepare ascii_runtime (OperationalCommand suspend_command) 6 designed_registry =
     (Inr RegistryClaimConflict, designed_registry)"
proof -
  let ?lc = "MaterialiseCommand (sample_fields\<lparr>cf_idempotency_key := ascii ''key-2''\<rparr>)"
  have fp: "cl_fingerprint design_claim \<noteq> []"
    "cl_fingerprint design_claim \<noteq> lifecycle_fingerprint ascii_runtime ?lc"
    "cl_fingerprint design_claim \<noteq> ai_fingerprint (OperationalIntent suspend_intent)"
    by (simp_all add: design_claim_def lifecycle_fingerprint_def suspend_intent_def
        operational_fingerprint_def ascii_runtime_def)
  from key_is_bound_to_its_request [OF designed_reachable designed_row, of "[]" SeedKind ?lc
      "OperationalCommand suspend_command" "OperationalIntent suspend_intent" 6]
  show ?thesis using fp suspend_prepared by (simp add: sample_fields_def)
qed

text \<open>C21. Admission is complete: a valid command with a new key for an idle service that is in the
  state, at the revision and at the schema version it names, and whose target compiles or is an
  additive successor, is admitted; exactly its prepared row is added.\<close>

theorem admission_succeeds:
  assumes "registry_reachable rt r" and "runtime_ok rt" and "valid_command c"
    and "claim_lookup (cf_principal_id (command_fields c)) (cf_idempotency_key (command_fields c)) r = None"
    and "service_row (cf_principal_id (command_fields c)) (cf_service_id (command_fields c)) r = Some s"
    and "sv_service_revision s = cf_expected_service_revision (command_fields c)"
    and "sv_schema_version s = Some (cf_expected_schema_version (command_fields c))"
    and "sv_service_revision s < MAX_SERVICE_REVISION" and "supported_lifecycle_state s c"
    and "active_claims (cf_principal_id (command_fields c)) (cf_service_id (command_fields c)) r = []"
    and "admitted_target s c = Some (True, t)"
  shows "\<exists>i. resolve_or_admit rt c r =
      (Inr (PreparedLifecycleClaim i), r\<lparr>rg_claims := rg_claims r @ [lifecycle_row i]\<rparr>) \<and>
    command_of i = c \<and> li_target_manifest i = t \<and> li_phase i = Prepared"
proof -
  note inv = reachable_inv [OF assms(1)]
  have "service_ok s"
    using services_invD(1) [OF registry_invD(1) [OF inv]] service_row_Some [OF assms(5)]
    by (auto simp: validate_service_def)
  then have t: "manifest_spec t \<and>
      (case c of MaterialiseCommand f \<Rightarrow> ma_schema_version t = 1 | EvolveCommand f t' \<Rightarrow> t = t')"
    using assms(3,9,11) service_ok_manifest [of s t]
    by (cases c) (auto simp: admitted_target_def valid_command_def evolve_command_iff split: option.splits)
  then obtain i where i: "prepare_intent rt c t = Inr i" "li_phase i = Prepared"
    "li_target_manifest i = t" "command_of i = c"
    using prepare_intent_total [OF assms(2,3), of t] by auto
  from resolve_or_admit_fresh [OF inv assms(4-7) assms(8-11) i(1)] i show ?thesis by blast
qed

theorem admission_succeeds_witness:
  "\<exists>i. resolve_or_admit ascii_runtime (MaterialiseCommand sample_fields) seeded_registry =
      (Inr (PreparedLifecycleClaim i), seeded_registry\<lparr>rg_claims := [lifecycle_row i]\<rparr>)"
proof -
  have v: "valid_command (MaterialiseCommand sample_fields)"
    using sample_fields_ok by (simp add: valid_command_def materialise_command_iff)
      (simp add: sample_fields_def)
  have f: "cf_principal_id sample_fields = ascii ''alice''" "cf_service_id sample_fields = 7"
    "cf_expected_service_revision sample_fields = 2" "cf_expected_schema_version sample_fields = 1"
    by (simp_all add: sample_fields_def)
  have sup: "supported_lifecycle_state sample_service (MaterialiseCommand sample_fields)"
    and sv: "sv_schema_version sample_service = Some 1"
    by (simp_all add: sample_service_def)
  have tgt: "admitted_target sample_service (MaterialiseCommand sample_fields) = Some (True, notes_manifest)"
    using notes_compiles by (auto simp: admitted_target_def sample_service_def)
  show ?thesis
    using admission_succeeds [OF seeded_reachable ascii_runtime_ok v, of sample_service notes_manifest]
      sup tgt sv
    by (simp add: f claim_lookup_def service_row_def active_claims_def MAX_SERVICE_REVISION_def
        del: supported_lifecycle_state.simps) blast
qed

text \<open>C4. One operation at a time: while a service has an unfinished claim, no request under a new
  key is admitted for it, by either authority, and the refused request writes nothing.\<close>

theorem one_operation_at_a_time:
  assumes "active_claims p u r \<noteq> []"
  shows "(cf_principal_id (command_fields lc) = p \<and> cf_service_id (command_fields lc) = u \<and>
      claim_lookup p (cf_idempotency_key (command_fields lc)) r = None \<and>
      resolve_or_admit rt lc r = (Inr out, r') \<longrightarrow>
      r' = r \<and> (\<forall>i. out \<noteq> PreparedLifecycleClaim i)) \<and>
    (prepare_registry_intent rt ac = Inr i \<and> ai_principal i = p \<and> ai_service i = u \<and>
      resolve_or_prepare rt ac now r = (Inr aout, r') \<longrightarrow> r' = r)"
  using assms by (auto elim!: resolve_or_admit_cases resolve_or_prepare_cases)

theorem one_operation_at_a_time_witness:
  "snd (resolve_or_prepare ascii_runtime (OperationalCommand suspend_command) 6 admitted_registry) =
      admitted_registry \<and>
   fst (resolve_or_prepare ascii_runtime (OperationalCommand suspend_command) 6 admitted_registry) =
      Inr (RegistryOperationInProgress (LifecycleActive sample_intent))"
proof -
  let ?run = "resolve_or_prepare ascii_runtime (OperationalCommand suspend_command) 6 admitted_registry"
  let ?out = "RegistryOperationInProgress (LifecycleActive sample_intent)"
  have act: "active_claims (ascii ''alice'') 7 admitted_registry \<noteq> []"
    by (simp add: active_claims_def admitted_registry_def sample_claim_def active_phase_def)
  have out: "fst ?run = Inr ?out" by (simp add: suspend_blocked)
  then have run: "?run = (Inr ?out, snd ?run)" by (metis prod.collapse)
  show ?thesis
    using one_operation_at_a_time [OF act, of _ ascii_runtime _ "snd ?run"
      "OperationalCommand suspend_command" "OperationalIntent suspend_intent" 6 ?out]
      run out suspend_prepared by (simp only: ai_principal.simps ai_service.simps) simp
qed

text \<open>C35. Admission is idempotent: however often an admitted request is sent again, the answer is
  the same prepared claim and the tables do not change.\<close>

theorem admission_is_idempotent:
  assumes "registry_reachable rt r"
  shows "(resolve_or_admit rt lc r = (Inr (PreparedLifecycleClaim i), r') \<longrightarrow>
      retry (resolve_or_admit rt lc) n r = (Inr (PreparedLifecycleClaim i), r')) \<and>
    (resolve_or_prepare rt ac now r = (Inr (PreparedRegistryClaim j), r') \<longrightarrow>
      retry (resolve_or_prepare rt ac now) n r = (Inr (PreparedRegistryClaim j), r'))"
  using admission.retry_settled [OF reachable_inv [OF assms]]
    preparation.retry_settled [OF reachable_inv [OF assms]] by blast

theorem admission_is_idempotent_witness:
  "retry (resolve_or_admit ascii_runtime (MaterialiseCommand sample_fields)) 3 seeded_registry =
     (Inr (PreparedLifecycleClaim sample_intent), admitted_registry) \<and>
   retry (resolve_or_prepare ascii_runtime (OperationalCommand suspend_command) 6) 3 seeded_registry =
     (Inr (PreparedRegistryClaim (OperationalIntent suspend_intent)), suspending_registry)"
  using admission_is_idempotent [OF seeded_reachable, of "MaterialiseCommand sample_fields"]
    admission_is_idempotent [OF seeded_reachable, of _ _ _ _ "OperationalCommand suspend_command"]
    sample_admitted suspend_admitted by blast

text \<open>C36. Finalization is idempotent: a completion, or a request to give an operation up, that is
  repeated returns the terminal claim its first run committed and changes nothing.\<close>

theorem finalization_is_idempotent:
  assumes "registry_reachable rt r"
  shows "(finalize_completed rt co r = (Inr out, r') \<longrightarrow>
      retry (finalize_completed rt co) n r = (Inr out, r')) \<and>
    (finalize_recovery_required rt i t r = (Inr out, r') \<longrightarrow>
      retry (finalize_recovery_required rt i t) n r = (Inr out, r'))"
  using finalization.retry_settled [OF reachable_inv [OF assms]]
    poisoning.retry_settled [OF reachable_inv [OF assms]] by blast

theorem finalization_is_idempotent_witness:
  "retry (finalize_completed ascii_runtime sample_completion) 2 admitted_registry =
     (Inr (CompletedLifecycleClaim (sample_intent\<lparr>li_phase := Completed\<rparr>) materialised_service),
      completed_registry) \<and>
   retry (finalize_recovery_required ascii_runtime sample_intent 9) 2 completed_registry =
     (Inr (CompletedLifecycleClaim (sample_intent\<lparr>li_phase := Completed\<rparr>) materialised_service),
      completed_registry)"
  using finalization_is_idempotent [OF admitted_reachable, of sample_completion]
    finalization_is_idempotent [OF completed_reachable, of _ _ _ _ sample_intent 9]
    sample_finalized sample_given_up_late by blast

text \<open>C5. A completed operation is replayed to its original caller: sending the request that was
  finalized again, with the same key, returns the completed intent and the recorded service.\<close>

theorem completion_is_replayed:
  assumes "registry_reachable rt r" and "intent_spec rt (co_intent co)"
    and "finalize_completed rt co r = (Inr (CompletedLifecycleClaim j s), r')" and "r' \<noteq> r"
  shows "resolve_or_admit rt (command_of (co_intent co)) r' =
    (Inr (CompletedLifecycleClaim ((co_intent co)\<lparr>li_phase := Completed\<rparr>) s), r')"
  using completed_is_replayed [OF reachable_inv [OF assms(1)] assms(3,4)] assms(2) by simp

theorem completion_is_replayed_witness:
  "resolve_or_admit ascii_runtime (MaterialiseCommand sample_fields) completed_registry =
    (Inr (CompletedLifecycleClaim (sample_intent\<lparr>li_phase := Completed\<rparr>) materialised_service),
     completed_registry)"
proof -
  have co: "co_intent sample_completion = sample_intent" by (simp add: sample_completion_def)
  show ?thesis
    using completed_differs completion_is_replayed [OF admitted_reachable _ sample_finalized] sample_intent_spec
    by (simp add: co command_of_def) (simp add: sample_intent_def)
qed

text \<open>C10. What a finalization may do. If it changes the tables at all, it either completes, and then
  the service was in the admitted state, exactly its row (and live identity) is replaced by the
  terminal one, its claim row is completed and one audit row is added; or it gives the operation
  up for recovery and leaves the services alone.\<close>

theorem finalization_effect:
  assumes "registry_reachable rt r" and "finalize_completed rt co r = (Inr out, r')" and "r' \<noteq> r"
  shows "(\<exists>s. service_row (cf_principal_id (li_fields (co_intent co)))
        (cf_service_id (li_fields (co_intent co))) r = Some s \<and> finalization_preconditions s co \<and>
      out = CompletedLifecycleClaim ((co_intent co)\<lparr>li_phase := Completed\<rparr>) (terminal_service s co) \<and>
      r' = finalized_registry co s r) \<or>
    (out = RecoveryRequiredLifecycleClaim ((co_intent co)\<lparr>li_phase := RecoveryRequiredPhase\<rparr>) \<and>
      rg_services r' = rg_services r \<and> rg_identities r' = rg_identities r)"
  by (rule finalize_completed_reports [OF reachable_inv [OF assms(1)] assms(2,3)])

theorem finalization_effect_witness:
  "\<exists>s. finalization_preconditions s sample_completion \<and>
     completed_registry = finalized_registry sample_completion s admitted_registry"
proof -
  from finalization_effect [OF admitted_reachable sample_finalized completed_differs] show ?thesis by blast
qed

text \<open>C22. Finalization is complete: a prepared operation whose service still satisfies the
  preconditions is completed, never given up.\<close>

theorem finalization_succeeds:
  assumes "registry_reachable rt r" and "intent_spec rt (co_intent co)" and "completion_ok co"
    and "cf_expected_service_revision (li_fields (co_intent co)) < MAX_SERVICE_REVISION"
    and "claim_lookup (cf_principal_id (li_fields (co_intent co)))
        (cf_idempotency_key (li_fields (co_intent co))) r = Some c" and "lifecycle_row_for (co_intent co) c"
    and "service_row (cf_principal_id (li_fields (co_intent co)))
        (cf_service_id (li_fields (co_intent co))) r = Some s" and "finalization_preconditions s co"
  shows "finalize_completed rt co r =
    (Inr (CompletedLifecycleClaim ((co_intent co)\<lparr>li_phase := Completed\<rparr>) (terminal_service s co)),
     finalized_registry co s r)"
  by (rule finalize_completed_succeeds [OF reachable_inv [OF assms(1)] assms(2-8)])

theorem finalization_succeeds_witness:
  "finalize_completed ascii_runtime sample_completion admitted_registry =
    (Inr (CompletedLifecycleClaim (sample_intent\<lparr>li_phase := Completed\<rparr>) materialised_service),
     finalized_registry sample_completion sample_service admitted_registry)"
proof -
  have co: "co_intent sample_completion = sample_intent" by (simp add: sample_completion_def)
  have "claim_lookup (ascii ''alice'') (ascii ''key-1'') admitted_registry = Some sample_claim"
    by (simp add: claim_lookup_def admitted_registry_def sample_claim_def)
  moreover have "service_row (ascii ''alice'') 7 admitted_registry = Some sample_service"
    by (simp add: service_row_def admitted_registry_def)
  moreover have "finalization_preconditions sample_service sample_completion"
    by (simp add: Let_def co) (simp add: sample_completion_def sample_service_def)
  moreover have "completion_ok sample_completion"
    by (simp add: sample_completion_def sample_storage_def storage_ok_def)
  ultimately show ?thesis
    using finalization_succeeds [OF admitted_reachable, of sample_completion sample_claim sample_service]
      sample_intent_spec sample_row sample_terminal
    by (simp add: co MAX_SERVICE_REVISION_def del: finalization_preconditions.simps)
qed

text \<open>C13. What the finalization of a suspension, resumption, archival or restoration may do. Either
  the service moves to the status of its intent, with its revision increased by one, and nothing
  else about the services changes; or the claim is left for recovery and no service moves.\<close>

theorem operational_effect:
  assumes "registry_reachable rt r" and "issued r (OperationalIntent i)"
    and "finalize_operational rt i t r = (Inr out, r')" and "r' \<noteq> r"
  shows "(\<exists>s. service_row (oc_principal_id (oi_command i)) (oc_service_id (oi_command i)) r = Some s \<and>
      out = CompletedRegistryClaim (OperationalIntent (i\<lparr>oi_phase := Completed\<rparr>))
        (ServiceResult (moved_service i t s)) \<and>
      rg_services r' = update_where (\<lambda>x. sv_service_id x = sv_service_id s)
        (\<lambda>_. moved_service i t s) (rg_services r)) \<or>
    (out = RecoveryRequiredRegistryClaim
        (AuthorityActive (OperationalIntent (i\<lparr>oi_phase := RecoveryRequiredPhase\<rparr>))) \<and>
      rg_services r' = rg_services r)"
  using finalize_operational_reports [OF reachable_inv [OF assms(1)] assms(2-4)]
  by (auto simp: moved_registry_def Let_def swap_service_def moved_service_def)

theorem operational_effect_witness:
  "\<exists>r'. finalize_operational ascii_runtime suspend_intent 8 suspending_registry =
     (Inr (CompletedRegistryClaim (OperationalIntent (suspend_intent\<lparr>oi_phase := Completed\<rparr>))
        (ServiceResult (moved_service suspend_intent 8 sample_service))), r') \<and>
     rg_services r' = [moved_service suspend_intent 8 sample_service]"
proof -
  let ?r' = "moved_registry suspend_intent 8 sample_service suspending_registry"
  have "?r' \<noteq> suspending_registry"
  proof
    assume "?r' = suspending_registry"
    then have "rg_services ?r' = [sample_service]" by (simp add: suspending_registry_def)
    moreover have "rg_services ?r' = [moved_service suspend_intent 8 sample_service]"
      by (simp add: moved_registry_def Let_def swap_service_def suspending_registry_def update_where_def
          moved_service_def)
    ultimately have "moved_service suspend_intent 8 sample_service = sample_service" by simp
    then have "sv_updated_at (moved_service suspend_intent 8 sample_service) = 5" by simp
    then show False by (simp add: moved_service_def)
  qed
  from operational_effect [OF suspending_reachable suspend_issued suspend_finalized this]
  show ?thesis using suspend_finalized suspending_service
    by (auto simp: suspending_registry_def update_where_def)
qed

text \<open>C14. A purge erases only what it was authorised to erase: it completes only for an archived
  service at the admitted revision, with an explicit override or a verified export receipt of
  that revision, and then the service row is gone (and no other), its receipts are gone, every
  other claim of the service is a tombstone without evidence, and the identity is a tombstone.\<close>

theorem purge_effect:
  assumes "registry_reachable rt r" and "issued r (PortableIntent i)"
    and "finalize_purge rt i t r = (Inr (CompletedRegistryClaim j v), r')" and "r' \<noteq> r"
  shows "\<exists>s a. service_row (po_principal_id i) (po_service_id i) r = Some s \<and>
    sv_operational_status s = Archived \<and> Some (sv_service_revision s) = po_expected_service_revision i \<and>
    po_purge_authority i = Some a \<and> purge_receipt_valid i r \<and>
    v = TombstoneResult (purge_tombstone_of i s a t) \<and>
    rg_services r' = delete_where (purged_service i) (rg_services r) \<and>
    service_row (po_principal_id i) (po_service_id i) r' = None \<and>
    (\<exists>x \<in> tombstones (rg_identities r'). iy_service_id x = po_service_id i) \<and>
    (\<forall>c \<in> set (rg_claims r'). cl_principal_id c = po_principal_id i \<and>
       cl_service_id c = po_service_id i \<and> cl_idempotency_key c \<noteq> po_idempotency_key i \<longrightarrow>
       cl_phase c = PhaseTombstoned \<and> cl_intent c = None \<and> cl_result c = None) \<and>
    (\<forall>x \<in> set (rg_receipts r'). \<not> purged_receipt i x)"
  by (rule finalize_purge_reports [OF reachable_inv [OF assms(1)] assms(2,3) refl assms(4)])

theorem purge_effect_witness:
  "\<exists>r'. service_row (ascii ''alice'') 7 r' = None \<and>
     (\<exists>x \<in> tombstones (rg_identities r'). iy_service_id x = 7)"
proof -
  obtain r' v j where run: "finalize_purge ascii_runtime purge_intent 8 purging_registry =
      (Inr (CompletedRegistryClaim j v), r')" and gone: "rg_services r' = []"
    using purge_finalized by blast
  have "r' \<noteq> purging_registry" using gone by (auto simp: purging_registry_def)
  from purge_effect [OF purging_reachable purge_issued run this] show ?thesis by auto
qed

text \<open>C37. The save of a service is a compare and swap. For a valid service of the next revision
  it is either stale, when the row is missing or at another revision, and changes nothing; or it
  replaces exactly the row of the expected revision and its live identity. It fails only when
  another service of the principal holds the domain.\<close>

theorem save_is_compare_and_swap:
  assumes "registry_reachable rt r"
  shows "save_service rt s e r = (Inr out, r') \<longleftrightarrow>
    1 \<le> e \<and> e < MAX_SERVICE_REVISION \<and> sv_service_revision s = e + 1 \<and> validate_service rt s \<and>
    (if \<exists>old. service_row (sv_principal_id s) (sv_service_id s) r = Some old \<and>
          sv_service_revision old = e
     then out = Saved \<and> r' = swap_service s r \<and>
       (\<forall>x \<in> set (rg_services r). sv_principal_id x = sv_principal_id s \<and>
           sv_domain_name x = sv_domain_name s \<longrightarrow> sv_service_id x = sv_service_id s) \<and>
       (\<forall>i \<in> set (rg_identities r). live_domain (sv_principal_id s) (sv_domain_name s) i \<longrightarrow>
           iy_service_id i = sv_service_id s)
     else out = StaleSave \<and> r' = r)"
  by (rule save_service_run [OF registry_invD(1) [OF reachable_inv [OF assms]]])

theorem save_is_compare_and_swap_witness:
  "save_service ascii_runtime materialised_service 2 seeded_registry =
     (Inr Saved, swap_service materialised_service seeded_registry) \<and>
   save_service ascii_runtime materialised_service 2 completed_registry = (Inr StaleSave, completed_registry)"
proof
  have m: "sv_service_revision materialised_service = 3" "sv_principal_id materialised_service = ascii ''alice''"
    "sv_service_id materialised_service = 7"
    "sv_domain_name materialised_service = sv_domain_name sample_service"
    by (simp_all add: materialised_service_def)
  show "save_service ascii_runtime materialised_service 2 seeded_registry =
     (Inr Saved, swap_service materialised_service seeded_registry)"
    unfolding save_is_compare_and_swap [OF seeded_reachable]
    using materialised_valid by (simp add: MAX_SERVICE_REVISION_def service_row_def m)
  show "save_service ascii_runtime materialised_service 2 completed_registry =
     (Inr StaleSave, completed_registry)"
    unfolding save_is_compare_and_swap [OF completed_reachable]
    using materialised_valid
    by (simp add: MAX_SERVICE_REVISION_def service_row_def m completed_registry_def)
qed

text \<open>C38. Listing never fails: it returns the first services of the principal, all valid, in the
  order of creation time and id, at most as many as asked for, and every service of the principal
  it leaves out comes after every one it returns.\<close>

theorem list_services_contract:
  assumes "registry_reachable rt r"
  shows "\<exists>xs. list_services rt p limit r = (Inr xs, r) \<and> length xs \<le> limit \<and>
    sorted (map (\<lambda>s. (sv_created_at s, uuid_str (sv_service_id s))) xs) \<and> distinct xs \<and>
    (\<forall>s \<in> set xs. s \<in> set (rg_services r) \<and> sv_principal_id s = p \<and> validate_service rt s) \<and>
    (\<forall>s \<in> set (rg_services r). sv_principal_id s = p \<and> s \<notin> set xs \<longrightarrow> length xs = limit \<and>
       (\<forall>x \<in> set xs. (sv_created_at x, uuid_str (sv_service_id x)) \<le>
          (sv_created_at s, uuid_str (sv_service_id s))))"
  by (rule list_services_run [OF registry_invD(1) [OF reachable_inv [OF assms]]])

theorem list_services_contract_witness:
  "\<exists>xs. list_services ascii_runtime (ascii ''alice'') 20 seeded_registry = (Inr xs, seeded_registry) \<and>
     set xs = {sample_service}"
proof -
  obtain xs where xs: "list_services ascii_runtime (ascii ''alice'') 20 seeded_registry =
      (Inr xs, seeded_registry)" "distinct xs" "\<forall>s \<in> set xs. s = sample_service"
    "sample_service \<notin> set xs \<longrightarrow> length xs = 20"
    using list_services_contract [OF seeded_reachable, of "ascii ''alice''" 20] by auto
  then have "sample_service \<in> set xs" by (cases xs) auto
  with xs show ?thesis by blast
qed

end
