(* ===== verification/Services.thy ===== *)
theory Services
  imports Ledger_Effects
begin

text \<open>
  \<open>application/services.py\<close>: seed, design, list and inspect over one unit of work each. A unit of
  work is the state of a connection: the tables the database has committed, the tables the
  connection sees and changes, and whether it is finished. The repository methods run on what the
  connection sees; \<open>commit\<close> is a step of the body like any other, at the place where the code has
  it, and what it commits stays committed whatever fails later. What the environment decides is an
  argument: whether the factory, the clock, the id provider, the commit, the rollback and the
  close succeed. A commit can raise after the database committed (the identity check that follows
  it), so its failure says whether it was durable.
\<close>

section \<open>Errors and the environment\<close>

datatype application_error = NotFound | Conflict | InvalidState | InvalidCommand | InternalFailure

datatype commit_outcome = CommitReturns | CommitRaises bool

record session =
  se_opens :: bool
  se_now :: "time option"
  se_new_id :: "uuid option"
  se_commit :: commit_outcome
  se_rolls_back :: bool
  se_closes :: bool

record application_context =
  ax_principal_id :: pystr
  ax_created_via :: pystr

record seed_command =
  sc_domain_name :: pystr
  sc_domain_class :: pystr
  sc_intent_description :: pystr
  sc_idempotency_key :: pystr

record design_command =
  dc_service_id :: uuid
  dc_manifest :: manifest
  dc_idempotency_key :: pystr

section \<open>The unit of work\<close>

record unit_of_work =
  uw_committed :: registry
  uw_working :: registry
  uw_terminal :: bool

definition opened :: "registry \<Rightarrow> unit_of_work" where
  "opened r = \<lparr>uw_committed = r, uw_working = r, uw_terminal = False\<rparr>"

type_synonym 'a app = "unit_of_work \<Rightarrow> (application_error + 'a) \<times> unit_of_work"

definition aret :: "'a \<Rightarrow> 'a app" where "aret x = (\<lambda>w. (Inr x, w))"

definition araise :: "application_error \<Rightarrow> 'a app" where "araise e = (\<lambda>w. (Inl e, w))"

definition abind :: "'a app \<Rightarrow> ('a \<Rightarrow> 'b app) \<Rightarrow> 'b app" where
  "abind m f = (\<lambda>w. case m w of (Inl e, w') \<Rightarrow> (Inl e, w') | (Inr x, w') \<Rightarrow> f x w')"

definition aguard :: "bool \<Rightarrow> application_error \<Rightarrow> unit app" where
  "aguard ok e = (if ok then aret () else araise e)"

definition provided :: "'a option \<Rightarrow> 'a app" where
  "provided v = (case v of None \<Rightarrow> araise InternalFailure | Some x \<Rightarrow> aret x)"

text \<open>A repository method: a finished unit of work refuses it (\<open>_open\<close>), and a storage error is not
  one of the application's, so the caller sees \<open>InternalFailure\<close> (\<open>_safe_application_error\<close>).\<close>

definition alift :: "'a reg \<Rightarrow> 'a app" where
  "alift m = (\<lambda>w.
     if uw_terminal w then (Inl InternalFailure, w)
     else case m (uw_working w) of
       (Inl _, r) \<Rightarrow> (Inl InternalFailure, w\<lparr>uw_working := r\<rparr>)
     | (Inr x, r) \<Rightarrow> (Inr x, w\<lparr>uw_working := r\<rparr>))"

definition uow_commit :: "session \<Rightarrow> unit app" where
  "uow_commit se = (\<lambda>w.
     if uw_terminal w then (Inl InternalFailure, w)
     else case se_commit se of
       CommitReturns \<Rightarrow> (Inr (), w\<lparr>uw_committed := uw_working w, uw_terminal := True\<rparr>)
     | CommitRaises durable \<Rightarrow>
         (Inl InternalFailure, if durable then w\<lparr>uw_committed := uw_working w\<rparr> else w))"

text \<open>\<open>rollback\<close> does nothing on a finished unit of work; one that raises is suppressed and leaves
  the connection to \<open>close\<close>, which rolls back what is still open. Neither touches what is
  committed.\<close>

definition uow_rollback :: "session \<Rightarrow> unit_of_work \<Rightarrow> unit_of_work" where
  "uow_rollback se w =
     (if uw_terminal w \<or> \<not> se_rolls_back se then w
      else w\<lparr>uw_working := uw_committed w, uw_terminal := True\<rparr>)"

definition uow_close :: "unit_of_work \<Rightarrow> unit_of_work" where
  "uow_close w = w\<lparr>uw_working := uw_committed w, uw_terminal := True\<rparr>"

text \<open>How a use case lets go of its unit of work: after a body that returned, after a reader that
  raised, and after a writer that raised. A close that raises still ends the connection.\<close>

definition close_failure :: "session \<Rightarrow> unit_of_work \<Rightarrow> application_error option \<times> unit_of_work" where
  "close_failure se w = (if se_closes se then None else Some InternalFailure, uow_close w)"

definition failure_after_close ::
  "unit_of_work \<Rightarrow> application_error \<Rightarrow> application_error \<times> unit_of_work" where
  "failure_after_close w e = (e, uow_close w)"

definition failure_after_rollback ::
  "session \<Rightarrow> unit_of_work \<Rightarrow> application_error \<Rightarrow> application_error \<times> unit_of_work" where
  "failure_after_rollback se w e = (e, uow_close (uow_rollback se w))"

text \<open>The frame of a use case: \<open>_new_uow\<close>, the body, and one of these ends. What the next unit of
  work finds is what this one has committed.\<close>

definition ended :: "'a \<Rightarrow> application_error option \<times> unit_of_work \<Rightarrow> (application_error + 'a) \<times> registry" where
  "ended x end = ((case fst end of None \<Rightarrow> Inr x | Some e \<Rightarrow> Inl e), uw_committed (snd end))"

definition raised :: "application_error \<times> unit_of_work \<Rightarrow> (application_error + 'a) \<times> registry" where
  "raised end = (Inl (fst end), uw_committed (snd end))"

definition transact :: "session \<Rightarrow> 'a app \<Rightarrow> registry \<Rightarrow> (application_error + 'a) \<times> registry" where
  "transact se body r =
     (if \<not> se_opens se then (Inl InternalFailure, r)
      else case body (opened r) of
        (Inl e, w) \<Rightarrow> raised (failure_after_rollback se w e)
      | (Inr x, w) \<Rightarrow> ended x (close_failure se w))"

text \<open>The two readers end with \<open>_failure_after_close\<close>: no rollback, only the close.\<close>

definition observe_only :: "session \<Rightarrow> 'a app \<Rightarrow> registry \<Rightarrow> (application_error + 'a) \<times> registry" where
  "observe_only se body r =
     (if \<not> se_opens se then (Inl InternalFailure, r)
      else case body (opened r) of
        (Inl e, w) \<Rightarrow> raised (failure_after_close w e)
      | (Inr x, w) \<Rightarrow> ended x (close_failure se w))"

lemma app_simps [simp]:
  "aret x w = (Inr x, w)" "araise e w = (Inl e, w)" "abind (aret x) f = f x"
  "abind (araise e) f = araise e" "aguard True e = aret ()" "aguard False e = araise e"
  "provided (Some x) = aret x" "provided None = araise InternalFailure"
  by (simp_all add: aret_def araise_def abind_def aguard_def provided_def fun_eq_iff)

named_theorems app_runs

lemma abind_Inr_iff [app_runs]:
  "abind m f w = (Inr y, w') \<longleftrightarrow> (\<exists>x v. m w = (Inr x, v) \<and> f x v = (Inr y, w'))"
  by (auto simp: abind_def split: prod.splits sum.splits)

lemma abind_apply: "abind m f w = (case m w of (Inl e, w') \<Rightarrow> (Inl e, w') | (Inr x, w') \<Rightarrow> f x w')"
  by (simp add: abind_def)

lemma aret_Inr_iff [app_runs]: "aret x w = (Inr y, w') \<longleftrightarrow> y = x \<and> w' = w"
  by auto

lemma araise_Inr_iff [app_runs]: "araise e w = (Inr y, w') \<longleftrightarrow> False"
  by auto

lemma alift_Inr_iff [app_runs]:
  "alift m w = (Inr y, w') \<longleftrightarrow>
     \<not> uw_terminal w \<and> (\<exists>r. m (uw_working w) = (Inr y, r) \<and> w' = w\<lparr>uw_working := r\<rparr>)"
  by (auto simp: alift_def split: prod.splits sum.splits)

lemma aguard_Inr_iff [app_runs]: "aguard b e w = (Inr y, w') \<longleftrightarrow> b \<and> w' = w"
  by (auto simp: aguard_def)

lemma provided_Inr_iff [app_runs]: "provided v w = (Inr y, w') \<longleftrightarrow> v = Some y \<and> w' = w"
  by (cases v) auto

lemma uow_commit_Inr_iff [app_runs]:
  "uow_commit se w = (Inr y, w') \<longleftrightarrow> \<not> uw_terminal w \<and> se_commit se = CommitReturns \<and>
     w' = w\<lparr>uw_committed := uw_working w, uw_terminal := True\<rparr>"
  by (auto simp: uow_commit_def split: commit_outcome.splits)

lemma opened_simps [simp]:
  "uw_committed (opened r) = r" "uw_working (opened r) = r" "\<not> uw_terminal (opened r)"
  by (simp_all add: opened_def)

lemma closed_simps [simp]:
  "uw_committed (uow_close w) = uw_committed w" "uw_committed (uow_rollback se w) = uw_committed w"
  by (simp_all add: uow_close_def uow_rollback_def)

lemma end_simps [simp]:
  "raised (failure_after_rollback se w e) = (Inl e, uw_committed w)"
  "raised (failure_after_close w e) = (Inl e, uw_committed w)"
  "ended x (close_failure se w) = (if se_closes se then Inr x else Inl InternalFailure, uw_committed w)"
  by (simp_all add: raised_def ended_def failure_after_rollback_def failure_after_close_def
      close_failure_def)

section \<open>Validation and fingerprints\<close>

definition context_ok :: "application_context \<Rightarrow> bool" where
  "context_ok ax \<longleftrightarrow> valid_text (ax_principal_id ax) 128 \<and> valid_text (ax_created_via ax) 64"

definition seed_ok :: "seed_command \<Rightarrow> bool" where
  "seed_ok c \<longleftrightarrow>
     is_identifier (sc_domain_name c) \<and> valid_text (sc_domain_class c) 64 \<and>
     valid_text (sc_intent_description c) 1000 \<and> valid_text (sc_idempotency_key c) 128"

definition design_ok :: "design_command \<Rightarrow> bool" where
  "design_ok c \<longleftrightarrow>
     dc_service_id c \<noteq> 0 \<and> valid_text (dc_idempotency_key c) 128 \<and>
     ma_schema_version (dc_manifest c) = 1 \<and> ma_migration_history (dc_manifest c) = []"

definition seed_payload :: "application_context \<Rightarrow> seed_command \<Rightarrow> pyval" where
  "seed_payload ax c = PObj
     [(ascii ''kind'', dump_text ''seed''), (ascii ''principal'', PStr (ax_principal_id ax)),
      (ascii ''created_via'', PStr (ax_created_via ax)),
      (ascii ''domain_name'', PStr (sc_domain_name c)),
      (ascii ''domain_class'', PStr (sc_domain_class c)),
      (ascii ''intent'', PStr (sc_intent_description c))]"

definition design_payload :: "application_context \<Rightarrow> design_command \<Rightarrow> pyval" where
  "design_payload ax c = PObj
     [(ascii ''kind'', dump_text ''design''), (ascii ''principal'', PStr (ax_principal_id ax)),
      (ascii ''created_via'', PStr (ax_created_via ax)),
      (ascii ''service_id'', PStr (uuid_str (dc_service_id c))),
      (ascii ''manifest'', dump_manifest (dc_manifest c))]"

definition seed_fingerprint :: "runtime \<Rightarrow> application_context \<Rightarrow> seed_command \<Rightarrow> pystr" where
  "seed_fingerprint rt ax c = sha256_json rt (seed_payload ax c)"

definition design_fingerprint :: "runtime \<Rightarrow> application_context \<Rightarrow> design_command \<Rightarrow> pystr" where
  "design_fingerprint rt ax c = sha256_json rt (design_payload ax c)"

section \<open>Shared steps\<close>

text \<open>\<open>_resolve_non_lifecycle_claim\<close>.\<close>

definition replayed_service ::
  "non_lifecycle_kind \<Rightarrow> pystr \<Rightarrow> non_lifecycle_outcome \<Rightarrow> service option app" where
  "replayed_service kind p outcome =
     (case outcome of
        NewNonLifecycleClaim \<Rightarrow> aret None
      | CompletedNonLifecycleClaim k s \<Rightarrow>
          if k \<notin> {LegacyCompletion, NonLifecycleCompletion kind} \<or> sv_principal_id s \<noteq> p
          then araise InternalFailure else aret (Some s)
      | ConflictNonLifecycleClaim \<Rightarrow> araise Conflict)"

definition projected :: "pystr \<Rightarrow> service \<Rightarrow> service_metadata app" where
  "projected p s = abind (alift (get_recovery_state p (sv_service_id s))) (\<lambda>st. aret (project s st))"

definition replay_or ::
  "runtime \<Rightarrow> non_lifecycle_kind \<Rightarrow> pystr \<Rightarrow> pystr \<Rightarrow> pystr \<Rightarrow>
   service_metadata app \<Rightarrow> service_metadata app" where
  "replay_or rt kind p key fp fresh =
     abind (alift (resolve_non_lifecycle rt kind p key fp)) (\<lambda>outcome.
     abind (replayed_service kind p outcome) (\<lambda>replay.
       case replay of
         Some s \<Rightarrow> projected p s
       | None \<Rightarrow> fresh))"

text \<open>The audit row, the ledger row, the projection and the commit that end a seed or a design.\<close>

definition record_outcome ::
  "runtime \<Rightarrow> session \<Rightarrow> non_lifecycle_kind \<Rightarrow> audit_outcome \<Rightarrow> application_context \<Rightarrow> pystr \<Rightarrow> pystr \<Rightarrow>
   time \<Rightarrow> service \<Rightarrow> service_metadata app" where
  "record_outcome rt se kind outcome ax key fp now s =
     abind (alift (append_audit (non_lifecycle_claim_kind kind) outcome (sv_service_id s)
         (ax_principal_id ax) (ax_created_via ax) now)) (\<lambda>_.
     abind (alift (complete_non_lifecycle rt kind (ax_principal_id ax) key fp s)) (\<lambda>_.
     abind (projected (ax_principal_id ax) s) (\<lambda>m.
     abind (uow_commit se) (\<lambda>_. aret m))))"

section \<open>Seed\<close>

definition new_service :: "application_context \<Rightarrow> seed_command \<Rightarrow> time \<Rightarrow> uuid \<Rightarrow> service" where
  "new_service ax c now u =
     \<lparr>sv_service_id = u, sv_principal_id = ax_principal_id ax, sv_domain_name = sc_domain_name c,
      sv_domain_class = sc_domain_class c, sv_intent_description = sc_intent_description c,
      sv_created_at = now, sv_updated_at = now, sv_last_activity_at = now, sv_manifest = None,
      sv_schema_version = None, sv_design_state = Seeded, sv_operational_status = Active,
      sv_service_revision = 1, sv_materialised_at = None, sv_storage = None\<rparr>"

definition seed_body ::
  "runtime \<Rightarrow> session \<Rightarrow> application_context \<Rightarrow> seed_command \<Rightarrow> service_metadata app" where
  "seed_body rt se ax c =
     (let p = ax_principal_id ax; key = sc_idempotency_key c; fp = seed_fingerprint rt ax c in
      replay_or rt SeedKind p key fp
        (abind (alift (find_domain rt p (sc_domain_name c))) (\<lambda>existing.
           case existing of
             Some s \<Rightarrow>
               abind (provided (se_now se)) (\<lambda>now.
                 record_outcome rt se SeedKind Duplicate ax key fp now s)
           | None \<Rightarrow>
               abind (provided (se_now se)) (\<lambda>now.
               abind (provided (se_new_id se)) (\<lambda>u.
               abind (aguard (u \<noteq> 0) InternalFailure) (\<lambda>_.
               abind (aguard (service_ok (new_service ax c now u)) InternalFailure) (\<lambda>_.
               abind (alift (add_service rt (new_service ax c now u))) (\<lambda>_.
                 record_outcome rt se SeedKind Created ax key fp now (new_service ax c now u)))))))))"

type_synonym 'a use_case = "registry \<Rightarrow> (application_error + 'a) \<times> registry"

definition refused :: "application_error \<Rightarrow> 'a use_case" where "refused e r = (Inl e, r)"

definition seed ::
  "runtime \<Rightarrow> session \<Rightarrow> application_context \<Rightarrow> seed_command \<Rightarrow> service_metadata use_case" where
  "seed rt se ax c =
     (if \<not> context_ok ax \<or> \<not> seed_ok c then refused InvalidCommand
      else transact se (seed_body rt se ax c))"

section \<open>Design\<close>

definition designed :: "service \<Rightarrow> manifest \<Rightarrow> time \<Rightarrow> service" where
  "designed s m now = s\<lparr>sv_manifest := Some m, sv_schema_version := Some 1, sv_updated_at := now,
     sv_last_activity_at := now, sv_service_revision := sv_service_revision s + 1\<rparr>"

text \<open>\<open>_reread_after_stale_design\<close>: a stale save is never retried.\<close>

definition after_stale_design :: "runtime \<Rightarrow> pystr \<Rightarrow> uuid \<Rightarrow> 'a app" where
  "after_stale_design rt p u =
     abind (alift (get_service rt p u)) (\<lambda>current.
       case current of None \<Rightarrow> araise NotFound | Some _ \<Rightarrow> araise InvalidState)"

definition design_body ::
  "runtime \<Rightarrow> session \<Rightarrow> application_context \<Rightarrow> design_command \<Rightarrow> service_metadata app" where
  "design_body rt se ax c =
     (let p = ax_principal_id ax; u = dc_service_id c; key = dc_idempotency_key c;
          fp = design_fingerprint rt ax c in
      replay_or rt DesignKind p key fp
        (abind (alift (get_service rt p u)) (\<lambda>found.
           case found of
             None \<Rightarrow> araise NotFound
           | Some s \<Rightarrow>
               abind (aguard (sv_operational_status s = Active \<and> sv_design_state s = Seeded \<and>
                   sv_manifest s = None) InvalidState) (\<lambda>_.
               abind (aguard (sv_service_revision s < MAX_SERVICE_REVISION) InternalFailure) (\<lambda>_.
               abind (provided (se_now se)) (\<lambda>now.
               abind (aguard (sv_updated_at s \<le> now) InternalFailure) (\<lambda>_.
               abind (aguard (service_ok (designed s (dc_manifest c) now)) InternalFailure) (\<lambda>_.
               abind (alift (save_service rt (designed s (dc_manifest c) now)
                   (sv_service_revision s))) (\<lambda>saved.
                 case saved of
                   StaleSave \<Rightarrow> after_stale_design rt p u
                 | Saved \<Rightarrow> record_outcome rt se DesignKind Accepted ax key fp now
                     (designed s (dc_manifest c) now))))))))))"

definition design ::
  "runtime \<Rightarrow> session \<Rightarrow> application_context \<Rightarrow> design_command \<Rightarrow> service_metadata use_case" where
  "design rt se ax c =
     (if \<not> context_ok ax \<or> \<not> design_ok c then refused InvalidCommand
      else case manifest_snapshot (dc_manifest c) of
        Inl _ \<Rightarrow> refused InvalidCommand
      | Inr m \<Rightarrow> transact se (design_body rt se ax (c\<lparr>dc_manifest := m\<rparr>)))"

section \<open>List and inspect\<close>

fun project_all :: "pystr \<Rightarrow> service list \<Rightarrow> service_metadata list app" where
  "project_all p [] = aret []"
| "project_all p (s # ss) =
     abind (projected p s) (\<lambda>m. abind (project_all p ss) (\<lambda>ms. aret (m # ms)))"

definition list_body :: "runtime \<Rightarrow> pystr \<Rightarrow> nat \<Rightarrow> service_metadata list app" where
  "list_body rt p limit =
     abind (alift (list_services rt p limit)) (\<lambda>items.
       project_all p (take limit (sort_key (\<lambda>s. (sv_created_at s, sv_service_id s))
         (filter (\<lambda>s. sv_principal_id s = p) items))))"

definition list_all_services ::
  "runtime \<Rightarrow> session \<Rightarrow> application_context \<Rightarrow> int \<Rightarrow> service_metadata list use_case" where
  "list_all_services rt se ax limit =
     (if \<not> context_ok ax \<or> limit < 1 \<or> 100 < limit then refused InvalidCommand
      else observe_only se (list_body rt (ax_principal_id ax) (nat limit)))"

definition inspect_body :: "runtime \<Rightarrow> pystr \<Rightarrow> uuid \<Rightarrow> service_metadata option app" where
  "inspect_body rt p u =
     abind (alift (get_service rt p u)) (\<lambda>found.
       case found of
         None \<Rightarrow> aret None
       | Some s \<Rightarrow> abind (projected p s) (\<lambda>m. aret (Some m)))"

definition inspect :: "runtime \<Rightarrow> session \<Rightarrow> application_context \<Rightarrow> uuid \<Rightarrow> service_metadata use_case" where
  "inspect rt se ax u r =
     (if \<not> context_ok ax \<or> u = 0 then refused InvalidCommand r
      else case observe_only se (inspect_body rt (ax_principal_id ax) u) r of
        (Inl e, r') \<Rightarrow> (Inl e, r')
      | (Inr None, r') \<Rightarrow> (Inl NotFound, r')
      | (Inr (Some m), r') \<Rightarrow> (Inr m, r'))"

end
