(* ===== verification/Services_Spec.thy ===== *)
theory Services_Spec
  imports Services
begin

text \<open>
  The use cases of \<open>application/services.py\<close> over the registry: what a successful
  request writes, why a failed one writes nothing, and what a retry is answered.
\<close>

section \<open>The unit of work\<close>

definition finished :: "registry \<Rightarrow> unit_of_work" where
  "finished r = \<lparr>uw_committed = r, uw_working = r, uw_terminal = True\<rparr>"

lemma finished_simps [simp]:
  "uw_committed (finished r) = r" "uw_working (finished r) = r" "uw_terminal (finished r)"
  "(opened r)\<lparr>uw_working := r'\<rparr> = opened r' \<longleftrightarrow> r' = r"
  "(opened r)\<lparr>uw_working := r\<rparr> = opened r" "finished r = finished r' \<longleftrightarrow> r = r'"
  "finished r \<noteq> opened r'"
  by (auto simp: finished_def opened_def)

lemma transact_success:
  "transact se body r = (Inr x, r') \<longleftrightarrow> se_opens se \<and> se_closes se \<and>
     (\<exists>w. body (opened r) = (Inr x, w) \<and> r' = uw_committed w)"
  by (auto simp: transact_def split: prod.splits sum.splits if_splits)

text \<open>Steps before the commit leave the committed tables alone; a body whose last step that can fail
  is the commit fails without a trace.\<close>

definition tentative :: "'a app \<Rightarrow> bool" where
  "tentative m \<longleftrightarrow> (\<forall>w. uw_committed (snd (m w)) = uw_committed w)"

definition commits_last :: "'a app \<Rightarrow> bool" where
  "commits_last m \<longleftrightarrow> (\<forall>w e w'. m w = (Inl e, w') \<longrightarrow> uw_committed w' = uw_committed w)"

lemma tentative_steps [intro]:
  "tentative (aret x)" "tentative (araise e)" "tentative (aguard b e)" "tentative (provided v)"
  "tentative (alift m)"
  by (auto simp: tentative_def aguard_def provided_def alift_def split: option.splits prod.splits sum.splits)

lemma tentative_abind [intro]: "tentative m \<Longrightarrow> (\<And>x. tentative (f x)) \<Longrightarrow> tentative (abind m f)"
  unfolding tentative_def
proof
  fix w
  assume m: "\<forall>w. uw_committed (snd (m w)) = uw_committed w"
    and f: "\<And>x. \<forall>w. uw_committed (snd (f x w)) = uw_committed w"
  from m [rule_format, of w] f show "uw_committed (snd (abind m f w)) = uw_committed w"
    by (cases "m w"; cases "fst (m w)") (auto simp: abind_apply)
qed

lemma tentative_commits_last: "tentative m \<Longrightarrow> commits_last m"
  unfolding tentative_def commits_last_def by (metis snd_conv)

lemma commits_last_abind [intro]:
  "tentative m \<Longrightarrow> (\<And>x. commits_last (f x)) \<Longrightarrow> commits_last (abind m f)"
  unfolding tentative_def commits_last_def
  by (auto simp: abind_apply split: prod.splits sum.splits) (metis snd_conv)+

lemma commits_last_commit [intro]:
  "se_commit se = CommitReturns \<Longrightarrow> commits_last (abind (uow_commit se) (\<lambda>_. aret m))"
  by (auto simp: commits_last_def abind_apply uow_commit_def split: if_splits)

lemma transact_error:
  assumes "commits_last body" and "se_closes se" and "transact se body r = (Inl e, r')"
  shows "r' = r"
  using assms by (auto simp: transact_def commits_last_def split: prod.splits sum.splits if_splits)

section \<open>The ledger row of a seed or a design\<close>

definition completion_row ::
  "non_lifecycle_kind \<Rightarrow> pystr \<Rightarrow> pystr \<Rightarrow> pystr \<Rightarrow> service \<Rightarrow> claim_row" where
  "completion_row kind p key fp s =
     \<lparr>cl_principal_id = p, cl_idempotency_key = key, cl_fingerprint = fp,
      cl_service_id = sv_service_id s, cl_kind = non_lifecycle_claim_kind kind,
      cl_phase = PhaseCompleted, cl_created_via = None, cl_intent = None,
      cl_result = Some (ServiceDocument s), cl_recovery_category = False\<rparr>"

lemma complete_non_lifecycle_run:
  "complete_non_lifecycle rt kind p key fp s r = (Inr x, r') \<longleftrightarrow>
     sv_principal_id s = p \<and> validate_service rt s \<and>
     claim_columns_ok (completion_row kind p key fp s) \<and> claim_lookup p key r = None \<and>
     r' = r\<lparr>rg_claims := rg_claims r @ [completion_row kind p key fp s]\<rparr>"
  by (cases kind)
    (auto simp: complete_non_lifecycle_def run_simps completion_row_def claim_shape_ok.simps
      non_lifecycle_row_kind_def active_phase_def claim_lookup_def find_None_iff)

lemma resolve_recorded:
  assumes "claim_lookup p key r = Some (completion_row kind p key fp s)"
    and "validate_service rt s" and "sv_principal_id s = p"
  shows "resolve_non_lifecycle rt kind p key fp r =
    (if completed_non_lifecycle_ok (NonLifecycleCompletion kind) s
     then Inr (CompletedNonLifecycleClaim (NonLifecycleCompletion kind) s)
     else Inl StorageMigrationError, r)"
  using assms
  by (cases kind)
    (auto simp: resolve_non_lifecycle_def rbind_apply completion_row_def decode_result_def
      completed_claim_def)

lemma resolve_new: "resolve_non_lifecycle rt kind p key fp r = (Inr NewNonLifecycleClaim, r') \<Longrightarrow>
    claim_lookup p key r = None"
  by (auto simp: resolve_non_lifecycle_def completed_claim_def run_simps split: option.splits if_splits)

lemma resolve_reads: "resolve_non_lifecycle rt kind p key fp r = (Inr out, r') \<Longrightarrow> r' = r"
  by (auto simp: resolve_non_lifecycle_def completed_claim_def run_simps split: option.splits if_splits)

section \<open>Runs of the shared steps\<close>

lemma get_recovery_state_reads: "get_recovery_state p u r = (Inr st, r') \<Longrightarrow> r' = r"
  by (auto simp: get_recovery_state_def split: list.splits if_splits)

definition projects :: "pystr \<Rightarrow> service \<Rightarrow> registry \<Rightarrow> service_metadata \<Rightarrow> bool" where
  "projects p s r m \<longleftrightarrow> (\<exists>st. get_recovery_state p (sv_service_id s) r = (Inr st, r) \<and> m = project s st)"

lemma projected_run:
  "projected p s w = (Inr m, w') \<longleftrightarrow> \<not> uw_terminal w \<and> projects p s (uw_working w) m \<and> w' = w"
  by (auto simp: projected_def app_runs projects_def dest: get_recovery_state_reads)

lemma replayed_service_run:
  "replayed_service kind p out w = (Inr v, w') \<longleftrightarrow> w' = w \<and>
     (out = NewNonLifecycleClaim \<and> v = None \<or>
      (\<exists>k s. out = CompletedNonLifecycleClaim k s \<and> k \<in> {LegacyCompletion, NonLifecycleCompletion kind} \<and>
         sv_principal_id s = p \<and> v = Some s))"
  by (cases out) (auto simp: replayed_service_def app_runs)

lemma replay_or_cases:
  assumes "replay_or rt kind p key fp fresh (opened r) = (Inr m, w)"
  obtains
    (replay) k s where "resolve_non_lifecycle rt kind p key fp r = (Inr (CompletedNonLifecycleClaim k s), r)"
      "k \<in> {LegacyCompletion, NonLifecycleCompletion kind}" "sv_principal_id s = p"
      "projects p s r m" "w = opened r"
  | (fresh) "claim_lookup p key r = None" "fresh (opened r) = (Inr m, w)"
proof -
  from assms obtain out v t where o: "resolve_non_lifecycle rt kind p key fp r = (Inr out, t)"
    and v: "replayed_service kind p out ((opened r)\<lparr>uw_working := t\<rparr>) = (Inr v, (opened r)\<lparr>uw_working := t\<rparr>)"
    and rest: "(case v of Some s \<Rightarrow> projected p s | None \<Rightarrow> fresh) ((opened r)\<lparr>uw_working := t\<rparr>) = (Inr m, w)"
    by (auto simp: replay_or_def app_runs replayed_service_run)
  have t: "t = r" by (rule resolve_reads [OF o])
  show ?thesis
  proof (cases v)
    case None
    then have "out = NewNonLifecycleClaim" using v by (auto simp: replayed_service_run)
    with o have "claim_lookup p key r = None" using resolve_new by blast
    with rest None t fresh show ?thesis by simp
  next
    case (Some s)
    then obtain k where k: "out = CompletedNonLifecycleClaim k s"
      "k \<in> {LegacyCompletion, NonLifecycleCompletion kind}" "sv_principal_id s = p"
      using v by (auto simp: replayed_service_run)
    have "projects p s r m" "w = opened r" using rest Some t by (auto simp: projected_run)
    then show ?thesis by (rule replay [OF o [unfolded t k(1)] k(2,3)])
  qed
qed

lemma replay_or_replays:
  assumes "resolve_non_lifecycle rt kind p key fp r = (Inr (CompletedNonLifecycleClaim k s), r)"
    and "k \<in> {LegacyCompletion, NonLifecycleCompletion kind}" "sv_principal_id s = p"
    and "projects p s r m"
  shows "replay_or rt kind p key fp fresh (opened r) = (Inr m, opened r)"
proof -
  have "projected p s (opened r) = (Inr m, opened r)" using assms(4) by (simp add: projected_run)
  with assms(1-3) show ?thesis
    by (simp add: replay_or_def abind_apply alift_def replayed_service_def aret_def)
qed

text \<open>What the last steps of a request write: an audit row and the ledger row.\<close>

definition audited :: "claim_kind \<Rightarrow> audit_outcome \<Rightarrow> uuid \<Rightarrow> application_context \<Rightarrow> time \<Rightarrow> registry \<Rightarrow> registry" where
  "audited kind out u ax now r =
     r\<lparr>rg_audits := trim_audits (ax_principal_id ax) (rg_audits r @
       [\<lparr>au_audit_id = next_audit_id (rg_audits r), au_action = kind, au_outcome = out, au_service_id = u,
         au_principal_id = ax_principal_id ax, au_created_via = ax_created_via ax, au_at = now\<rparr>])\<rparr>"

definition outcome_recorded ::
  "runtime \<Rightarrow> non_lifecycle_kind \<Rightarrow> audit_outcome \<Rightarrow> application_context \<Rightarrow> pystr \<Rightarrow> pystr \<Rightarrow> time \<Rightarrow>
   service \<Rightarrow> registry \<Rightarrow> service_metadata \<Rightarrow> registry \<Rightarrow> bool" where
  "outcome_recorded rt kind out ax key fp now s r m r' \<longleftrightarrow>
     audit_pair_ok (non_lifecycle_claim_kind kind) out \<and>
     sv_principal_id s = ax_principal_id ax \<and> validate_service rt s \<and>
     claim_columns_ok (completion_row kind (ax_principal_id ax) key fp s) \<and>
     claim_lookup (ax_principal_id ax) key r = None \<and>
     r' = (audited (non_lifecycle_claim_kind kind) out (sv_service_id s) ax now r)
       \<lparr>rg_claims := rg_claims r @ [completion_row kind (ax_principal_id ax) key fp s]\<rparr> \<and>
     projects (ax_principal_id ax) s r' m"

lemma record_outcome_iff:
  "record_outcome rt se kind out ax key fp now s w = (Inr m, w') \<longleftrightarrow>
     \<not> uw_terminal w \<and> se_commit se = CommitReturns \<and>
     (\<exists>r'. outcome_recorded rt kind out ax key fp now s (uw_working w) m r' \<and> w' = finished r')"
proof -
  have "claim_lookup p key (audited k out u ax now r) = claim_lookup p key r" for p key k u r
    by (simp add: claim_lookup_def audited_def)
  then show ?thesis
    by (auto simp: record_outcome_def app_runs append_audit_run complete_non_lifecycle_run projected_run
        outcome_recorded_def audited_def finished_def)
qed

lemma outcome_recordedD:
  assumes "outcome_recorded rt kind out ax key fp now s r m r'"
  shows "projects (ax_principal_id ax) s r' m" "claim_lookup (ax_principal_id ax) key r = None"
    "claim_lookup (ax_principal_id ax) key r' = Some (completion_row kind (ax_principal_id ax) key fp s)"
    "sv_principal_id s = ax_principal_id ax" "validate_service rt s" "registry_steps rt r r'"
proof -
  note d = assms [unfolded outcome_recorded_def]
  show "projects (ax_principal_id ax) s r' m" "claim_lookup (ax_principal_id ax) key r = None"
    "sv_principal_id s = ax_principal_id ax" "validate_service rt s" using d by blast+
  show "claim_lookup (ax_principal_id ax) key r' = Some (completion_row kind (ax_principal_id ax) key fp s)"
    by (rule claim_lookup_append [of _ _ r]) (use d in \<open>simp_all add: completion_row_def audited_def\<close>)
  let ?r1 = "audited (non_lifecycle_claim_kind kind) out (sv_service_id s) ax now r"
  have a: "append_audit (non_lifecycle_claim_kind kind) out (sv_service_id s) (ax_principal_id ax)
      (ax_created_via ax) now r = (Inr (), ?r1)"
    using d by (simp add: append_audit_run audited_def)
  have c: "complete_non_lifecycle rt kind (ax_principal_id ax) key fp s ?r1 = (Inr (), r')"
    using d by (simp add: complete_non_lifecycle_run audited_def claim_lookup_def)
  from a c show "registry_steps rt r r'"
    by (meson registry_steps.intros registry_step.audit registry_step.complete_nl)
qed

section \<open>Seed\<close>

text \<open>The successful runs of a seed: a replay, a duplicate of the domain, a new service.\<close>

lemma seed_body_cases:
  assumes "seed_body rt se ax c (opened r) = (Inr m, w)"
  obtains
    (replay) k s where "resolve_non_lifecycle rt SeedKind (ax_principal_id ax) (sc_idempotency_key c)
        (seed_fingerprint rt ax c) r = (Inr (CompletedNonLifecycleClaim k s), r)"
      "k \<in> {LegacyCompletion, NonLifecycleCompletion SeedKind}" "sv_principal_id s = ax_principal_id ax"
      "projects (ax_principal_id ax) s r m" "w = opened r"
  | (duplicate) s now r' where "find_domain rt (ax_principal_id ax) (sc_domain_name c) r = (Inr (Some s), r)"
      "se_now se = Some now" "se_commit se = CommitReturns"
      "outcome_recorded rt SeedKind Duplicate ax (sc_idempotency_key c) (seed_fingerprint rt ax c) now s r m r'"
      "w = finished r'"
  | (created) now u r1 r' where "find_domain rt (ax_principal_id ax) (sc_domain_name c) r = (Inr None, r)"
      "se_now se = Some now" "se_new_id se = Some u" "u \<noteq> 0" "se_commit se = CommitReturns"
      "add_service rt (new_service ax c now u) r = (Inr (), r1)"
      "outcome_recorded rt SeedKind Created ax (sc_idempotency_key c) (seed_fingerprint rt ax c) now
         (new_service ax c now u) r1 m r'" "w = finished r'"
  using assms unfolding seed_body_def Let_def
proof (cases rule: replay_or_cases)
  case (replay k s)
  then show ?thesis using that(1) by blast
next
  case fresh
  then obtain existing where e: "find_domain rt (ax_principal_id ax) (sc_domain_name c) r = (Inr existing, r)"
    and rest: "(case existing of
             Some s \<Rightarrow>
               abind (provided (se_now se)) (\<lambda>now.
                 record_outcome rt se SeedKind Duplicate ax (sc_idempotency_key c) (seed_fingerprint rt ax c) now s)
           | None \<Rightarrow>
               abind (provided (se_now se)) (\<lambda>now.
               abind (provided (se_new_id se)) (\<lambda>u.
               abind (aguard (u \<noteq> 0) InternalFailure) (\<lambda>_.
               abind (aguard (service_ok (new_service ax c now u)) InternalFailure) (\<lambda>_.
               abind (alift (add_service rt (new_service ax c now u))) (\<lambda>_.
                 record_outcome rt se SeedKind Created ax (sc_idempotency_key c) (seed_fingerprint rt ax c) now
                   (new_service ax c now u))))))) (opened r) = (Inr m, w)"
    by (subst (asm) abind_Inr_iff) (auto simp: alift_Inr_iff find_domain_run)
  show ?thesis
  proof (cases existing)
    case (Some s)
    with rest e that(2) show ?thesis by (auto simp: app_runs record_outcome_iff)
  next
    case None
    with rest e that(3) show ?thesis by (auto simp: app_runs record_outcome_iff)
  qed
qed

lemma seed_body_steps:
  assumes "seed_body rt se ax c (opened r) = (Inr m, w)"
  shows "registry_steps rt r (uw_committed w)"
  using assms
proof (cases rule: seed_body_cases)
  case (created now u r1 r')
  then show ?thesis
    using registry_steps_trans [OF outcome_recordedD(6) [OF created(7)]
        registry_steps_one [OF registry_step.add [OF created(6)]]] by simp
qed (auto intro: registry_steps.intros outcome_recordedD(6))

lemma commits_last_record_outcome [intro]:
  "se_commit se = CommitReturns \<Longrightarrow> commits_last (record_outcome rt se kind out ax key fp now s)"
  unfolding record_outcome_def projected_def by (intro commits_last_abind commits_last_commit) auto

lemma replay_or_commits_last:
  assumes "commits_last fresh"
  shows "commits_last (replay_or rt kind p key fp fresh)"
  unfolding replay_or_def projected_def replayed_service_def
  by (intro commits_last_abind) (auto simp: assms split: option.splits non_lifecycle_outcome.splits
      intro: tentative_commits_last)

lemma seed_commits_last:
  assumes "se_commit se = CommitReturns"
  shows "commits_last (seed_body rt se ax c)"
  unfolding seed_body_def Let_def
  by (intro replay_or_commits_last commits_last_abind)
    (auto split: option.splits intro!: commits_last_record_outcome commits_last_abind assms)

section \<open>Design\<close>

text \<open>The successful runs of a design: a replay, or the first manifest of a seeded service.\<close>

lemma after_stale_design_fails: "after_stale_design rt p u w = (Inr x, w') \<longleftrightarrow> False"
  by (auto simp: after_stale_design_def app_runs split: option.splits)

lemma design_body_cases:
  assumes "design_body rt se ax c (opened r) = (Inr m, w)"
  obtains
    (replay) k s where "resolve_non_lifecycle rt DesignKind (ax_principal_id ax) (dc_idempotency_key c)
        (design_fingerprint rt ax c) r = (Inr (CompletedNonLifecycleClaim k s), r)"
      "k \<in> {LegacyCompletion, NonLifecycleCompletion DesignKind}" "sv_principal_id s = ax_principal_id ax"
      "projects (ax_principal_id ax) s r m" "w = opened r"
  | (designed) s now r1 r' where
      "service_row (ax_principal_id ax) (dc_service_id c) r = Some s"
      "sv_operational_status s = Active" "sv_design_state s = Seeded" "sv_manifest s = None"
      "sv_service_revision s < MAX_SERVICE_REVISION" "se_now se = Some now" "sv_updated_at s \<le> now"
      "se_commit se = CommitReturns"
      "save_service rt (designed s (dc_manifest c) now) (sv_service_revision s) r = (Inr Saved, r1)"
      "outcome_recorded rt DesignKind Accepted ax (dc_idempotency_key c) (design_fingerprint rt ax c) now
         (designed s (dc_manifest c) now) r1 m r'" "w = finished r'"
  using assms unfolding design_body_def Let_def
proof (cases rule: replay_or_cases)
  case (replay k s)
  then show ?thesis using that(1) by blast
next
  case fresh
  then obtain found where e: "service_row (ax_principal_id ax) (dc_service_id c) r = found"
    and rest: "(case found of
             None \<Rightarrow> araise NotFound
           | Some s \<Rightarrow>
               abind (aguard (sv_operational_status s = Active \<and> sv_design_state s = Seeded \<and>
                   sv_manifest s = None) InvalidState) (\<lambda>_.
               abind (aguard (sv_service_revision s < MAX_SERVICE_REVISION) InternalFailure) (\<lambda>_.
               abind (provided (se_now se)) (\<lambda>now.
               abind (aguard (sv_updated_at s \<le> now) InternalFailure) (\<lambda>_.
               abind (aguard (service_ok (designed s (dc_manifest c) now)) InternalFailure) (\<lambda>_.
               abind (alift (save_service rt (designed s (dc_manifest c) now)
                   (sv_service_revision s))) (\<lambda>saved.
                 case saved of
                   StaleSave \<Rightarrow> after_stale_design rt (ax_principal_id ax) (dc_service_id c)
                 | Saved \<Rightarrow> record_outcome rt se DesignKind Accepted ax (dc_idempotency_key c)
                     (design_fingerprint rt ax c) now (designed s (dc_manifest c) now)))))))) (opened r) =
      (Inr m, w)"
    by (subst (asm) abind_Inr_iff) (auto simp: alift_Inr_iff get_service_run)
  obtain s where s: "found = Some s" using rest by (cases found) auto
  with rest obtain now saved r1 where
    g: "sv_operational_status s = Active" "sv_design_state s = Seeded" "sv_manifest s = None"
      "sv_service_revision s < MAX_SERVICE_REVISION" "se_now se = Some now" "sv_updated_at s \<le> now"
      "save_service rt (designed s (dc_manifest c) now) (sv_service_revision s) r = (Inr saved, r1)"
    and last: "(case saved of
        StaleSave \<Rightarrow> after_stale_design rt (ax_principal_id ax) (dc_service_id c)
      | Saved \<Rightarrow> record_outcome rt se DesignKind Accepted ax (dc_idempotency_key c)
          (design_fingerprint rt ax c) now (designed s (dc_manifest c) now))
        ((opened r)\<lparr>uw_working := r1\<rparr>) = (Inr m, w)"
    by (auto simp: app_runs)
  have "saved = Saved" using last by (cases saved) (auto simp: after_stale_design_fails)
  with g last e s that(2) show ?thesis by (auto simp: record_outcome_iff)
qed

lemma design_body_steps:
  assumes "design_body rt se ax c (opened r) = (Inr m, w)"
  shows "registry_steps rt r (uw_committed w)"
  using assms
proof (cases rule: design_body_cases)
  case (designed s now r1 r')
  then show ?thesis
    using registry_steps_trans [OF outcome_recordedD(6) [OF designed(10)]
        registry_steps_one [OF registry_step.save [OF designed(9)]]] by simp
qed (auto intro: registry_steps.intros)

lemma commits_last_steps [intro]:
  "commits_last (araise e)" "commits_last (after_stale_design rt p u)"
  unfolding after_stale_design_def
  by (intro tentative_commits_last tentative_abind; auto split: option.splits)+

lemma design_commits_last:
  assumes "se_commit se = CommitReturns"
  shows "commits_last (design_body rt se ax c)"
  unfolding design_body_def Let_def
  by (intro replay_or_commits_last commits_last_abind)
    (auto split: option.splits save_result.splits
      intro!: commits_last_record_outcome commits_last_abind assms)

section \<open>What a request writes\<close>

text \<open>The tables after a seed that was not a replay: the first service of the domain keeps its row, or
  one row and one live identity are added; then the audit row and the ledger row of the request.\<close>

definition with_service :: "service \<Rightarrow> registry \<Rightarrow> registry" where
  "with_service s r = r\<lparr>rg_services := rg_services r @ [s],
     rg_identities := rg_identities r @ [live_identity s]\<rparr>"

definition domain_row :: "pystr \<Rightarrow> pystr \<Rightarrow> registry \<Rightarrow> service option" where
  "domain_row p d r = List.find (\<lambda>s. sv_principal_id s = p \<and> sv_domain_name s = d) (rg_services r)"

definition seed_recorded ::
  "runtime \<Rightarrow> session \<Rightarrow> application_context \<Rightarrow> seed_command \<Rightarrow> registry \<Rightarrow> service_metadata \<Rightarrow>
   registry \<Rightarrow> bool" where
  "seed_recorded rt se ax c r m r' \<longleftrightarrow>
     (\<exists>now. se_now se = Some now \<and>
       (case domain_row (ax_principal_id ax) (sc_domain_name c) r of
          Some s \<Rightarrow> outcome_recorded rt SeedKind Duplicate ax (sc_idempotency_key c)
            (seed_fingerprint rt ax c) now s r m r'
        | None \<Rightarrow> \<exists>u. se_new_id se = Some u \<and>
            (\<forall>i \<in> set (rg_identities r). iy_service_id i \<noteq> u \<and>
               \<not> live_domain (ax_principal_id ax) (sc_domain_name c) i) \<and>
            outcome_recorded rt SeedKind Created ax (sc_idempotency_key c) (seed_fingerprint rt ax c) now
              (new_service ax c now u) (with_service (new_service ax c now u) r) m r'))"

text \<open>The tables after a design that was not a replay: the row of an active seeded service without a
  manifest is replaced by the designed one, of the next revision.\<close>

definition design_recorded ::
  "runtime \<Rightarrow> session \<Rightarrow> application_context \<Rightarrow> design_command \<Rightarrow> registry \<Rightarrow> service_metadata \<Rightarrow>
   registry \<Rightarrow> bool" where
  "design_recorded rt se ax c r m r' \<longleftrightarrow>
     (\<exists>now s. se_now se = Some now \<and> service_row (ax_principal_id ax) (dc_service_id c) r = Some s \<and>
        sv_operational_status s = Active \<and> sv_design_state s = Seeded \<and> sv_manifest s = None \<and>
        sv_service_revision s < MAX_SERVICE_REVISION \<and> sv_updated_at s \<le> now \<and>
        outcome_recorded rt DesignKind Accepted ax (dc_idempotency_key c) (design_fingerprint rt ax c) now
          (designed s (dc_manifest c) now) (swap_service (designed s (dc_manifest c) now) r) m r')"

lemma outcome_recorded_changes: "outcome_recorded rt kind out ax key fp now s r m r' \<Longrightarrow>
    rg_claims r' \<noteq> rg_claims r"
  by (auto simp: outcome_recorded_def)

lemma add_service_run:
  assumes inv: "services_inv rt (rg_services r) (rg_identities r)"
  shows "add_service rt s r = (Inr x, r') \<longleftrightarrow> validate_service rt s \<and>
    domain_row (sv_principal_id s) (sv_domain_name s) r = None \<and>
    (\<forall>i \<in> set (rg_identities r). iy_service_id i \<noteq> sv_service_id s \<and>
       \<not> live_domain (sv_principal_id s) (sv_domain_name s) i) \<and>
    r' = with_service s r"
proof -
  have ids: "\<exists>i \<in> set (rg_identities r). iy_service_id i = sv_service_id y" if "y \<in> set (rg_services r)" for y
    using services_invD(4) [OF inv] that by (force simp: live_identity_def)
  have ns: "iy_storage_namespace i = svc_namespace (iy_service_id i)" if "i \<in> set (rg_identities r)" for i
    using services_invD [OF inv] that by blast
  show ?thesis
    by (auto simp: add_service_def run_simps with_service_def domain_row_def find_None_iff live_domain_def
        ns dest: ids)
qed

lemma replay_or_fresh:
  "claim_lookup p key r = None \<Longrightarrow> replay_or rt kind p key fp fresh (opened r) = fresh (opened r)"
  by (simp add: replay_or_def abind_apply alift_def resolve_non_lifecycle_def run_simps
      replayed_service_def rbind_apply)

text \<open>The bodies that commit are exactly the recorded ones.\<close>

lemma seed_body_commits:
  assumes inv: "registry_inv rt r"
  shows "seed_body rt se ax c (opened r) = (Inr m, finished r') \<longleftrightarrow>
    se_commit se = CommitReturns \<and> seed_recorded rt se ax c r m r'"
proof
  assume "seed_body rt se ax c (opened r) = (Inr m, finished r')"
  then show "se_commit se = CommitReturns \<and> seed_recorded rt se ax c r m r'"
  proof (cases rule: seed_body_cases)
    case (duplicate s now r'')
    then show ?thesis by (auto simp: seed_recorded_def domain_row_def find_domain_run split: option.splits)
  next
    case (created now u r1 r'')
    then show ?thesis
      using add_service_run [OF registry_invD(1) [OF inv]]
      by (auto simp: seed_recorded_def domain_row_def find_domain_run new_service_def)
  qed simp
next
  assume rec: "se_commit se = CommitReturns \<and> seed_recorded rt se ax c r m r'"
  then obtain now where now: "se_now se = Some now" by (auto simp: seed_recorded_def)
  show "seed_body rt se ax c (opened r) = (Inr m, finished r')"
  proof (cases "domain_row (ax_principal_id ax) (sc_domain_name c) r")
    case (Some s)
    with rec now have ro: "outcome_recorded rt SeedKind Duplicate ax (sc_idempotency_key c)
        (seed_fingerprint rt ax c) now s r m r'" by (simp add: seed_recorded_def)
    have "find_domain rt (ax_principal_id ax) (sc_domain_name c) r = (Inr (Some s), r)"
      using Some outcome_recordedD(5) [OF ro] by (simp add: find_domain_run domain_row_def)
    with now ro rec outcome_recordedD(2) [OF ro] show ?thesis
      by (simp add: seed_body_def Let_def replay_or_fresh app_runs record_outcome_iff)
  next
    case None
    with rec now obtain u where u: "se_new_id se = Some u"
      "\<forall>i \<in> set (rg_identities r). iy_service_id i \<noteq> u \<and>
         \<not> live_domain (ax_principal_id ax) (sc_domain_name c) i"
      and ro: "outcome_recorded rt SeedKind Created ax (sc_idempotency_key c) (seed_fingerprint rt ax c)
        now (new_service ax c now u) (with_service (new_service ax c now u) r) m r'"
      by (auto simp: seed_recorded_def)
    let ?s = "new_service ax c now u"
    note v = outcome_recordedD(5) [OF ro]
    have ok: "service_ok ?s" "u \<noteq> 0"
      using v by (simp_all add: validate_service_def service_ok_def new_service_def)
    have add: "add_service rt ?s r = (Inr (), with_service ?s r)"
      using add_service_run [OF registry_invD(1) [OF inv], of ?s "()"] v u None by (simp add: new_service_def)
    have "find_domain rt (ax_principal_id ax) (sc_domain_name c) r = (Inr None, r)"
      using None by (simp add: find_domain_run domain_row_def)
    moreover have "claim_lookup (ax_principal_id ax) (sc_idempotency_key c) r = None"
      using outcome_recordedD(2) [OF ro] by (simp add: claim_lookup_def with_service_def)
    ultimately show ?thesis using now u(1) ok add ro rec
      by (simp add: seed_body_def Let_def replay_or_fresh app_runs record_outcome_iff)
  qed
qed

lemma design_body_commits:
  assumes inv: "registry_inv rt r"
  shows "design_body rt se ax c (opened r) = (Inr m, finished r') \<longleftrightarrow>
    se_commit se = CommitReturns \<and> design_recorded rt se ax c r m r'"
proof
  have swap: "save_service rt (designed s (dc_manifest c) now) (sv_service_revision s) r =
      (Inr Saved, swap_service (designed s (dc_manifest c) now) r)"
    if "service_row (ax_principal_id ax) (dc_service_id c) r = Some s"
      "validate_service rt (designed s (dc_manifest c) now)" "sv_service_revision s < MAX_SERVICE_REVISION"
    for s now
    by (rule save_service_same_domain [OF inv that(1)])
      (use that service_row_Some [OF that(1)] in \<open>simp_all add: designed_def\<close>)
  {
    assume "design_body rt se ax c (opened r) = (Inr m, finished r')"
    then show "se_commit se = CommitReturns \<and> design_recorded rt se ax c r m r'"
    proof (cases rule: design_body_cases)
      case (designed s now r1 r'')
      then show ?thesis
        using swap [OF designed(1) outcome_recordedD(5) [OF designed(10)] designed(5)]
        by (auto simp: design_recorded_def)
    qed simp
  next
    assume rec: "se_commit se = CommitReturns \<and> design_recorded rt se ax c r m r'"
    then obtain now s where s: "se_now se = Some now"
      "service_row (ax_principal_id ax) (dc_service_id c) r = Some s" "sv_operational_status s = Active"
      "sv_design_state s = Seeded" "sv_manifest s = None"
      "sv_service_revision s < MAX_SERVICE_REVISION" "sv_updated_at s \<le> now"
      and ro: "outcome_recorded rt DesignKind Accepted ax (dc_idempotency_key c)
        (design_fingerprint rt ax c) now (designed s (dc_manifest c) now)
        (swap_service (designed s (dc_manifest c) now) r) m r'"
      by (auto simp: design_recorded_def)
    note v = outcome_recordedD(5) [OF ro]
    have get: "get_service rt (ax_principal_id ax) (dc_service_id c) r = (Inr (Some s), r)"
      by (rule get_service_found [OF registry_invD(1) [OF inv] s(2)])
    have "service_ok (designed s (dc_manifest c) now)" using v by (simp add: validate_service_def)
    moreover have "claim_lookup (ax_principal_id ax) (dc_idempotency_key c) r = None"
      using outcome_recordedD(2) [OF ro] by (simp add: claim_lookup_def swap_service_def)
    ultimately show "design_body rt se ax c (opened r) = (Inr m, finished r')"
      using s get swap [OF s(2) v s(6)] ro rec
      by (simp add: design_body_def Let_def replay_or_fresh app_runs record_outcome_iff)
  }
qed

section \<open>Retries\<close>

text \<open>A successful request leaves a ledger row that decides every retry.\<close>

lemma seed_retry:
  assumes run: "seed_body rt se ax c (opened r) = (Inr m, w)"
  shows "seed_body rt se' ax c (opened (uw_committed w)) = (Inr m, opened (uw_committed w))"
proof -
  have again: "seed_body rt se' ax c (opened r') = (Inr m, opened r')"
    if row: "outcome_recorded rt SeedKind out ax (sc_idempotency_key c) (seed_fingerprint rt ax c) now s r1 m r'"
    for out now s r1 r'
  proof -
    note ro = outcome_recordedD [OF row]
    have "completed_non_lifecycle_ok (NonLifecycleCompletion SeedKind) s"
      using ro(5) by (simp add: completed_non_lifecycle_ok_def validate_service_def)
    with resolve_recorded [OF ro(3,5,4)]
    have "resolve_non_lifecycle rt SeedKind (ax_principal_id ax) (sc_idempotency_key c)
        (seed_fingerprint rt ax c) r' =
      (Inr (CompletedNonLifecycleClaim (NonLifecycleCompletion SeedKind) s), r')" by simp
    from replay_or_replays [OF this _ ro(4,1)] show ?thesis by (simp add: seed_body_def Let_def)
  qed
  from run show ?thesis
  proof (cases rule: seed_body_cases)
    case (replay k s)
    from replay_or_replays [OF replay(1-4)] replay(5) show ?thesis by (simp add: seed_body_def Let_def)
  next
    case (duplicate s now r')
    with again [OF duplicate(4)] show ?thesis by simp
  next
    case (created now u r1 r')
    with again [OF created(7)] show ?thesis by simp
  qed
qed

text \<open>The retry of a design is answered only when the design was of revision one.\<close>

lemma design_retry:
  assumes run: "design_body rt se ax c (opened r) = (Inr m, w)"
  shows "design_body rt se' ax c (opened (uw_committed w)) =
    (if uw_terminal w \<and> sm_service_revision m \<noteq> 2 then Inl InternalFailure else Inr m,
     opened (uw_committed w))"
  using run
proof (cases rule: design_body_cases)
  case (replay k s)
  from replay_or_replays [OF replay(1-4)] replay(5) show ?thesis by (simp add: design_body_def Let_def)
next
  case (designed s now r1 r')
  let ?s = "Services.designed s (dc_manifest c) now"
  note ro = outcome_recordedD [OF designed(10)]
  have m: "sm_service_revision m = sv_service_revision ?s"
    using ro(1) by (auto simp: projects_def project_def)
  have ok: "completed_non_lifecycle_ok (NonLifecycleCompletion DesignKind) ?s \<longleftrightarrow> sv_service_revision ?s = 2"
    using ro(5) designed(2,3)
    by (auto simp: completed_non_lifecycle_ok_def validate_service_def designed_def)
  show ?thesis
  proof (cases "sv_service_revision ?s = 2")
    case True
    then have "resolve_non_lifecycle rt DesignKind (ax_principal_id ax) (dc_idempotency_key c)
        (design_fingerprint rt ax c) r' =
      (Inr (CompletedNonLifecycleClaim (NonLifecycleCompletion DesignKind) ?s), r')"
      using resolve_recorded [OF ro(3,5,4)] ok by simp
    from replay_or_replays [OF this _ ro(4,1)] True m designed(11) show ?thesis
      by (simp add: design_body_def Let_def)
  next
    case False
    then have "resolve_non_lifecycle rt DesignKind (ax_principal_id ax) (dc_idempotency_key c)
        (design_fingerprint rt ax c) r' = (Inl StorageMigrationError, r')"
      using resolve_recorded [OF ro(3,5,4)] ok by simp
    with False m designed(11) show ?thesis
      by (simp add: design_body_def Let_def replay_or_def abind_apply alift_def)
  qed
qed

end
