(* ===== verification/Services_Properties.thy ===== *)
theory Services_Properties
  imports Services_Spec Registry_Sample
begin

text \<open>
  The properties of the use cases of \<open>application/services.py\<close> over the registry: what a request
  writes, that a failure leaves no trace, and what a retry is answered.
\<close>

section \<open>Successful requests are answered again\<close>

lemma seed_success:
  "seed rt se ax c r = (Inr m, r') \<longleftrightarrow> context_ok ax \<and> seed_ok c \<and> se_opens se \<and> se_closes se \<and>
     (\<exists>w. seed_body rt se ax c (opened r) = (Inr m, w) \<and> r' = uw_committed w)"
  by (auto simp: seed_def refused_def transact_success)

lemma design_success:
  "design rt se ax c r = (Inr m, r') \<longleftrightarrow> context_ok ax \<and> design_ok c \<and> manifest_spec (dc_manifest c) \<and>
     se_opens se \<and> se_closes se \<and>
     (\<exists>w. design_body rt se ax c (opened r) = (Inr m, w) \<and> r' = uw_committed w)"
proof (cases "manifest_snapshot (dc_manifest c)")
  case (Inl e)
  then have "\<not> manifest_spec (dc_manifest c)" using manifest_snapshot_iff by (metis Inl_Inr_False)
  with Inl show ?thesis by (simp add: design_def refused_def)
next
  case (Inr n)
  then have "n = dc_manifest c" "manifest_spec (dc_manifest c)" by (simp_all add: manifest_snapshot_iff)
  with Inr show ?thesis
    by (cases "context_ok ax \<and> design_ok c") (auto simp: design_def refused_def transact_success)
qed

text \<open>A successful body either replays and leaves its unit of work as it was opened, or commits tables
  with one more ledger row.\<close>

lemma seed_body_shape:
  "seed_body rt se ax c (opened r) = (Inr m, w) \<Longrightarrow> w = opened r \<or> (\<exists>r'. w = finished r' \<and> r' \<noteq> r)"
proof (erule seed_body_cases)
  fix now u r1 r'
  assume "add_service rt (new_service ax c now u) r = (Inr (), r1)"
    and "outcome_recorded rt SeedKind Created ax (sc_idempotency_key c) (seed_fingerprint rt ax c) now
      (new_service ax c now u) r1 m r'" and "w = finished r'"
  moreover from this(1) have "rg_claims r1 = rg_claims r" by (auto simp: add_service_def run_simps)
  ultimately show ?thesis using outcome_recorded_changes by fastforce
qed (use outcome_recorded_changes in fastforce)+

lemma design_body_shape:
  "design_body rt se ax c (opened r) = (Inr m, w) \<Longrightarrow> w = opened r \<or> (\<exists>r'. w = finished r' \<and> r' \<noteq> r)"
proof (erule design_body_cases)
  fix s now r1 r'
  assume "save_service rt (designed s (dc_manifest c) now) (sv_service_revision s) r = (Inr Saved, r1)"
    and "outcome_recorded rt DesignKind Accepted ax (dc_idempotency_key c) (design_fingerprint rt ax c) now
      (designed s (dc_manifest c) now) r1 m r'" and "w = finished r'"
  then show ?thesis using outcome_recorded_changes save_service_claims by fastforce
qed simp

lemma seed_again:
  "seed rt se ax c r = (Inr m, r') \<Longrightarrow> se_opens se' \<Longrightarrow> se_closes se' \<Longrightarrow>
     seed rt se' ax c r' = (Inr m, r')"
  using seed_retry [of rt se ax c r m] by (fastforce simp: seed_success)

interpretation seeding: replayable "seed rt se ax c" "\<lambda>_. True" "\<lambda>_. True" for rt se ax c
proof unfold_locales
  show "seed rt se ax c s' = (Inr out, s')" if "seed rt se ax c s = (Inr out, s')" for s out s'
    using seed_again [OF that, of se] that by (simp add: seed_success)
qed simp

section \<open>Requests that write\<close>

lemma seed_writes:
  assumes "registry_inv rt r"
  shows "seed rt se ax c r = (Inr m, r') \<and> r' \<noteq> r \<longleftrightarrow> context_ok ax \<and> seed_ok c \<and> se_opens se \<and>
    se_closes se \<and> se_commit se = CommitReturns \<and> seed_recorded rt se ax c r m r'"
proof -
  have "(\<exists>w. seed_body rt se ax c (opened r) = (Inr m, w) \<and> r' = uw_committed w) \<and> r' \<noteq> r \<longleftrightarrow>
      seed_body rt se ax c (opened r) = (Inr m, finished r')"
    using seed_body_shape [of rt se ax c r m] by fastforce
  with seed_body_commits [OF assms] show ?thesis by (auto simp: seed_success)
qed

lemma design_writes:
  assumes "registry_inv rt r"
  shows "design rt se ax c r = (Inr m, r') \<and> r' \<noteq> r \<longleftrightarrow> context_ok ax \<and> design_ok c \<and>
    manifest_spec (dc_manifest c) \<and> se_opens se \<and> se_closes se \<and> se_commit se = CommitReturns \<and>
    design_recorded rt se ax c r m r'"
proof -
  have "(\<exists>w. design_body rt se ax c (opened r) = (Inr m, w) \<and> r' = uw_committed w) \<and> r' \<noteq> r \<longleftrightarrow>
      design_body rt se ax c (opened r) = (Inr m, finished r')"
    using design_body_shape [of rt se ax c r m] by fastforce
  with design_body_commits [OF assms] show ?thesis by (auto simp: design_success)
qed

text \<open>Either way a successful request is a history of registry methods, so every table invariant holds
  for what the next one finds.\<close>

lemma request_history:
  "seed rt se ax c r = (Inr m, r') \<or> design rt se ax d r = (Inr m, r') \<Longrightarrow> registry_steps rt r r'"
  using seed_body_steps design_body_steps by (auto simp: seed_success design_success)

text \<open>The two readers only look at what they see.\<close>

lemma observe_reads: "tentative body \<Longrightarrow> snd (observe_only se body r) = r"
  by (cases "body (opened r)"; cases "fst (body (opened r))")
    (auto simp: observe_only_def tentative_def dest: spec [of _ "opened r"])

lemma project_all_tentative: "tentative (project_all p ss)"
proof (induction ss)
  case (Cons s ss)
  then show ?case unfolding project_all.simps projected_def by (intro tentative_abind tentative_steps)
qed (unfold project_all.simps, rule tentative_steps)

lemma list_reads: "snd (list_all_services rt se ax n r) = r"
  by (auto simp: list_all_services_def list_body_def refused_def project_all_tentative intro!: observe_reads)

lemma inspect_reads: "snd (inspect rt se ax u r) = r"
proof -
  have "snd (observe_only se (inspect_body rt (ax_principal_id ax) u) r) = r"
    unfolding inspect_body_def projected_def
    by (intro observe_reads tentative_abind) (auto split: option.splits)
  then show ?thesis
    by (auto simp: inspect_def refused_def split: prod.splits sum.splits option.splits)
qed

section \<open>A sample session\<close>

definition sample_session :: session where
  "sample_session = \<lparr>se_opens = True, se_now = Some 6, se_new_id = Some 9, se_commit = CommitReturns,
     se_rolls_back = True, se_closes = True\<rparr>"

definition alice :: application_context where
  "alice = \<lparr>ax_principal_id = ascii ''alice'', ax_created_via = ascii ''mcp''\<rparr>"

definition seed_request :: seed_command where
  "seed_request = \<lparr>sc_domain_name = ascii ''notes'', sc_domain_class = ascii ''personal'',
     sc_intent_description = ascii ''my notes'', sc_idempotency_key = ascii ''key-7''\<rparr>"

lemma alice_simps [simp]: "ax_principal_id alice = ascii ''alice''" "ax_created_via alice = ascii ''mcp''"
  by (simp_all add: alice_def)

lemma sample_session_simps [simp]:
  "se_opens sample_session" "se_closes sample_session" "se_now sample_session = Some 6"
  "se_new_id sample_session = Some 9" "se_commit sample_session = CommitReturns"
  by (simp_all add: sample_session_def)

lemma alice_ok: "context_ok alice"
  by (simp add: context_ok_def valid_text_def strip_def is_space_def ascii_def)

lemma seed_request_ok: "seed_ok seed_request"
  by (simp add: seed_ok_def seed_request_def valid_text_def strip_def is_space_def ascii_def
      is_identifier_def is_lower_def is_digit_def list_all_iff)

section \<open>Fresh requests\<close>

lemma outcome_recorded_fresh:
  assumes inv: "registry_inv rt r" and key: "claim_lookup (ax_principal_id ax) key r = None"
    and s: "validate_service rt s" "sv_principal_id s = ax_principal_id ax"
    and row: "claim_columns_ok (completion_row kind (ax_principal_id ax) key fp s)"
    and pair: "audit_pair_ok (non_lifecycle_claim_kind kind) out"
  shows "\<exists>m r'. outcome_recorded rt kind out ax key fp now s r m r'"
proof -
  let ?r1 = "audited (non_lifecycle_claim_kind kind) out (sv_service_id s) ax now r"
  let ?r2 = "?r1\<lparr>rg_claims := rg_claims r @ [completion_row kind (ax_principal_id ax) key fp s]\<rparr>"
  have a: "append_audit (non_lifecycle_claim_kind kind) out (sv_service_id s)
      (ax_principal_id ax) (ax_created_via ax) now r = (Inr (), ?r1)"
    using pair by (simp add: append_audit_run audited_def)
  have c: "complete_non_lifecycle rt kind (ax_principal_id ax) key fp s ?r1 = (Inr (), ?r2)"
    using s row key by (simp add: complete_non_lifecycle_run claim_lookup_def audited_def)
  have "registry_inv rt ?r2"
    using inv registry_step_keeps [OF registry_step.audit [OF a]]
      registry_step_keeps [OF registry_step.complete_nl [OF c]] by blast
  then obtain st where "get_recovery_state (ax_principal_id ax) (sv_service_id s) ?r2 = (Inr st, ?r2)"
    using get_recovery_state_run [OF registry_invD(2)] by blast
  then have "projects (ax_principal_id ax) s ?r2 (project s st)" by (auto simp: projects_def)
  with s row key pair show ?thesis unfolding outcome_recorded_def by blast
qed

lemma use_case_audits: "audit_pair_ok (non_lifecycle_claim_kind SeedKind) Created"
  "audit_pair_ok (non_lifecycle_claim_kind DesignKind) Accepted"
  by (simp_all add: audit_pair_ok_def)

section \<open>Sample runs\<close>

text \<open>The seeded service before its manifest, suspended and resumed once: revision three.\<close>

definition plain_service :: service where
  "plain_service = sample_service\<lparr>sv_manifest := None, sv_schema_version := None,
     sv_service_revision := 3\<rparr>"

definition plain_registry :: registry where
  "plain_registry = empty_registry\<lparr>rg_services := [plain_service],
     rg_identities := [live_identity plain_service]\<rparr>"

definition design_request :: design_command where
  "design_request = \<lparr>dc_service_id = 7, dc_manifest = notes_manifest, dc_idempotency_key = ascii ''key-8''\<rparr>"

lemma plain_valid: "validate_service ascii_runtime plain_service"
  using sample_texts
  by (simp add: validate_service_def service_ok_def plain_service_def sample_service_def
      MAX_SERVICE_REVISION_def)

lemma plain_reachable: "registry_reachable ascii_runtime plain_registry"
proof -
  have "add_service ascii_runtime plain_service empty_registry = (Inr (), plain_registry)"
    using plain_valid by (auto simp: add_service_def run_simps empty_registry_def plain_registry_def)
  then show ?thesis by (blast intro: registry_reachable.intros registry_step.add)
qed

lemma design_request_ok: "design_ok design_request"
  by (simp add: design_ok_def design_request_def notes_manifest_def valid_text_def strip_def
      is_space_def ascii_def)

lemma plain_designed:
  "\<exists>m r'. design ascii_runtime sample_session alice design_request plain_registry = (Inr m, r') \<and>
     r' \<noteq> plain_registry \<and> sm_service_revision m = 4"
proof -
  let ?s = "designed plain_service notes_manifest 6"
  have v: "validate_service ascii_runtime ?s"
    using sample_texts notes_validate
    by (simp add: validate_service_def service_ok_def designed_def plain_service_def sample_service_def
        notes_manifest_def MAX_SERVICE_REVISION_def MAX_SCHEMA_VERSION_def)
  have row: "service_row (ascii ''alice'') 7 plain_registry = Some plain_service"
    by (simp add: service_row_def plain_registry_def plain_service_def)
  note inv = reachable_inv [OF plain_reachable]
  have saved: "save_service ascii_runtime ?s (sv_service_revision plain_service) plain_registry =
      (Inr Saved, swap_service ?s plain_registry)"
    by (rule save_service_same_domain [OF inv row _ _ _ v])
      (simp_all add: designed_def plain_service_def MAX_SERVICE_REVISION_def)
  have cols: "claim_columns_ok (completion_row DesignKind (ax_principal_id alice) (ascii ''key-8'')
      (design_fingerprint ascii_runtime alice design_request) ?s)"
    by (simp add: claim_columns_ok_def completion_row_def design_fingerprint_def ascii_def
        designed_def plain_service_def)
  have key: "claim_lookup (ax_principal_id alice) (ascii ''key-8'') (swap_service ?s plain_registry) = None"
    by (simp add: claim_lookup_def swap_service_def plain_registry_def empty_registry_def)
  have own: "sv_principal_id ?s = ax_principal_id alice" by (simp add: designed_def plain_service_def)
  obtain m r' where ro: "outcome_recorded ascii_runtime DesignKind Accepted alice (ascii ''key-8'')
      (design_fingerprint ascii_runtime alice design_request) 6 ?s (swap_service ?s plain_registry) m r'"
    using outcome_recorded_fresh [OF registry_step_keeps [OF registry_step.save [OF saved] inv] key v own
        cols use_case_audits(2)] by blast
  have "sm_service_revision m = 4"
    using outcome_recordedD(1) [OF ro] by (auto simp: projects_def project_def designed_def plain_service_def)
  moreover have "design_recorded ascii_runtime sample_session alice design_request plain_registry m r'"
    using ro row by (auto simp: design_recorded_def design_request_def plain_service_def
        MAX_SERVICE_REVISION_def)
  ultimately show ?thesis
    using design_writes [OF inv, of sample_session alice design_request m r'] alice_ok design_request_ok
      notes_spec by (auto simp: design_request_def)
qed

lemma seed_created:
  "\<exists>m r'. seed ascii_runtime sample_session alice seed_request empty_registry = (Inr m, r') \<and>
     r' \<noteq> empty_registry"
proof -
  let ?s = "new_service alice seed_request 6 9"
  have v: "validate_service ascii_runtime ?s"
    using sample_texts
    by (simp add: validate_service_def service_ok_def new_service_def seed_request_def
        MAX_SERVICE_REVISION_def)
  have add: "add_service ascii_runtime ?s empty_registry = (Inr (), with_service ?s empty_registry)"
    using v by (auto simp: add_service_def run_simps empty_registry_def with_service_def)
  have cols: "claim_columns_ok (completion_row SeedKind (ax_principal_id alice) (ascii ''key-7'')
      (seed_fingerprint ascii_runtime alice seed_request) ?s)"
    by (simp add: claim_columns_ok_def completion_row_def seed_fingerprint_def ascii_def
        new_service_def)
  note inv = reachable_inv [OF registry_reachable.intros(1)]
  have key: "claim_lookup (ax_principal_id alice) (ascii ''key-7'') (with_service ?s empty_registry) = None"
    by (simp add: claim_lookup_def with_service_def empty_registry_def)
  have own: "sv_principal_id ?s = ax_principal_id alice" by (simp add: new_service_def)
  obtain m r' where ro: "outcome_recorded ascii_runtime SeedKind Created alice (ascii ''key-7'')
      (seed_fingerprint ascii_runtime alice seed_request) 6 ?s (with_service ?s empty_registry) m r'"
    using outcome_recorded_fresh [OF registry_step_keeps [OF registry_step.add [OF add] inv] key v own
        cols use_case_audits(1)] by blast
  then have "seed_recorded ascii_runtime sample_session alice seed_request empty_registry m r'"
    by (auto simp: seed_recorded_def seed_request_def domain_row_def empty_registry_def)
  then show ?thesis
    using seed_writes [OF inv, where se = sample_session and ax = alice and c = seed_request and m = m
        and r' = r'] alice_ok seed_request_ok by auto
qed

section \<open>The properties\<close>

text \<open>C39. What a request writes, exactly. A seed or a design succeeds with new tables if and only if it
  is valid, its unit of work commits and closes, and the tables before allow it: for a seed the domain
  is taken by a service that keeps its row, or it is free and the new id unused and one service and
  its live identity are added; for a design the service is active, seeded, without a manifest, below
  the last revision and not newer than the clock, and its row is replaced by the designed one of the
  next revision. The new tables then differ further by exactly one audit row and the ledger row that
  binds the key to the request and its result, and the answer is that service with its recovery
  state (\<open>seed_recorded\<close>, \<open>design_recorded\<close>).\<close>

theorem requests_write_exactly:
  assumes "registry_reachable rt r"
  shows "(seed rt se ax c r = (Inr m, r') \<and> r' \<noteq> r \<longleftrightarrow>
      context_ok ax \<and> seed_ok c \<and> se_opens se \<and> se_closes se \<and> se_commit se = CommitReturns \<and>
      seed_recorded rt se ax c r m r') \<and>
    (design rt se ax d r = (Inr m, r') \<and> r' \<noteq> r \<longleftrightarrow>
      context_ok ax \<and> design_ok d \<and> manifest_spec (dc_manifest d) \<and> se_opens se \<and> se_closes se \<and>
      se_commit se = CommitReturns \<and> design_recorded rt se ax d r m r')"
  by (rule conjI [OF seed_writes design_writes]; rule reachable_inv [OF assms])

theorem requests_write_exactly_witness:
  "(\<exists>m r'. seed_recorded ascii_runtime sample_session alice seed_request empty_registry m r') \<and>
   (\<exists>m r'. design_recorded ascii_runtime sample_session alice design_request plain_registry m r' \<and>
      sm_service_revision m = 4)"
proof
  obtain m r' where "seed ascii_runtime sample_session alice seed_request empty_registry = (Inr m, r')"
    "r' \<noteq> empty_registry" using seed_created by blast
  with requests_write_exactly [OF registry_reachable.intros(1)]
  show "\<exists>m r'. seed_recorded ascii_runtime sample_session alice seed_request empty_registry m r'" by blast
  obtain m r' where "design ascii_runtime sample_session alice design_request plain_registry = (Inr m, r')"
    "r' \<noteq> plain_registry" "sm_service_revision m = 4" using plain_designed by blast
  with requests_write_exactly [OF plain_reachable]
  show "\<exists>m r'. design_recorded ascii_runtime sample_session alice design_request plain_registry m r' \<and>
      sm_service_revision m = 4" by blast
qed

text \<open>C40. Failure is atomic: when commit and close do what they report, a seed or a design that
  answers with an error has left the tables exactly as they were, at whichever step it failed. It
  holds because the commit is the last step of either that can fail, and a rollback, whether it
  works or not, never publishes what was not committed.\<close>

theorem failed_request_leaves_no_trace:
  assumes "se_commit se = CommitReturns" and "se_closes se"
    and "seed rt se ax c r = (Inl e, r') \<or> design rt se ax d r = (Inl e, r')"
  shows "r' = r"
  using assms(3)
proof
  assume "seed rt se ax c r = (Inl e, r')"
  then show ?thesis
    using transact_error [OF seed_commits_last [OF assms(1)] assms(2)]
    by (auto simp: seed_def refused_def split: if_splits)
next
  assume "design rt se ax d r = (Inl e, r')"
  then show ?thesis
    using transact_error [OF design_commits_last [OF assms(1)] assms(2)]
    by (auto simp: design_def refused_def split: if_splits sum.splits)
qed

theorem failed_request_leaves_no_trace_witness:
  "snd (seed ascii_runtime (sample_session\<lparr>se_now := None\<rparr>) alice seed_request seeded_registry) =
     seeded_registry"
proof -
  let ?se = "sample_session\<lparr>se_now := None\<rparr>"
  have "seed_body ascii_runtime ?se alice seed_request (opened seeded_registry) \<noteq> (Inr m, w)" for m w
    by (rule notI, erule seed_body_cases)
      (simp_all add: resolve_non_lifecycle_def rbind_apply claim_lookup_def seeded_registry_def
        empty_registry_def rget_def rret_def)
  then have "seed ascii_runtime ?se alice seed_request seeded_registry \<noteq> (Inr m, r')" for m r'
    by (simp add: seed_success)
  then obtain e r' where run: "seed ascii_runtime ?se alice seed_request seeded_registry = (Inl e, r')"
    using surj_pair [of "seed ascii_runtime ?se alice seed_request seeded_registry"] sum.exhaust by metis
  from failed_request_leaves_no_trace [of ?se, OF _ _ disjI1 [OF run]] run show ?thesis by simp
qed

text \<open>C16. A seed is idempotent: once it has succeeded, sending it again, any number of times and
  through any session that opens and closes, gives the same answer and changes nothing.\<close>

theorem seed_is_idempotent:
  assumes "seed rt se ax c r = (Inr m, r')" and "se_opens se'" and "se_closes se'"
  shows "seed rt se' ax c r' = (Inr m, r') \<and> retry (seed rt se' ax c) n r' = (Inr m, r')"
  using seed_again [OF assms] seeding.retry_settled [OF _ seed_again [OF assms]] by simp

theorem seed_is_idempotent_witness:
  "\<exists>m r'. seed ascii_runtime sample_session alice seed_request empty_registry = (Inr m, r') \<and>
     retry (seed ascii_runtime (sample_session\<lparr>se_now := None\<rparr>) alice seed_request) 4 r' = (Inr m, r')"
proof -
  obtain m r' where run: "seed ascii_runtime sample_session alice seed_request empty_registry = (Inr m, r')"
    using seed_created by blast
  from seed_is_idempotent [OF run, of "sample_session\<lparr>se_now := None\<rparr>" 4] run show ?thesis by auto
qed

text \<open>C15. The retry of a design, exactly: it is answered with the same metadata when the design took
  the service to revision two or was itself a replay, and it fails otherwise, because the replay
  constructor only admits revision two while the design itself accepts any seeded revision.\<close>

theorem design_retry_exact:
  assumes "design rt se ax c r = (Inr m, r')" and "se_opens se'" and "se_closes se'"
  shows "design rt se' ax c r' =
    (if r' \<noteq> r \<and> sm_service_revision m \<noteq> 2 then Inl InternalFailure else Inr m, r')"
proof -
  obtain w where body: "design_body rt se ax c (opened r) = (Inr m, w)" and r': "r' = uw_committed w"
    using assms(1) by (auto simp: design_success)
  have ok: "context_ok ax" "design_ok c" "manifest_spec (dc_manifest c)"
    using assms(1) by (simp_all add: design_success)
  then have snap: "manifest_snapshot (dc_manifest c) = Inr (dc_manifest c)"
    by (simp add: manifest_snapshot_iff)
  have "uw_terminal w \<longleftrightarrow> r' \<noteq> r" using design_body_shape [OF body] r' by auto
  with ok snap assms(2,3) design_retry [OF body, of se'] r' show ?thesis
    by (simp add: design_def transact_def)
qed

theorem design_retry_exact_witness:
  "\<exists>m r'. design ascii_runtime sample_session alice design_request plain_registry = (Inr m, r') \<and>
     design ascii_runtime sample_session alice design_request r' = (Inl InternalFailure, r')"
proof -
  obtain m r' where run: "design ascii_runtime sample_session alice design_request plain_registry = (Inr m, r')"
    "r' \<noteq> plain_registry" "sm_service_revision m = 4" using plain_designed by blast
  from design_retry_exact [OF run(1), of sample_session] run show ?thesis by auto
qed

end
