(* ===== verification/Coordinator.thy ===== *)
theory Coordinator
  imports Ledger_Effects
begin

text \<open>
  \<open>lifecycle_coordinator.py\<close>: one reconciliation attempt of a materialise or evolve command. The
  coordinator reaches everything through ports, so the model takes the ports as a record of
  functions of a world: the service-store catalogue, the domain schema store, the clock, and the
  begin, commit and close of a registry transaction. The registry tables are part of the world
  and its methods are those of the ledger theories; the adapters behind the other ports are
  parameters. The constructor's checks that the dependencies are callable are discharged by the
  types.
\<close>

section \<open>Ports\<close>

datatype port_error =
    PortBusy | PortTransientJournal | PortUnavailable | PortMigration | PortContract | PortOther

text \<open>\<open>StorageTransientJournal\<close> is a subclass of \<open>StorageUnavailable\<close>.\<close>

definition is_unavailable :: "port_error \<Rightarrow> bool" where
  "is_unavailable e \<longleftrightarrow> e = PortUnavailable \<or> e = PortTransientJournal"

datatype storage_component = RegistryComponent | ServiceStoreComponent

datatype migration_status =
    StatusUninitialised | StatusOutdated | StatusReady | StatusIncompatible | StatusDirty

datatype domain_status = SchemaUnmaterialised | SchemaReady | SchemaIncompatible

record service_store_locator =
  lo_backend :: storage_backend
  lo_namespace :: pystr

record adapter_info =
  ad_backend :: storage_backend
  ad_components :: "storage_component list"

record migration_state =
  mg_component :: storage_component
  mg_applied :: int
  mg_target :: int
  mg_status :: migration_status

datatype commit_result = CommitOk | CommitFailed

type_synonym ('w, 'a) port = "'w \<Rightarrow> (port_error + 'a) \<times> 'w"

record 'w ports =
  pt_info :: "('w, adapter_info) port"
  pt_allocate :: "uuid \<Rightarrow> ('w, service_store_locator) port"
  pt_inspect_migration :: "service_store_locator \<Rightarrow> ('w, migration_state) port"
  pt_migrate :: "service_store_locator \<Rightarrow> ('w, migration_state) port"
  pt_inspect :: "service_store_locator \<Rightarrow> rel_specification \<Rightarrow> ('w, domain_status) port"
  pt_materialise :: "service_store_locator \<Rightarrow> rel_specification \<Rightarrow> ('w, domain_status) port"
  pt_evolve :: "service_store_locator \<Rightarrow> rel_transition \<Rightarrow> ('w, domain_status) port"
  pt_now :: "('w, time) port"
  pt_open :: "('w, registry) port"
  pt_commit :: "registry \<Rightarrow> ('w, unit) port"
  pt_rollback :: "('w, unit) port"
  pt_close :: "('w, unit) port"

section \<open>A run of the coordinator\<close>

text \<open>The left value is a \<open>LifecycleExecutionResult\<close> returned early.\<close>

type_synonym ('w, 'a) run = "'w \<Rightarrow> (execution_result + 'a) \<times> 'w"

definition cret :: "'a \<Rightarrow> ('w, 'a) run" where "cret x = (\<lambda>w. (Inr x, w))"

definition result :: "result_category \<Rightarrow> ('w, 'a) run" where
  "result c = (\<lambda>w. (Inl (ExecutionFailed c), w))"

definition cbind :: "('w, 'a) run \<Rightarrow> ('a \<Rightarrow> ('w, 'b) run) \<Rightarrow> ('w, 'b) run" where
  "cbind m f = (\<lambda>w. case m w of (Inl e, w') \<Rightarrow> (Inl e, w') | (Inr x, w') \<Rightarrow> f x w')"

text \<open>\<open>try: ... except ...\<close> around one port call.\<close>

definition call :: "('w, 'a) port \<Rightarrow> ('a \<Rightarrow> ('w, 'b) run) \<Rightarrow> (port_error \<Rightarrow> ('w, 'b) run) \<Rightarrow> ('w, 'b) run" where
  "call m f h = (\<lambda>w. case m w of (Inl e, w') \<Rightarrow> h e w' | (Inr x, w') \<Rightarrow> f x w')"

text \<open>\<open>contextlib.suppress(Exception)\<close>.\<close>

definition suppressed :: "('w, unit) port \<Rightarrow> ('w, unit) run" where
  "suppressed m = call m cret (\<lambda>_. cret ())"

lemma run_basics [simp]:
  "cret x w = (Inr x, w)" "result c w = (Inl (ExecutionFailed c), w)"
  "cbind (cret x) f = f x" "cbind (result c) f = result c"
  by (simp_all add: cret_def result_def cbind_def fun_eq_iff)

section \<open>Registry outcomes\<close>

fun registry_outcome :: "lifecycle_outcome \<Rightarrow> execution_result" where
  "registry_outcome (CompletedLifecycleClaim i s) = ExecutionCompleted s"
| "registry_outcome ConflictClaim = ExecutionFailed ChangedFingerprint"
| "registry_outcome StaleRevisionOutcome = ExecutionFailed StaleRevision"
| "registry_outcome UnsupportedTransitionOutcome = ExecutionFailed UnsupportedTransition"
| "registry_outcome OperationInProgressOutcome = ExecutionFailed OperationInProgress"
| "registry_outcome (RecoveryRequiredLifecycleClaim i) = ExecutionFailed RecoveryRequired"
| "registry_outcome (PreparedLifecycleClaim i) = ExecutionFailed InternalFailure"

definition before_commit_error :: "port_error \<Rightarrow> result_category" where
  "before_commit_error e =
     (if e = PortBusy then StorageBusy else if is_unavailable e then StorageUnavailable
      else InternalFailure)"

definition terminal_write_error :: "port_error \<Rightarrow> result_category" where
  "terminal_write_error e =
     (if e = PortBusy then StorageBusy else if is_unavailable e then OperationUncertain
      else InternalFailure)"

text \<open>The errors of the registry methods, as they reach the handlers of the coordinator.\<close>

fun port_error_of :: "storage_error \<Rightarrow> port_error" where
  "port_error_of StorageMigrationError = PortMigration"
| "port_error_of StorageBusyError = PortBusy"
| "port_error_of StorageUnavailableError = PortUnavailable"

definition rollback_close :: "'w ports \<Rightarrow> ('w, unit) run" where
  "rollback_close p = cbind (suppressed (pt_rollback p)) (\<lambda>_. suppressed (pt_close p))"

section \<open>The terminal registry write\<close>

definition terminal_write :: "'w ports \<Rightarrow> lifecycle_outcome reg \<Rightarrow> ('w, 'a) run" where
  "terminal_write p operation =
     call (pt_open p)
       (\<lambda>r. case operation r of
          (Inl e, _) \<Rightarrow> cbind (rollback_close p) (\<lambda>_. result (terminal_write_error (port_error_of e)))
        | (Inr terminal, r') \<Rightarrow>
            if \<not> is_terminal_claim terminal
            then cbind (rollback_close p) (\<lambda>_. result InternalFailure)
            else
              call (pt_commit p r')
                (\<lambda>_. call (pt_close p)
                   (\<lambda>_. \<lambda>w. (Inl (registry_outcome terminal), w))
                   (\<lambda>_. result OperationUncertain))
                (\<lambda>_. cbind (suppressed (pt_close p)) (\<lambda>_. result OperationUncertain)))
       (\<lambda>e. result (terminal_write_error e))"

definition finalize_recovery :: "runtime \<Rightarrow> 'w ports \<Rightarrow> lifecycle_intent \<Rightarrow> ('w, 'a) run" where
  "finalize_recovery rt p i =
     call (pt_now p) (\<lambda>t. terminal_write p (finalize_recovery_required rt i t))
       (\<lambda>_. result InternalFailure)"

definition finalize_result ::
  "runtime \<Rightarrow> 'w ports \<Rightarrow> lifecycle_intent \<Rightarrow> service_store_locator \<Rightarrow> ('w, 'a) run" where
  "finalize_result rt p i loc =
     call (pt_now p)
       (\<lambda>t. let st = \<lparr>st_backend = lo_backend loc, st_namespace = lo_namespace loc\<rparr>;
               co = (if li_kind i = Materialise then MaterialiseCompletion i t st
                     else EvolveCompletion i t) in
         if (li_kind i = Materialise \<longrightarrow> storage_ok st) \<and> completion_ok co
         then terminal_write p (finalize_completed rt co)
         else result InternalFailure)
       (\<lambda>_. result InternalFailure)"

section \<open>Admission\<close>

definition close_nonmutating :: "'w ports \<Rightarrow> execution_result \<Rightarrow> ('w, 'a) run" where
  "close_nonmutating p res =
     call (pt_rollback p)
       (\<lambda>_. call (pt_close p) (\<lambda>_. \<lambda>w. (Inl res, w)) (\<lambda>e. result (before_commit_error e)))
       (\<lambda>e. result (before_commit_error e))"

definition commit_prepared ::
  "runtime \<Rightarrow> 'w ports \<Rightarrow> registry \<Rightarrow> lifecycle_intent \<Rightarrow> service option \<Rightarrow>
   ('w, lifecycle_intent \<times> service) run" where
  "commit_prepared rt p r i source =
     call (pt_commit p r)
       (\<lambda>_. call (pt_close p)
          (\<lambda>_. case source of None \<Rightarrow> finalize_recovery rt p i | Some s \<Rightarrow> cret (i, s))
          (\<lambda>_. result OperationUncertain))
       (\<lambda>_. cbind (suppressed (pt_close p)) (\<lambda>_. result OperationUncertain))"

definition admit ::
  "runtime \<Rightarrow> 'w ports \<Rightarrow> lifecycle_command \<Rightarrow> ('w, lifecycle_intent \<times> service) run" where
  "admit rt p command =
     call (pt_open p)
       (\<lambda>r. case resolve_or_admit rt command r of
          (Inl e, _) \<Rightarrow> cbind (rollback_close p) (\<lambda>_. result (before_commit_error (port_error_of e)))
        | (Inr outcome, r') \<Rightarrow>
            (case outcome of
               PreparedLifecycleClaim i \<Rightarrow>
                 (case get_service rt (cf_principal_id (command_fields command))
                     (cf_service_id (command_fields command)) r' of
                    (Inl e, _) \<Rightarrow>
                      cbind (rollback_close p) (\<lambda>_. result (before_commit_error (port_error_of e)))
                  | (Inr source, _) \<Rightarrow> commit_prepared rt p r' i source)
             | _ \<Rightarrow> close_nonmutating p (registry_outcome outcome)))
       (\<lambda>e. result (before_commit_error e))"

definition source_matches :: "lifecycle_intent \<Rightarrow> service \<Rightarrow> bool" where
  "source_matches i s \<longleftrightarrow>
     sv_principal_id s = cf_principal_id (li_fields i) \<and>
     sv_service_id s = cf_service_id (li_fields i) \<and> sv_operational_status s = Active \<and>
     sv_service_revision s = cf_expected_service_revision (li_fields i) \<and>
     sv_schema_version s = Some (cf_expected_schema_version (li_fields i)) \<and>
     sv_manifest s \<noteq> None \<and>
     (if li_kind i = Materialise then
        sv_design_state s = Seeded \<and> sv_manifest s = Some (li_target_manifest i) \<and>
        sv_schema_version s = Some 1 \<and> sv_materialised_at s = None \<and> sv_storage s = None
      else
        sv_design_state s = Materialised \<and> sv_materialised_at s \<noteq> None \<and> sv_storage s \<noteq> None)"

section \<open>Locator and shapes\<close>

definition valid_locator ::
  "adapter_info \<Rightarrow> service_store_locator \<Rightarrow> lifecycle_intent \<Rightarrow> bool" where
  "valid_locator info loc i \<longleftrightarrow>
     ServiceStoreComponent \<in> set (ad_components info) \<and> lo_backend loc = ad_backend info \<and>
     lo_namespace loc = svc_namespace (cf_service_id (li_fields i))"

definition locator_error :: "port_error \<Rightarrow> result_category" where
  "locator_error e =
     (if e = PortBusy then StorageBusy else if is_unavailable e then StorageUnavailable
      else InternalFailure)"

definition locate ::
  "'w ports \<Rightarrow> lifecycle_intent \<Rightarrow> service \<Rightarrow> ('w, service_store_locator) run" where
  "locate p i s =
     call (pt_info p)
       (\<lambda>info. call (pt_allocate p (cf_service_id (li_fields i)))
          (\<lambda>loc.
             if \<not> valid_locator info loc i then result InternalFailure
             else if li_kind i = Evolve \<and>
               (case sv_storage s of None \<Rightarrow> True
                | Some st \<Rightarrow> st_backend st \<noteq> lo_backend loc \<or> st_namespace st \<noteq> lo_namespace loc)
             then result InternalFailure
             else cret loc)
          (\<lambda>e. result (locator_error e)))
       (\<lambda>e. result (locator_error e))"

definition compile_target ::
  "lifecycle_intent \<Rightarrow> service \<Rightarrow> ('w, rel_specification \<times> rel_transition option) run" where
  "compile_target i s =
     (case compile_manifest (li_target_manifest i) of
        Inl _ \<Rightarrow> result InternalFailure
      | Inr target \<Rightarrow>
          if li_kind i = Materialise then cret (target, None)
          else
            (case sv_manifest s of
               None \<Rightarrow> result InternalFailure
             | Some m \<Rightarrow>
                 (case classify_transition m (li_target_manifest i) of
                    Inl _ \<Rightarrow> result InternalFailure
                  | Inr t \<Rightarrow> cret (target, Some t))))"

section \<open>Observation\<close>

fun foundation_of_status :: "migration_status \<Rightarrow> foundation_observation" where
  "foundation_of_status StatusUninitialised = FoundationUninitialised"
| "foundation_of_status StatusOutdated = FoundationOutdated"
| "foundation_of_status StatusReady = FoundationReady"
| "foundation_of_status StatusDirty = FoundationDirty"
| "foundation_of_status StatusIncompatible = FoundationIncompatible"

fun domain_of_status :: "domain_status \<Rightarrow> domain_observation" where
  "domain_of_status SchemaUnmaterialised = DomainUnmaterialised"
| "domain_of_status SchemaReady = DomainReady"
| "domain_of_status SchemaIncompatible = DomainIncompatible"

text \<open>The last line of \<open>_foundation\<close>.\<close>

definition foundation_state :: "migration_state \<Rightarrow> ('w, foundation_observation) run" where
  "foundation_state st =
     (if mg_component st \<noteq> ServiceStoreComponent then result InternalFailure
      else cret (foundation_of_status (mg_status st)))"

text \<open>A fresh read after the writer boundary: only an exact answer counts.\<close>

definition reread ::
  "'w ports \<Rightarrow> service_store_locator \<Rightarrow> (migration_state \<Rightarrow> ('w, foundation_observation) run) \<Rightarrow>
   ('w, foundation_observation) run" where
  "reread p loc f =
     call (pt_inspect_migration p loc) f
       (\<lambda>e. if e = PortBusy then cret FoundationBusy
            else if is_unavailable e \<or> e = PortMigration then cret FoundationUncertain
            else result InternalFailure)"

text \<open>The state a peer's transient journal was reconciled to; another status than ready is
  re-read once and never reported.\<close>

definition reconciled_state ::
  "'w ports \<Rightarrow> service_store_locator \<Rightarrow> migration_state \<Rightarrow> ('w, foundation_observation) run" where
  "reconciled_state p loc st =
     (if mg_component st \<noteq> ServiceStoreComponent then result InternalFailure
      else if mg_status st \<noteq> StatusReady then
        reread p loc (\<lambda>refreshed.
          if mg_component refreshed \<noteq> ServiceStoreComponent \<or> mg_status refreshed \<noteq> StatusReady
          then cret FoundationUncertain
          else foundation_state refreshed)
      else foundation_state st)"

definition foundation ::
  "'w ports \<Rightarrow> service_store_locator \<Rightarrow> ('w, foundation_observation) run" where
  "foundation p loc =
     call (pt_inspect_migration p loc) foundation_state
       (\<lambda>e. if e = PortBusy then cret FoundationBusy
         else if e = PortTransientJournal then
           call (pt_migrate p loc) (reconciled_state p loc)
             (\<lambda>e. if e = PortBusy then cret FoundationBusy
               else if is_unavailable e then reread p loc (reconciled_state p loc)
               else if e = PortMigration then cret FoundationUncertain
               else result InternalFailure)
         else if is_unavailable e then
           call (pt_migrate p loc) foundation_state
             (\<lambda>e. if e = PortBusy then cret FoundationBusy
               else if is_unavailable e then cret FoundationUnavailable
               else if e = PortMigration then cret FoundationUncertain
               else result InternalFailure)
         else if e = PortMigration then cret FoundationUncertain
         else result InternalFailure)"

text \<open>What a domain read reports when the foundation under it is not ready.\<close>

fun unready_domain :: "foundation_observation \<Rightarrow> domain_observation option" where
  "unready_domain FoundationBusy = Some DomainBusy"
| "unready_domain FoundationUnavailable = Some DomainUnavailable"
| "unready_domain FoundationUncertain = Some DomainUncertain"
| "unready_domain _ = None"

definition domain_state ::
  "'w ports \<Rightarrow> service_store_locator \<Rightarrow> rel_specification \<Rightarrow> ('w, domain_observation) run" where
  "domain_state p loc spec =
     call (pt_inspect p loc spec) (\<lambda>st. cret (domain_of_status st))
       (\<lambda>e. if e = PortBusy then cret DomainBusy
         else if e = PortTransientJournal then
           cbind (foundation p loc) (\<lambda>f.
             if f \<noteq> FoundationReady then
               (case unready_domain f of None \<Rightarrow> result OperationUncertain | Some d \<Rightarrow> cret d)
             else
               call (pt_inspect p loc spec) (\<lambda>st. cret (domain_of_status st))
                 (\<lambda>e. if e = PortBusy then cret DomainBusy
                   else if is_unavailable e \<or> e = PortMigration then cret DomainUncertain
                   else result InternalFailure))
         else if is_unavailable e then cret DomainUnavailable
         else if e = PortMigration then cret DomainUncertain
         else result InternalFailure)"

text \<open>The observation constructors of \<open>lifecycle.py\<close> validate; a failure is caught by the loop.\<close>

definition observed :: "lifecycle_error + lifecycle_observation \<Rightarrow> ('w, lifecycle_observation) run" where
  "observed ob = (case ob of Inl _ \<Rightarrow> result InternalFailure | Inr x \<Rightarrow> cret x)"

definition observe ::
  "'w ports \<Rightarrow> lifecycle_intent \<Rightarrow> service_store_locator \<Rightarrow> rel_specification \<Rightarrow>
   rel_transition option \<Rightarrow> ('w, lifecycle_observation) run" where
  "observe p i loc target transition =
     cbind (foundation p loc) (\<lambda>f.
       if li_kind i = Materialise then
         cbind (if f = FoundationReady then domain_state p loc target else cret DomainNotObserved)
           (\<lambda>d. observed (materialise_observation (li_phase i) f d))
       else if f \<noteq> FoundationReady then
         observed (evolve_observation (li_phase i) f DomainNotObserved DomainNotObserved)
       else
         cbind (domain_state p loc target) (\<lambda>d.
           if d = DomainUnmaterialised \<or> d = DomainIncompatible then
             (case transition of
                None \<Rightarrow> result InternalFailure
              | Some t \<Rightarrow> cbind (domain_state p loc (tr_current t))
                  (\<lambda>s. observed (evolve_observation (li_phase i) f d s)))
           else observed (evolve_observation (li_phase i) f d DomainNotObserved)))"

section \<open>Physical actions\<close>

definition action_error :: "port_error \<Rightarrow> result_category" where
  "action_error e =
     (if e = PortBusy then StorageBusy else if e = PortContract then InternalFailure
      else OperationUncertain)"

definition apply_action ::
  "'w ports \<Rightarrow> recovery_action \<Rightarrow> service_store_locator \<Rightarrow> rel_specification \<Rightarrow>
   rel_transition option \<Rightarrow> ('w, migration_state option) run" where
  "apply_action p action loc target transition =
     (case (action, transition) of
        (PrepareFoundation, _) \<Rightarrow>
          call (pt_migrate p loc)
            (\<lambda>st. if mg_component st \<noteq> ServiceStoreComponent then result InternalFailure
                  else cret (Some st))
            (\<lambda>e. result (action_error e))
      | (ApplyInitialSchema, _) \<Rightarrow>
          call (pt_materialise p loc target) (\<lambda>_. cret None) (\<lambda>e. result (action_error e))
      | (ApplyTransition, Some t) \<Rightarrow>
          call (pt_evolve p loc t) (\<lambda>_. cret None) (\<lambda>e. result (action_error e))
      | _ \<Rightarrow> result InternalFailure)"

section \<open>The reconciliation loop\<close>

record loop_state =
  ls_attempted :: "recovery_action set"
  ls_foundation :: "migration_state option"
  ls_reconciled :: bool

definition initial_loop :: loop_state where
  "initial_loop = \<lparr>ls_attempted = {}, ls_foundation = None, ls_reconciled = False\<rparr>"

text \<open>The one bounded reconciliation of a foundation that turned dirty after it was prepared.\<close>

definition reconcile ::
  "'w ports \<Rightarrow> service_store_locator \<Rightarrow> rel_specification \<Rightarrow> rel_transition option \<Rightarrow>
   loop_state \<Rightarrow> ('w, loop_state) run" where
  "reconcile p loc target transition ls =
     cbind (apply_action p PrepareFoundation loc target transition) (\<lambda>st.
       case st of
         None \<Rightarrow> result OperationUncertain
       | Some _ \<Rightarrow> cret (ls\<lparr>ls_reconciled := True, ls_foundation := st\<rparr>))"

definition attempted_again ::
  "'w ports \<Rightarrow> recovery_action \<Rightarrow> lifecycle_observation \<Rightarrow> service_store_locator \<Rightarrow>
   rel_specification \<Rightarrow> rel_transition option \<Rightarrow> loop_state \<Rightarrow> ('w, loop_state) run" where
  "attempted_again p action ob loc target transition ls =
     (if action = PrepareFoundation \<and> ob_foundation ob = FoundationDirty then
        (case ls_foundation ls of
           None \<Rightarrow> result OperationUncertain
         | Some st \<Rightarrow>
             if mg_status st \<in> {StatusDirty, StatusReady} \<and> \<not> ls_reconciled ls
             then reconcile p loc target transition ls
             else result OperationUncertain)
      else result OperationUncertain)"

text \<open>One iteration of the \<open>while True\<close> loop: a result, or the state of the next iteration.\<close>

definition step ::
  "runtime \<Rightarrow> 'w ports \<Rightarrow> lifecycle_intent \<Rightarrow> service_store_locator \<Rightarrow> rel_specification \<Rightarrow>
   rel_transition option \<Rightarrow> loop_state \<Rightarrow> ('w, loop_state) run" where
  "step rt p i loc target transition ls =
     cbind (observe p i loc target transition) (\<lambda>ob.
       case plan_recovery i ob of
         Inl _ \<Rightarrow> result InternalFailure
       | Inr pl \<Rightarrow>
           if rp_action pl = DeferObservation then
             (case plan_category pl of
                None \<Rightarrow> result InternalFailure
              | Some c \<Rightarrow>
                  if ls_attempted ls \<noteq> {} \<and> c = StorageUnavailable then result OperationUncertain
                  else result c)
           else if rp_action pl = RecoveryRequiredAction then finalize_recovery rt p i
           else if rp_action pl = FinalizeRegistry then finalize_result rt p i loc
           else if rp_action pl = ReplayCompleteAction then result InternalFailure
           else if rp_action pl \<in> ls_attempted ls then
             attempted_again p (rp_action pl) ob loc target transition ls
           else
             cbind (apply_action p (rp_action pl) loc target transition) (\<lambda>st.
               cret (ls\<lparr>ls_attempted := insert (rp_action pl) (ls_attempted ls),
                       ls_foundation := (case st of None \<Rightarrow> ls_foundation ls | Some x \<Rightarrow> Some x)\<rparr>)))"

text \<open>Every iteration that goes on either attempts a new action or uses up the reconciliation.\<close>

definition loop_rank :: "loop_state \<Rightarrow> nat" where
  "loop_rank ls = 2 * card (- ls_attempted ls) + (if ls_reconciled ls then 0 else 1)"

lemma finite_actions: "finite (A :: recovery_action set)"
proof (rule finite_subset)
  show "A \<subseteq> set [PrepareFoundation, ApplyInitialSchema, ApplyTransition, FinalizeRegistry,
      ReplayCompleteAction, DeferObservation, RecoveryRequiredAction]"
  proof
    fix a assume "a \<in> A"
    show "a \<in> set [PrepareFoundation, ApplyInitialSchema, ApplyTransition, FinalizeRegistry,
        ReplayCompleteAction, DeferObservation, RecoveryRequiredAction]"
      by (cases a) simp_all
  qed
qed (rule finite_set)

lemma cbind_Inr_iff:
  "cbind m f w = (Inr y, w') \<longleftrightarrow> (\<exists>x t. m w = (Inr x, t) \<and> f x t = (Inr y, w'))"
  by (auto simp: cbind_def split: prod.splits sum.splits)

lemma call_Inr_iff:
  "call m f h w = (Inr y, w') \<longleftrightarrow>
     (\<exists>x t. m w = (Inr x, t) \<and> f x t = (Inr y, w')) \<or> (\<exists>e t. m w = (Inl e, t) \<and> h e t = (Inr y, w'))"
  by (auto simp: call_def split: prod.splits sum.splits)

lemmas run_Inr_iffs = cbind_Inr_iff call_Inr_iff

lemma terminal_write_never [simp]: "(terminal_write p operation w = (Inr y, w')) = False"
  by (auto simp: terminal_write_def run_Inr_iffs split: prod.splits sum.splits if_splits)

lemma finalize_never [simp]:
  "(finalize_recovery rt p i w = (Inr y, w')) = False"
  "(finalize_result rt p i loc w = (Inr z, w')) = False"
  by (auto simp: finalize_recovery_def finalize_result_def run_Inr_iffs Let_def split: if_splits)

lemma attempted_again_next:
  "attempted_again p a ob loc target transition ls w = (Inr ls', w') \<Longrightarrow>
     ls_attempted ls' = ls_attempted ls \<and> \<not> ls_reconciled ls \<and> ls_reconciled ls'"
  by (auto simp: attempted_again_def reconcile_def cbind_Inr_iff split: if_splits option.splits)

lemma step_cases:
  assumes "step rt p i loc target transition ls w = (Inr ls', w')"
  obtains ob pl t where "observe p i loc target transition w = (Inr ob, t)"
      "plan_recovery i ob = Inr pl" "rp_action pl \<notin> ls_attempted ls"
      "\<exists>st. apply_action p (rp_action pl) loc target transition t = (Inr st, w')"
      "ls_attempted ls' = insert (rp_action pl) (ls_attempted ls)" "ls_reconciled ls' = ls_reconciled ls"
  | ob pl t where "observe p i loc target transition w = (Inr ob, t)"
      "plan_recovery i ob = Inr pl" "rp_action pl \<in> ls_attempted ls"
      "attempted_again p (rp_action pl) ob loc target transition ls t = (Inr ls', w')"
proof -
  from assms obtain ob t where ob: "observe p i loc target transition w = (Inr ob, t)"
    and rest: "(case plan_recovery i ob of
         Inl _ \<Rightarrow> result InternalFailure
       | Inr pl \<Rightarrow>
           if rp_action pl = DeferObservation then
             (case plan_category pl of
                None \<Rightarrow> result InternalFailure
              | Some c \<Rightarrow>
                  if ls_attempted ls \<noteq> {} \<and> c = StorageUnavailable then result OperationUncertain
                  else result c)
           else if rp_action pl = RecoveryRequiredAction then finalize_recovery rt p i
           else if rp_action pl = FinalizeRegistry then finalize_result rt p i loc
           else if rp_action pl = ReplayCompleteAction then result InternalFailure
           else if rp_action pl \<in> ls_attempted ls then
             attempted_again p (rp_action pl) ob loc target transition ls
           else
             cbind (apply_action p (rp_action pl) loc target transition) (\<lambda>st.
               cret (ls\<lparr>ls_attempted := insert (rp_action pl) (ls_attempted ls),
                       ls_foundation := (case st of None \<Rightarrow> ls_foundation ls | Some x \<Rightarrow> Some x)\<rparr>))) t =
      (Inr ls', w')"
    unfolding step_def cbind_Inr_iff by blast
  then obtain pl where pl: "plan_recovery i ob = Inr pl" by (cases "plan_recovery i ob") auto
  show ?thesis
  proof (cases "rp_action pl \<in> ls_attempted ls")
    case True
    with rest pl have "attempted_again p (rp_action pl) ob loc target transition ls t = (Inr ls', w')"
      by (auto split: if_splits option.splits)
    with ob pl True that(2) show ?thesis by blast
  next
    case False
    with rest pl obtain st where "apply_action p (rp_action pl) loc target transition t = (Inr st, w')"
      "ls' = ls\<lparr>ls_attempted := insert (rp_action pl) (ls_attempted ls),
                ls_foundation := (case st of None \<Rightarrow> ls_foundation ls | Some x \<Rightarrow> Some x)\<rparr>"
      by (auto simp: cbind_Inr_iff split: if_splits option.splits)
    with ob pl False that(1) show ?thesis by auto
  qed
qed

lemma step_next:
  assumes "step rt p i loc target transition ls w = (Inr ls', w')"
  shows "(\<exists>a. a \<notin> ls_attempted ls \<and> ls_attempted ls' = insert a (ls_attempted ls) \<and>
      ls_reconciled ls' = ls_reconciled ls) \<or>
    (ls_attempted ls' = ls_attempted ls \<and> \<not> ls_reconciled ls \<and> ls_reconciled ls')"
  using assms
proof (cases rule: step_cases)
  case (2 ob pl t)
  then show ?thesis using attempted_again_next [OF 2(4)] by simp
qed blast

lemma step_rank:
  assumes "step rt p i loc target transition ls w = (Inr ls', w')"
  shows "loop_rank ls' < loop_rank ls"
  using step_next [OF assms]
proof
  assume "\<exists>a. a \<notin> ls_attempted ls \<and> ls_attempted ls' = insert a (ls_attempted ls) \<and>
      ls_reconciled ls' = ls_reconciled ls"
  then obtain a where a: "a \<notin> ls_attempted ls" "ls_attempted ls' = insert a (ls_attempted ls)"
    "ls_reconciled ls' = ls_reconciled ls" by blast
  have "- ls_attempted ls' = - ls_attempted ls - {a}" using a(2) by blast
  then have "card (- ls_attempted ls') < card (- ls_attempted ls)"
    using a(1) finite_actions by (metis ComplI card_Diff1_less)
  with a(3) show ?thesis by (simp add: loop_rank_def)
qed (simp add: loop_rank_def)

function reconcile_loop ::
  "runtime \<Rightarrow> 'w ports \<Rightarrow> lifecycle_intent \<Rightarrow> service_store_locator \<Rightarrow> rel_specification \<Rightarrow>
   rel_transition option \<Rightarrow> loop_state \<Rightarrow> 'w \<Rightarrow> execution_result \<times> 'w" where
  "reconcile_loop rt p i loc target transition ls w =
     (case step rt p i loc target transition ls w of
        (Inl res, w') \<Rightarrow> (res, w')
      | (Inr ls', w') \<Rightarrow> reconcile_loop rt p i loc target transition ls' w')"
  by pat_completeness auto

termination
  by (relation "measure (\<lambda>(rt, p, i, loc, target, transition, ls, w). loop_rank ls)")
    (auto dest!: sym [THEN step_rank])

declare reconcile_loop.simps [simp del]

text \<open>\<open>execute\<close> up to the loop: admission, the source check, the locator and the compiled shapes.\<close>

definition located_attempt ::
  "runtime \<Rightarrow> 'w ports \<Rightarrow> lifecycle_intent \<Rightarrow> service \<Rightarrow>
   ('w, lifecycle_intent \<times> service_store_locator \<times> rel_specification \<times> rel_transition option) run" where
  "located_attempt rt p i source =
     (if \<not> source_matches i source then finalize_recovery rt p i
      else
        cbind (locate p i source) (\<lambda>loc.
        cbind (compile_target i source) (\<lambda>shapes.
          cret (i, loc, fst shapes, snd shapes))))"

definition execute :: "runtime \<Rightarrow> 'w ports \<Rightarrow> lifecycle_command \<Rightarrow> 'w \<Rightarrow> execution_result \<times> 'w" where
  "execute rt p command w =
     (case cbind (admit rt p command) (\<lambda>admitted. located_attempt rt p (fst admitted) (snd admitted)) w of
        (Inl res, w') \<Rightarrow> (res, w')
      | (Inr (i, loc, target, transition), w') \<Rightarrow>
          reconcile_loop rt p i loc target transition initial_loop w')"

end
