(* ===== verification/Coordinator_Spec.thy ===== *)
theory Coordinator_Spec
  imports Coordinator
begin

text \<open>
  What a run of the coordinator may do to the world. \<open>moves R m\<close> says that every run of \<open>m\<close>
  moves the world within the relation \<open>R\<close>; it is closed under the combinators of the model, so
  a relation the ports respect is respected by the whole coordinator.
\<close>

section \<open>Runs that respect a relation\<close>

definition moves :: "('w \<Rightarrow> 'w \<Rightarrow> bool) \<Rightarrow> ('w \<Rightarrow> 'x \<times> 'w) \<Rightarrow> bool" where
  "moves R m \<longleftrightarrow> (\<forall>w x w'. m w = (x, w') \<longrightarrow> R w w')"

definition preorder :: "('w \<Rightarrow> 'w \<Rightarrow> bool) \<Rightarrow> bool" where
  "preorder R \<longleftrightarrow> (\<forall>w. R w w) \<and> (\<forall>u v w. R u v \<longrightarrow> R v w \<longrightarrow> R u w)"

lemma movesD: "moves R m \<Longrightarrow> m w = (x, w') \<Longrightarrow> R w w'"
  by (auto simp: moves_def)

lemma movesI: "(\<And>w x w'. m w = (x, w') \<Longrightarrow> R w w') \<Longrightarrow> moves R m"
  by (auto simp: moves_def)

lemma moves_mono: "moves R m \<Longrightarrow> (\<And>w w'. R w w' \<Longrightarrow> S w w') \<Longrightarrow> moves S m"
  by (auto simp: moves_def)

lemma preorderD: "preorder R \<Longrightarrow> R w w" "preorder R \<Longrightarrow> R u v \<Longrightarrow> R v w \<Longrightarrow> R u w"
  by (auto simp: preorder_def)

named_theorems moves_intros

lemma moves_end [moves_intros]:
  "preorder R \<Longrightarrow> moves R (cret x)" "preorder R \<Longrightarrow> moves R (result c)"
  "preorder R \<Longrightarrow> moves R (\<lambda>w. (y, w))"
  by (auto simp: moves_def preorder_def)

lemma moves_cbind [moves_intros]:
  assumes "preorder R" and "moves R m" and "\<And>x. moves R (f x)"
  shows "moves R (cbind m f)"
proof (rule movesI)
  fix w y w' assume run: "cbind m f w = (y, w')"
  obtain res w1 where m: "m w = (res, w1)" by (cases "m w")
  have "R w1 w'"
    using run m movesD [OF assms(3)] preorderD(1) [OF assms(1)] by (cases res) (auto simp: cbind_def)
  with movesD [OF assms(2) m] show "R w w'" by (rule preorderD(2) [OF assms(1)])
qed

lemma moves_call [moves_intros]:
  assumes "preorder R" and "moves R m" and "\<And>x. moves R (f x)" and "\<And>e. moves R (h e)"
  shows "moves R (call m f h)"
proof (rule movesI)
  fix w y w' assume run: "call m f h w = (y, w')"
  obtain res w1 where m: "m w = (res, w1)" by (cases "m w")
  have "R w1 w'"
    using run m movesD [OF assms(3)] movesD [OF assms(4)] by (cases res) (auto simp: call_def)
  with movesD [OF assms(2) m] show "R w w'" by (rule preorderD(2) [OF assms(1)])
qed

lemma moves_if [moves_intros]:
  "moves R m \<Longrightarrow> moves R n \<Longrightarrow> moves R (if b then m else n)"
  by simp

lemma moves_option [moves_intros]:
  "moves R m \<Longrightarrow> (\<And>x. moves R (f x)) \<Longrightarrow> moves R (case v of None \<Rightarrow> m | Some x \<Rightarrow> f x)"
  by (cases v) simp_all

lemma moves_sum [moves_intros]:
  "(\<And>e. moves R (g e)) \<Longrightarrow> (\<And>x. moves R (f x)) \<Longrightarrow>
   moves R (case v of Inl e \<Rightarrow> g e | Inr x \<Rightarrow> f x)"
  by (cases v) simp_all

lemma moves_suppressed [moves_intros]:
  "preorder R \<Longrightarrow> moves R m \<Longrightarrow> moves R (suppressed m)"
  unfolding suppressed_def by (intro moves_intros)

section \<open>The reading ports\<close>

text \<open>The ports that neither change a schema nor commit.\<close>

definition reads_move :: "('w \<Rightarrow> 'w \<Rightarrow> bool) \<Rightarrow> 'w ports \<Rightarrow> bool" where
  "reads_move R p \<longleftrightarrow> preorder R \<and> moves R (pt_info p) \<and> (\<forall>u. moves R (pt_allocate p u)) \<and>
     (\<forall>loc. moves R (pt_inspect_migration p loc)) \<and> (\<forall>loc. moves R (pt_migrate p loc)) \<and>
     (\<forall>loc spec. moves R (pt_inspect p loc spec)) \<and> moves R (pt_now p) \<and>
     moves R (pt_open p) \<and> moves R (pt_rollback p) \<and> moves R (pt_close p)"

lemma reads_moveD:
  assumes "reads_move R p"
  shows "preorder R" "moves R (pt_info p)" "moves R (pt_allocate p u)"
    "moves R (pt_inspect_migration p loc)" "moves R (pt_migrate p loc)"
    "moves R (pt_inspect p loc spec)" "moves R (pt_now p)" "moves R (pt_open p)"
    "moves R (pt_rollback p)" "moves R (pt_close p)"
  using assms by (simp_all add: reads_move_def)

text \<open>The registry transactions: \<open>op r r'\<close> says which new tables a commit may write.\<close>

definition commits_move ::
  "('w \<Rightarrow> 'w \<Rightarrow> bool) \<Rightarrow> 'w ports \<Rightarrow> (registry \<Rightarrow> registry \<Rightarrow> bool) \<Rightarrow> bool" where
  "commits_move R p op \<longleftrightarrow>
     (\<forall>w r w1 r' y w2. pt_open p w = (Inr r, w1) \<longrightarrow> op r r' \<longrightarrow> pt_commit p r' w1 = (y, w2) \<longrightarrow> R w1 w2)"

lemma rollback_close_moves [moves_intros]:
  "reads_move R p \<Longrightarrow> moves R (rollback_close p)"
  unfolding rollback_close_def by (intro moves_intros reads_moveD)

lemma open_commit_moves:
  assumes pre: "preorder R" and op: "moves R (pt_open p)" and h: "\<And>e. moves R (h e)"
    and f: "\<And>w r w1. pt_open p w = (Inr r, w1) \<Longrightarrow> (\<And>y w2. f r w1 = (y, w2) \<Longrightarrow> R w1 w2)"
  shows "moves R (call (pt_open p) f h)"
proof (rule movesI)
  fix w y w' assume run: "call (pt_open p) f h w = (y, w')"
  show "R w w'"
  proof (cases "pt_open p w")
    case (Pair res w1)
    note R1 = movesD [OF op Pair]
    show ?thesis
    proof (cases res)
      case (Inl e)
      then have "h e w1 = (y, w')" using run Pair by (simp add: call_def)
      with R1 show ?thesis using movesD [OF h] preorderD(2) [OF pre] by blast
    next
      case (Inr r)
      then have "f r w1 = (y, w')" using run Pair by (simp add: call_def)
      with R1 Inr Pair show ?thesis using f preorderD(2) [OF pre] by blast
    qed
  qed
qed

text \<open>A commit and what follows it.\<close>

lemma commit_moves:
  assumes run: "call (pt_commit p r') f h w1 = (y, w')" and pre: "preorder R"
    and c: "\<And>z w2. pt_commit p r' w1 = (z, w2) \<Longrightarrow> R w1 w2"
    and f: "\<And>x. moves R (f x)" and h: "\<And>e. moves R (h e)"
  shows "R w1 w'"
proof -
  obtain z w2 where z: "pt_commit p r' w1 = (z, w2)" by (cases "pt_commit p r' w1")
  have "R w2 w'"
    using run z movesD [OF f] movesD [OF h] by (cases z) (auto simp: call_def)
  with c [OF z] show ?thesis by (rule preorderD(2) [OF pre])
qed

lemma terminal_write_moves:
  assumes reads: "reads_move R p" and com: "commits_move R p op"
    and step: "\<And>r out r'. operation r = (Inr out, r') \<Longrightarrow> op r r'"
  shows "moves R (terminal_write p operation)"
  unfolding terminal_write_def
proof (rule open_commit_moves)
  note d = reads_moveD [OF reads]
  fix w r w1 y w2
  assume op: "pt_open p w = (Inr r, w1)"
    and run: "(case operation r of
          (Inl e, _) \<Rightarrow> cbind (rollback_close p) (\<lambda>_. result (terminal_write_error (port_error_of e)))
        | (Inr terminal, r') \<Rightarrow>
            if \<not> is_terminal_claim terminal
            then cbind (rollback_close p) (\<lambda>_. result InternalFailure)
            else
              call (pt_commit p r')
                (\<lambda>_. call (pt_close p)
                   (\<lambda>_. \<lambda>w. (Inl (registry_outcome terminal), w))
                   (\<lambda>_. result OperationUncertain))
                (\<lambda>_. cbind (suppressed (pt_close p)) (\<lambda>_. result OperationUncertain))) w1 = (y, w2)"
  have undo: "moves R (cbind (rollback_close p) (\<lambda>_. result c))" for c
    by (intro moves_intros d reads)
  show "R w1 w2"
  proof (cases "operation r")
    case (Pair res r')
    show ?thesis
    proof (cases res)
      case (Inl e)
      with run Pair show ?thesis using movesD [OF undo] by simp
    next
      case (Inr out)
      show ?thesis
      proof (cases "is_terminal_claim out")
        case False
        with run Pair Inr show ?thesis using movesD [OF undo] by simp
      next
        case True
        have com1: "R w1 v" if "pt_commit p r' w1 = (z, v)" for z v
          using com op step [of r out r'] Pair Inr that by (auto simp: commits_move_def)
        from run Pair Inr True have
          "call (pt_commit p r')
                (\<lambda>_. call (pt_close p)
                   (\<lambda>_. \<lambda>w. (Inl (registry_outcome out), w))
                   (\<lambda>_. result OperationUncertain))
                (\<lambda>_. cbind (suppressed (pt_close p)) (\<lambda>_. result OperationUncertain)) w1 = (y, w2)"
          by simp
        then show ?thesis
          by (rule commit_moves [OF _ d(1)]) (blast intro: com1, (intro moves_intros d)+)
      qed
    qed
  qed
qed (use reads_moveD [OF reads] in \<open>auto intro: moves_intros\<close>)

section \<open>Admission, observation and the loop\<close>

lemma close_nonmutating_moves [moves_intros]:
  "reads_move R p \<Longrightarrow> moves R (close_nonmutating p res)"
  unfolding close_nonmutating_def by (intro moves_intros reads_moveD)

lemma finalize_recovery_moves:
  assumes "reads_move R p" and "commits_move R p op"
    and "\<And>r out r' t. finalize_recovery_required rt i t r = (Inr out, r') \<Longrightarrow> op r r'"
  shows "moves R (finalize_recovery rt p i)"
  unfolding finalize_recovery_def
  by (intro moves_intros reads_moveD [OF assms(1)] terminal_write_moves [OF assms(1,2)] assms(3))

lemma finalize_result_moves:
  assumes "reads_move R p" and "commits_move R p op"
    and "\<And>r out r' t st. finalize_completed rt (if li_kind i = Materialise then MaterialiseCompletion i t st
      else EvolveCompletion i t) r = (Inr out, r') \<Longrightarrow> op r r'"
  shows "moves R (finalize_result rt p i loc)"
  unfolding finalize_result_def Let_def
  by (intro moves_intros reads_moveD [OF assms(1)] terminal_write_moves [OF assms(1,2)] assms(3))

lemma admit_moves:
  assumes reads: "reads_move R p" and com: "commits_move R p op"
    and adm: "\<And>r out r'. resolve_or_admit rt command r = (Inr out, r') \<Longrightarrow> op r r'"
    and rec: "\<And>i r out r' t. finalize_recovery_required rt i t r = (Inr out, r') \<Longrightarrow> op r r'"
  shows "moves R (admit rt p command)"
  unfolding admit_def
proof (rule open_commit_moves)
  note d = reads_moveD [OF reads]
  fix w r w1 y w2
  assume op: "pt_open p w = (Inr r, w1)"
    and run: "(case resolve_or_admit rt command r of
          (Inl e, _) \<Rightarrow> cbind (rollback_close p) (\<lambda>_. result (before_commit_error (port_error_of e)))
        | (Inr outcome, r') \<Rightarrow>
            (case outcome of
               PreparedLifecycleClaim i \<Rightarrow>
                 (case get_service rt (cf_principal_id (command_fields command))
                     (cf_service_id (command_fields command)) r' of
                    (Inl e, _) \<Rightarrow>
                      cbind (rollback_close p) (\<lambda>_. result (before_commit_error (port_error_of e)))
                  | (Inr source, _) \<Rightarrow> commit_prepared rt p r' i source)
             | _ \<Rightarrow> close_nonmutating p (registry_outcome outcome))) w1 = (y, w2)"
  obtain res r' where ra: "resolve_or_admit rt command r = (res, r')"
    by (cases "resolve_or_admit rt command r")
  have undo: "moves R (cbind (rollback_close p) (\<lambda>_. result c))" for c
    by (intro moves_intros d reads)
  have close: "moves R (close_nonmutating p x)" for x by (intro moves_intros reads)
  show "R w1 w2"
  proof (cases "\<exists>i. res = Inr (PreparedLifecycleClaim i)")
    case False
    with run ra show ?thesis
      using movesD [OF undo] movesD [OF close]
      by (cases res) (auto split: lifecycle_outcome.splits)
  next
    case True
    then obtain i where i: "res = Inr (PreparedLifecycleClaim i)" ..
    obtain found x where gs: "get_service rt (cf_principal_id (command_fields command))
        (cf_service_id (command_fields command)) r' = (found, x)"
      by (cases "get_service rt (cf_principal_id (command_fields command))
        (cf_service_id (command_fields command)) r'")
    show ?thesis
    proof (cases found)
      case (Inl e)
      with run ra i gs show ?thesis using movesD [OF undo] by simp
    next
      case (Inr source)
      with run ra i gs have cp: "commit_prepared rt p r' i source w1 = (y, w2)" by simp
      have com1: "R w1 v" if "pt_commit p r' w1 = (z, v)" for z v
        using com op adm [of r] ra i that by (auto simp: commits_move_def)
      have fin: "moves R (finalize_recovery rt p i)" by (rule finalize_recovery_moves [OF reads com rec])
      show ?thesis
        by (rule commit_moves [OF cp [unfolded commit_prepared_def] d(1)])
          (blast intro: com1, (intro moves_intros d fin)+)
    qed
  qed
qed (use reads_moveD [OF reads] in \<open>auto intro: moves_intros\<close>)

lemma foundation_moves [moves_intros]:
  assumes "reads_move R p"
  shows "moves R (foundation p loc)"
  unfolding foundation_def reread_def reconciled_state_def foundation_state_def
  by (intro moves_intros reads_moveD [OF assms])

lemma domain_state_moves [moves_intros]:
  "reads_move R p \<Longrightarrow> moves R (domain_state p loc spec)"
  unfolding domain_state_def by (intro moves_intros reads_moveD)

lemma observe_moves [moves_intros]:
  "reads_move R p \<Longrightarrow> moves R (observe p i loc target transition)"
  unfolding observe_def observed_def by (intro moves_intros reads_moveD)

lemma locate_moves: "reads_move R p \<Longrightarrow> moves R (locate p i s)"
  unfolding locate_def by (intro moves_intros reads_moveD)

lemma compile_target_moves: "preorder R \<Longrightarrow> moves R (compile_target i s)"
  unfolding compile_target_def by (intro moves_intros)

lemma reconcile_loop_moves:
  assumes pre: "preorder R" and st: "\<And>ls. moves R (step rt p i loc target transition ls)"
  shows "moves R (reconcile_loop rt p i loc target transition ls)"
proof (induction ls rule: measure_induct_rule [of loop_rank])
  case (less ls)
  show ?case
  proof (rule movesI)
    fix w res w' assume run: "reconcile_loop rt p i loc target transition ls w = (res, w')"
    obtain x w1 where x: "step rt p i loc target transition ls w = (x, w1)"
      by (cases "step rt p i loc target transition ls w")
    note R1 = movesD [OF st x]
    show "R w w'"
    proof (cases x)
      case (Inl e)
      then have "w' = w1" using run x by (subst (asm) reconcile_loop.simps) simp
      with R1 show ?thesis by simp
    next
      case (Inr ls')
      then have next_run: "reconcile_loop rt p i loc target transition ls' w1 = (res, w')"
        using run x by (subst (asm) reconcile_loop.simps) simp
      have "R w1 w'"
        using movesD [OF less.IH [OF step_rank [OF x [unfolded Inr]]] next_run] .
      with R1 show ?thesis by (rule preorderD(2) [OF pre])
    qed
  qed
qed

text \<open>The whole attempt, for a relation that every port and every commit respects.\<close>

definition actions_move :: "('w \<Rightarrow> 'w \<Rightarrow> bool) \<Rightarrow> 'w ports \<Rightarrow> bool" where
  "actions_move R p \<longleftrightarrow> (\<forall>loc spec. moves R (pt_materialise p loc spec)) \<and>
     (\<forall>loc t. moves R (pt_evolve p loc t))"

lemma apply_action_moves:
  assumes "reads_move R p" and "actions_move R p"
  shows "moves R (apply_action p action loc target transition)"
  using assms(2)
  by (cases action; cases transition)
    (auto simp: apply_action_def actions_move_def intro!: moves_intros reads_moveD [OF assms(1)])

lemma step_moves:
  assumes reads: "reads_move R p" and act: "actions_move R p"
    and fin: "moves R (finalize_recovery rt p i :: ('w, loop_state) run)"
      "moves R (finalize_result rt p i loc :: ('w, loop_state) run)"
  shows "moves R (step rt p i loc target transition ls)"
  unfolding step_def attempted_again_def reconcile_def
  by (intro moves_intros reads_moveD [OF reads] reads fin apply_action_moves [OF reads act])

text \<open>The commits a run makes: those of the three registry methods the coordinator uses.\<close>

definition registry_writes :: "runtime \<Rightarrow> registry \<Rightarrow> registry \<Rightarrow> bool" where
  "registry_writes rt r r' \<longleftrightarrow>
     (\<exists>command out. resolve_or_admit rt command r = (Inr out, r')) \<or>
     (\<exists>i t out. finalize_recovery_required rt i t r = (Inr out, r')) \<or>
     (\<exists>co out. finalize_completed rt co r = (Inr out, r'))"

lemma execute_moves:
  assumes reads: "reads_move R p" and com: "commits_move R p (registry_writes rt)"
    and act: "actions_move R p"
  shows "moves R (execute rt p command)"
proof (rule movesI)
  fix w res w' assume run: "execute rt p command w = (res, w')"
  note pre = reads_moveD(1) [OF reads]
  have rec: "moves R (finalize_recovery rt p i)" for i
    by (rule finalize_recovery_moves [OF reads com]) (auto simp: registry_writes_def)
  have fin: "moves R (finalize_result rt p i loc)" for i loc
    by (rule finalize_result_moves [OF reads com]) (auto simp: registry_writes_def)
  have adm: "moves R (admit rt p command)"
    by (rule admit_moves [OF reads com]) (auto simp: registry_writes_def)
  have loc: "moves R (located_attempt rt p i s)" for i s
    unfolding located_attempt_def
    by (intro moves_intros locate_moves compile_target_moves rec pre reads)
  let ?m = "cbind (admit rt p command) (\<lambda>admitted. located_attempt rt p (fst admitted) (snd admitted))"
  obtain x w1 where x: "?m w = (x, w1)" by (cases "?m w")
  have "moves R ?m" by (intro moves_intros pre adm loc)
  from movesD [OF this x] have R1: "R w w1" .
  show "R w w'"
  proof (cases x)
    case (Inl e)
    then show ?thesis using run x R1 by (simp add: execute_def)
  next
    case (Inr a)
    obtain i l target transition where a: "a = (i, l, target, transition)" by (cases a)
    have "reconcile_loop rt p i l target transition initial_loop w1 = (res, w')"
      using run x Inr a by (simp add: execute_def)
    moreover have "moves R (reconcile_loop rt p i l target transition initial_loop)"
      by (rule reconcile_loop_moves [OF pre]) (rule step_moves [OF reads act rec fin])
    ultimately have "R w1 w'" by (blast dest: movesD)
    with R1 show ?thesis by (rule preorderD(2) [OF pre])
  qed
qed

section \<open>What a completed result rests on\<close>

text \<open>\<open>yields G Q m\<close>: from a world in \<open>G\<close>, a run of \<open>m\<close> ends in \<open>G\<close>, and if it reports a
  completed service the world satisfies \<open>Q\<close>.\<close>

definition yields ::
  "('w \<Rightarrow> bool) \<Rightarrow> (service \<Rightarrow> 'w \<Rightarrow> bool) \<Rightarrow> ('w, 'a) run \<Rightarrow> bool" where
  "yields G Q m \<longleftrightarrow> (\<forall>w x w'. G w \<longrightarrow> m w = (x, w') \<longrightarrow>
     G w' \<and> (\<forall>s. x = Inl (ExecutionCompleted s) \<longrightarrow> Q s w'))"

definition stays :: "('w \<Rightarrow> bool) \<Rightarrow> ('w \<Rightarrow> 'x \<times> 'w) \<Rightarrow> bool" where
  "stays G m \<longleftrightarrow> (\<forall>w x w'. G w \<longrightarrow> m w = (x, w') \<longrightarrow> G w')"

named_theorems yield_intros

lemma yieldsD: "yields G Q m \<Longrightarrow> G w \<Longrightarrow> m w = (x, w') \<Longrightarrow> G w'"
  "yields G Q m \<Longrightarrow> G w \<Longrightarrow> m w = (Inl (ExecutionCompleted s), w') \<Longrightarrow> Q s w'"
  by (auto simp: yields_def)

lemma yields_end [yield_intros]: "yields G Q (cret x)" "yields G Q (result c)"
  by (auto simp: yields_def)

lemma yields_cbind [yield_intros]:
  assumes "yields G Q m" and "\<And>x. yields G Q (f x)"
  shows "yields G Q (cbind m f)"
  unfolding yields_def
proof (intro allI impI)
  fix w y w' assume G: "G w" and run: "cbind m f w = (y, w')"
  obtain res w1 where m: "m w = (res, w1)" by (cases "m w")
  note G1 = yieldsD(1) [OF assms(1) G m]
  show "G w' \<and> (\<forall>s. y = Inl (ExecutionCompleted s) \<longrightarrow> Q s w')"
  proof (cases res)
    case (Inl e)
    then have "y = Inl e" "w' = w1" using run m by (simp_all add: cbind_def)
    with G1 yieldsD(2) [OF assms(1) G] m Inl show ?thesis by auto
  next
    case (Inr x)
    then have "f x w1 = (y, w')" using run m by (simp add: cbind_def)
    with G1 yieldsD [OF assms(2)] show ?thesis by blast
  qed
qed

lemma yields_call [yield_intros]:
  assumes "stays G m" and "\<And>x. yields G Q (f x)" and "\<And>e. yields G Q (h e)"
  shows "yields G Q (call m f h)"
  unfolding yields_def
proof (intro allI impI)
  fix w y w' assume G: "G w" and run: "call m f h w = (y, w')"
  obtain res w1 where m: "m w = (res, w1)" by (cases "m w")
  have G1: "G w1" using assms(1) G m by (auto simp: stays_def)
  show "G w' \<and> (\<forall>s. y = Inl (ExecutionCompleted s) \<longrightarrow> Q s w')"
  proof (cases res)
    case (Inl e)
    then have "h e w1 = (y, w')" using run m by (simp add: call_def)
    with G1 yieldsD [OF assms(3)] show ?thesis by blast
  next
    case (Inr x)
    then have "f x w1 = (y, w')" using run m by (simp add: call_def)
    with G1 yieldsD [OF assms(2)] show ?thesis by blast
  qed
qed

lemma yields_cases [yield_intros]:
  "yields G Q m \<Longrightarrow> yields G Q n \<Longrightarrow> yields G Q (if b then m else n)"
  "yields G Q m \<Longrightarrow> (\<And>x. yields G Q (f x)) \<Longrightarrow> yields G Q (case v of None \<Rightarrow> m | Some x \<Rightarrow> f x)"
  "(\<And>e. yields G Q (g e)) \<Longrightarrow> (\<And>x. yields G Q (k x)) \<Longrightarrow>
   yields G Q (case u of Inl e \<Rightarrow> g e | Inr x \<Rightarrow> k x)"
  by (simp, cases v, simp_all, cases u, simp_all)

lemma yields_suppressed [yield_intros]: "stays G m \<Longrightarrow> yields G Q (suppressed m)"
  unfolding suppressed_def by (intro yield_intros)

text \<open>The ports, for a property of the world that they preserve.\<close>

lemma reads_stay:
  assumes "reads_move (\<lambda>w w'. G w \<longrightarrow> G w') p"
  shows "stays G (pt_info p)" "stays G (pt_allocate p u)" "stays G (pt_inspect_migration p loc)"
    "stays G (pt_migrate p loc)" "stays G (pt_inspect p loc spec)" "stays G (pt_now p)"
    "stays G (pt_open p)" "stays G (pt_rollback p)" "stays G (pt_close p)"
  using reads_moveD [OF assms] by (simp_all add: stays_def moves_def)

lemma rollback_close_yields [yield_intros]:
  "reads_move (\<lambda>w w'. G w \<longrightarrow> G w') p \<Longrightarrow> yields G Q (rollback_close p)"
  unfolding rollback_close_def by (intro yield_intros reads_stay)

lemma observe_yields:
  assumes "reads_move (\<lambda>w w'. G w \<longrightarrow> G w') p"
  shows "yields G Q (observe p i loc target transition)"
  unfolding observe_def observed_def domain_state_def foundation_def reread_def reconciled_state_def
    foundation_state_def
  by (intro yield_intros reads_stay [OF assms])

lemma locate_yields:
  assumes "reads_move (\<lambda>w w'. G w \<longrightarrow> G w') p"
  shows "yields G Q (locate p i s)"
  unfolding locate_def by (intro yield_intros reads_stay [OF assms])

lemma compile_target_yields: "yields G Q (compile_target i s)"
  unfolding compile_target_def by (intro yield_intros)

lemma apply_action_yields:
  assumes "reads_move (\<lambda>w w'. G w \<longrightarrow> G w') p" and "actions_move (\<lambda>w w'. G w \<longrightarrow> G w') p"
  shows "yields G Q (apply_action p action loc target transition)"
proof -
  have act: "stays G (pt_materialise p loc target)" "\<And>t. stays G (pt_evolve p loc t)"
    using assms(2) by (simp_all add: actions_move_def stays_def moves_def)
  show ?thesis
    unfolding apply_action_def
    by (cases action; cases transition; simp only: prod.case recovery_action.case option.case;
        intro yield_intros reads_stay [OF assms(1)] act)
qed

lemma step_yields:
  assumes reads: "reads_move (\<lambda>w w'. G w \<longrightarrow> G w') p" and act: "actions_move (\<lambda>w w'. G w \<longrightarrow> G w') p"
    and fin: "yields G Q (finalize_recovery rt p i :: ('w, loop_state) run)"
      "yields G Q (finalize_result rt p i loc :: ('w, loop_state) run)"
  shows "yields G Q (step rt p i loc target transition ls)"
  unfolding step_def attempted_again_def reconcile_def
  by (intro yield_intros observe_yields [OF reads] fin apply_action_yields [OF reads act])

lemma reconcile_loop_yields:
  assumes st: "\<And>ls. yields G Q (step rt p i loc target transition ls)" and G: "G w"
    and run: "reconcile_loop rt p i loc target transition ls w = (ExecutionCompleted s, w')"
  shows "Q s w'"
  using G run
proof (induction ls arbitrary: w rule: measure_induct_rule [of loop_rank])
  case (less ls)
  obtain x w1 where x: "step rt p i loc target transition ls w = (x, w1)"
    by (cases "step rt p i loc target transition ls w")
  show ?case
  proof (cases x)
    case (Inl e)
    then have "e = ExecutionCompleted s" "w' = w1"
      using less.prems(2) x by (subst (asm) reconcile_loop.simps, simp)+
    with yieldsD(2) [OF st less.prems(1)] x Inl show ?thesis by simp
  next
    case (Inr ls')
    then have "reconcile_loop rt p i loc target transition ls' w1 = (ExecutionCompleted s, w')"
      using less.prems(2) x by (subst (asm) reconcile_loop.simps) simp
    then show ?thesis
      using less.IH [OF step_rank [OF x [unfolded Inr]]] yieldsD(1) [OF st less.prems(1) x] by blast
  qed
qed

end
