(* ===== verification/Coordinator_Registry.thy ===== *)
theory Coordinator_Registry
  imports Coordinator_Spec
begin

text \<open>
  The coordinator over a registry that other processes use too. \<open>sound_ports\<close> is what the model
  asks of the adapters: between the coordinator's own transactions the tables only change by
  steps of the registry, a begun transaction sees the committed tables, and a commit that
  returns wrote them. Then every attempt is a history of the registry, and a completed result
  is one the ledger holds.
\<close>

definition history :: "runtime \<Rightarrow> ('w \<Rightarrow> registry) \<Rightarrow> 'w \<Rightarrow> 'w \<Rightarrow> bool" where
  "history rt reg w w' \<longleftrightarrow> registry_steps rt (reg w) (reg w')"

definition sound_ports :: "runtime \<Rightarrow> ('w \<Rightarrow> registry) \<Rightarrow> 'w ports \<Rightarrow> bool" where
  "sound_ports rt reg p \<longleftrightarrow>
     reads_move (history rt reg) p \<and> actions_move (history rt reg) p \<and>
     (\<forall>w r w'. pt_open p w = (Inr r, w') \<longrightarrow> reg w' = r) \<and>
     (\<forall>r w y w'. pt_commit p r w = (y, w') \<longrightarrow> reg w' = r \<or> reg w' = reg w \<and> y \<noteq> Inr ())"

lemma sound_portsD:
  assumes "sound_ports rt reg p"
  shows "reads_move (history rt reg) p" "actions_move (history rt reg) p"
    "\<And>w r w'. pt_open p w = (Inr r, w') \<Longrightarrow> reg w' = r"
    "\<And>r w y w'. pt_commit p r w = (y, w') \<Longrightarrow> reg w' = r \<or> reg w' = reg w \<and> y \<noteq> Inr ()"
  using assms by (simp_all add: sound_ports_def)

lemma history_preorder: "preorder (history rt reg)"
  by (auto simp: preorder_def history_def intro: registry_steps.none registry_steps_trans)

lemma writes_are_steps: "registry_writes rt r r' \<Longrightarrow> registry_steps rt r r'"
  unfolding registry_writes_def
  by (auto intro: registry_steps_one registry_step.admit registry_step.finalize registry_step.poison)

lemma sound_commits:
  assumes "sound_ports rt reg p"
  shows "commits_move (history rt reg) p (registry_writes rt)"
  unfolding commits_move_def history_def
proof (intro allI impI)
  fix w r w1 r' y w2
  assume "pt_open p w = (Inr r, w1)" "registry_writes rt r r'" "pt_commit p r' w1 = (y, w2)"
  then show "registry_steps rt (reg w1) (reg w2)"
    using sound_portsD(3,4) [OF assms] writes_are_steps by (metis registry_steps.none)
qed

lemma execute_history:
  assumes "sound_ports rt reg p" and "execute rt p command w = (res, w')"
  shows "registry_steps rt (reg w) (reg w')"
  using movesD [OF execute_moves [OF sound_portsD(1) [OF assms(1)] sound_commits [OF assms(1)]
      sound_portsD(2) [OF assms(1)]] assms(2)]
  by (simp add: history_def)

section \<open>Recorded results\<close>

text \<open>The ledger holds the service as the result of the key, or a purge has erased it since.\<close>

definition recorded :: "pystr \<Rightarrow> pystr \<Rightarrow> service \<Rightarrow> registry \<Rightarrow> bool" where
  "recorded p k s r \<longleftrightarrow> (\<exists>c \<in> set (rg_claims r). cl_principal_id c = p \<and> cl_idempotency_key c = k \<and>
     (cl_phase c = PhaseCompleted \<and> cl_result c = Some (ServiceDocument s) \<or>
      cl_phase c = PhaseTombstoned))"

lemma recorded_steps:
  assumes rec: "recorded p k s r" and reach: "registry_reachable rt r" and st: "registry_steps rt r r'"
  shows "recorded p k s r'"
proof -
  have "claims_evolve (rg_claims r) (rg_claims r')"
    using registry_steps_evolve [OF st reachable_inv [OF reach]] by (simp add: registry_evolves_def)
  with rec obtain c d where c: "cl_principal_id c = p" "cl_idempotency_key c = k"
      "cl_phase c = PhaseCompleted \<and> cl_result c = Some (ServiceDocument s) \<or> cl_phase c = PhaseTombstoned"
    and d: "d \<in> set (rg_claims r')" "claim_evolves c d"
    unfolding recorded_def claims_evolve_def by blast
  then have "cl_principal_id d = p \<and> cl_idempotency_key d = k \<and>
      (cl_phase d = PhaseCompleted \<and> cl_result d = Some (ServiceDocument s) \<or> cl_phase d = PhaseTombstoned)"
    by (auto simp: claim_evolves_def claim_key_def)
  with d(1) show ?thesis unfolding recorded_def by blast
qed

lemma decoded_completed:
  "decode_lifecycle_intent rt c r = (Inr i, r') \<Longrightarrow> li_phase i \<noteq> Prepared \<Longrightarrow>
   li_phase i \<noteq> RecoveryRequiredPhase \<Longrightarrow> cl_phase c = PhaseCompleted \<and>
     cf_principal_id (li_fields i) = cl_principal_id c"
  by (cases "cl_phase c") (auto simp: decode_lifecycle_intent_run)

lemma terminal_or_prepared_recorded:
  assumes "terminal_or_prepared rt i r = (Inr (CompletedLifecycleClaim j s), r')"
  shows "recorded (cf_principal_id (li_fields i)) (cf_idempotency_key (li_fields i)) s r"
proof -
  from assms obtain c stored where c: "claim_lookup (cf_principal_id (li_fields i))
        (cf_idempotency_key (li_fields i)) r = Some c"
    and st: "decode_lifecycle_intent rt c r = (Inr stored, r)"
    and rest: "(if li_phase stored = Prepared then
               rbind (rcheck (stored = i)) (\<lambda>_. rret (PreparedLifecycleClaim stored))
             else if li_phase stored = RecoveryRequiredPhase then
               rret (RecoveryRequiredLifecycleClaim stored)
             else
               rbind (decode_result rt (cl_result c) (cf_principal_id (li_fields i))
                 (cf_service_id (li_fields i))) (\<lambda>s.
               rbind (rcheck (completed_lifecycle_ok stored s)) (\<lambda>_.
                 rret (CompletedLifecycleClaim stored s)))) r = (Inr (CompletedLifecycleClaim j s), r')"
    unfolding terminal_or_prepared_def
    by (auto simp: rbind_Inr_iff rcheck_Inr_iff dest: decode_reads split: option.splits)
  from rest have "li_phase stored \<noteq> Prepared" "li_phase stored \<noteq> RecoveryRequiredPhase"
    "cl_result c = Some (ServiceDocument s)"
    by (auto simp: rbind_Inr_iff rcheck_Inr_iff decode_result_run split: if_splits)
  with decoded_completed [OF st] claim_lookup_Some [OF c] show ?thesis
    unfolding recorded_def by blast
qed

lemma finalize_completed_recorded:
  assumes "finalize_completed rt co r = (Inr (CompletedLifecycleClaim j s), r')"
  shows "recorded (cf_principal_id (li_fields (co_intent co)))
    (cf_idempotency_key (li_fields (co_intent co))) s r'"
  using assms
proof (cases rule: finalize_completed_cases)
  case terminal
  show ?thesis using terminal_or_prepared_recorded [OF terminal(3)] terminal(1) by simp
next
  case (recovery c)
  then show ?thesis using mark_recovery_run [OF recovery(4)] by simp
next
  case (stale c s0)
  then show ?thesis using mark_recovery_run [OF stale(5)] by simp
next
  case (completed c s0 r1)
  let ?i = "co_intent co"
  have "claim_lookup (cf_principal_id (li_fields ?i)) (cf_idempotency_key (li_fields ?i)) r1 = Some c"
    using completed(4) save_service_claims [OF completed(7)] by (simp add: claim_lookup_def)
  from claim_lookup_Some [OF complete_row_terminal(1) [OF completed(1,3,2) this completed(8,9,11)]]
  show ?thesis using completed(10) unfolding recorded_def by fastforce
qed

lemma finalize_recovery_recorded:
  assumes "finalize_recovery_required rt i t r = (Inr (CompletedLifecycleClaim j s), r')"
  shows "recorded (cf_principal_id (li_fields i)) (cf_idempotency_key (li_fields i)) s r'"
proof -
  from assms obtain existing r0 where ex: "terminal_or_prepared rt i r = (Inr existing, r0)"
    and rest: "(if is_terminal_claim existing then rret existing else mark_recovery rt i t) r0 =
      (Inr (CompletedLifecycleClaim j s), r')"
    by (auto simp: finalize_recovery_required_def rbind_Inr_iff)
  show ?thesis
  proof (cases "is_terminal_claim existing")
    case True
    then have "existing = CompletedLifecycleClaim j s" "r0 = r'" using rest by simp_all
    moreover from ex have "r0 = r"
      by (cases rule: terminal_or_prepared_cases) simp_all
    ultimately show ?thesis using ex terminal_or_prepared_recorded by simp
  next
    case False
    then show ?thesis using rest by (auto dest: mark_recovery_run)
  qed
qed

lemma resolve_or_admit_recorded:
  assumes "resolve_or_admit rt command r = (Inr (CompletedLifecycleClaim i s), r')"
  shows "r' = r \<and> recorded (cf_principal_id (command_fields command))
    (cf_idempotency_key (command_fields command)) s r"
  using assms
proof (cases rule: resolve_or_admit_cases)
  case (existing c)
  then obtain j where j: "decode_lifecycle_intent rt c r = (Inr j, r)" "li_phase j \<noteq> Prepared"
      "li_phase j \<noteq> RecoveryRequiredPhase" "r' = r"
    and res: "decode_result rt (cl_result c) (cf_principal_id (li_fields j))
      (cf_service_id (li_fields j)) r = (Inr s, r)"
    by (auto simp: existing_lifecycle_claim_run split: if_splits)
  from res have "cl_result c = Some (ServiceDocument s)" by (simp add: decode_result_run)
  with decoded_completed [OF j(1-3)] claim_lookup_Some [OF existing(1)] j(4) show ?thesis
    unfolding recorded_def by blast
qed simp_all

definition intent_of :: "lifecycle_command \<Rightarrow> lifecycle_intent \<Rightarrow> bool" where
  "intent_of command i \<longleftrightarrow> cf_principal_id (li_fields i) = cf_principal_id (command_fields command) \<and>
     cf_idempotency_key (li_fields i) = cf_idempotency_key (command_fields command)"

lemma decoded_key:
  "decode_lifecycle_intent rt c r = (Inr i, r') \<Longrightarrow> cf_principal_id (li_fields i) = cl_principal_id c \<and>
     cf_idempotency_key (li_fields i) = cl_idempotency_key c"
  by (auto simp: decode_lifecycle_intent_run)

lemma resolve_or_admit_key:
  assumes "resolve_or_admit rt command r = (Inr (PreparedLifecycleClaim i), r')"
  shows "intent_of command i"
  using assms
proof (cases rule: resolve_or_admit_cases)
  case (existing c)
  then have "decode_lifecycle_intent rt c r = (Inr i, r)"
    by (auto simp: existing_lifecycle_claim_run split: if_splits)
  with decoded_key [OF this] claim_lookup_Some [OF existing(1)] show ?thesis
    by (simp add: intent_of_def)
next
  case (admitted s target j)
  then show ?thesis using prepare_intent_ok [OF admitted(9)] by (simp add: intent_of_def)
qed simp_all

section \<open>Where a completed result comes from\<close>

lemma call_Inl_iff:
  "call m f h w = (Inl e, w') \<longleftrightarrow> (\<exists>x t. m w = (Inr x, t) \<and> f x t = (Inl e, w')) \<or>
     (\<exists>x t. m w = (Inl x, t) \<and> h x t = (Inl e, w'))"
  by (auto simp: call_def split: prod.splits sum.splits)

lemma cbind_Inl_iff:
  "cbind m f w = (Inl e, w') \<longleftrightarrow> m w = (Inl e, w') \<or> (\<exists>x t. m w = (Inr x, t) \<and> f x t = (Inl e, w'))"
  by (auto simp: cbind_def split: prod.splits sum.splits)

lemma suppressed_never [simp]:
  "(suppressed m w = (Inl e, w')) = False" "(rollback_close p w = (Inl e, w')) = False"
  by (simp_all add: suppressed_def rollback_close_def call_Inl_iff cbind_Inl_iff)

lemma registry_outcome_completed:
  "registry_outcome out = ExecutionCompleted s \<Longrightarrow> \<exists>i. out = CompletedLifecycleClaim i s"
  by (cases out) simp_all

lemma terminal_write_completed:
  assumes "terminal_write p operation w = (Inl (ExecutionCompleted s) :: execution_result + 'a, w')"
  obtains r w1 j r' w2 where "pt_open p w = (Inr r, w1)"
    "operation r = (Inr (CompletedLifecycleClaim j s), r')" "pt_commit p r' w1 = (Inr (), w2)"
    "pt_close p w2 = (Inr (), w')"
proof -
  from assms obtain r w1 where r: "pt_open p w = (Inr r, w1)"
    and rest: "(case operation r of
          (Inl e, _) \<Rightarrow> cbind (rollback_close p) (\<lambda>_. result (terminal_write_error (port_error_of e)))
        | (Inr terminal, r') \<Rightarrow>
            if \<not> is_terminal_claim terminal
            then cbind (rollback_close p) (\<lambda>_. result InternalFailure)
            else
              call (pt_commit p r')
                (\<lambda>_. call (pt_close p)
                   (\<lambda>_. \<lambda>w. (Inl (registry_outcome terminal), w))
                   (\<lambda>_. result OperationUncertain))
                (\<lambda>_. cbind (suppressed (pt_close p)) (\<lambda>_. result OperationUncertain))) w1 =
      (Inl (ExecutionCompleted s) :: execution_result + 'a, w')"
    unfolding terminal_write_def call_Inl_iff [of "pt_open p"] by auto
  obtain out r' where out: "operation r = (Inr out, r')" "is_terminal_claim out"
    using rest by (cases "operation r") (auto simp: cbind_Inl_iff split: sum.splits if_splits)
  with rest obtain w2 where "pt_commit p r' w1 = (Inr (), w2)" "pt_close p w2 = (Inr (), w')"
    "registry_outcome out = ExecutionCompleted s"
    by (auto simp: call_Inl_iff cbind_Inl_iff)
  with r out that registry_outcome_completed show ?thesis by blast
qed

lemma yieldsI:
  assumes "moves (\<lambda>w w'. G w \<longrightarrow> G w') m"
    and "\<And>w s w'. G w \<Longrightarrow> m w = (Inl (ExecutionCompleted s), w') \<Longrightarrow> Q s w'"
  shows "yields G Q m"
  using assms by (auto simp: yields_def moves_def)

lemma reachable_moves:
  "moves (history rt reg) m \<Longrightarrow>
   moves (\<lambda>w w'. registry_reachable rt (reg w) \<longrightarrow> registry_reachable rt (reg w')) m"
  by (erule moves_mono) (auto simp: history_def intro: registry_steps_reachable)

text \<open>A terminal write whose method records the service leaves it recorded.\<close>

lemma terminal_write_recorded:
  assumes sound: "sound_ports rt reg p"
    and steps: "\<And>r out r'. operation r = (Inr out, r') \<Longrightarrow> registry_writes rt r r'"
    and recd: "\<And>r j s r'. operation r = (Inr (CompletedLifecycleClaim j s), r') \<Longrightarrow> recorded q k s r'"
  shows "yields (\<lambda>w. registry_reachable rt (reg w)) (\<lambda>s w. recorded q k s (reg w))
    (terminal_write p operation)"
proof (rule yieldsI)
  note reads = sound_portsD(1) [OF sound]
  show "moves (\<lambda>w w'. registry_reachable rt (reg w) \<longrightarrow> registry_reachable rt (reg w'))
      (terminal_write p operation)"
    by (rule reachable_moves, rule terminal_write_moves [OF reads sound_commits [OF sound] steps])
  fix w s w'
  assume reach: "registry_reachable rt (reg w)"
    and run: "terminal_write p operation w = (Inl (ExecutionCompleted s), w')"
  from run show "recorded q k s (reg w')"
  proof (cases rule: terminal_write_completed)
    case (1 r w1 j r' w2)
    have "registry_steps rt (reg w) r"
      using movesD [OF reads_moveD(8) [OF reads] 1(1)] sound_portsD(3) [OF sound 1(1)]
      by (simp add: history_def)
    then have "registry_reachable rt r'"
      using reach writes_are_steps [OF steps [OF 1(2)]] registry_steps_reachable by blast
    moreover have "reg w2 = r'" using sound_portsD(4) [OF sound 1(3)] by simp
    moreover have "registry_steps rt (reg w2) (reg w')"
      using movesD [OF reads_moveD(10) [OF reads] 1(4)] by (simp add: history_def)
    ultimately show ?thesis using recd [OF 1(2)] recorded_steps by blast
  qed
qed

lemma finalize_recovery_yields:
  assumes sound: "sound_ports rt reg p" and i: "intent_of command i"
  shows "yields (\<lambda>w. registry_reachable rt (reg w))
    (\<lambda>s w. recorded (cf_principal_id (command_fields command))
      (cf_idempotency_key (command_fields command)) s (reg w)) (finalize_recovery rt p i)"
  unfolding finalize_recovery_def
proof (intro yield_intros terminal_write_recorded [OF sound])
  show "stays (\<lambda>w. registry_reachable rt (reg w)) (pt_now p)"
    using reachable_moves [OF reads_moveD(7) [OF sound_portsD(1) [OF sound]]]
    by (simp add: stays_def moves_def)
next
  fix t r out r' assume "finalize_recovery_required rt i t r = (Inr out, r')"
  then show "registry_writes rt r r'" unfolding registry_writes_def by blast
next
  fix t r j s r' assume "finalize_recovery_required rt i t r = (Inr (CompletedLifecycleClaim j s), r')"
  from finalize_recovery_recorded [OF this] i
  show "recorded (cf_principal_id (command_fields command))
      (cf_idempotency_key (command_fields command)) s r'" by (simp add: intent_of_def)
qed

lemma finalize_result_yields:
  assumes sound: "sound_ports rt reg p" and i: "intent_of command i"
  shows "yields (\<lambda>w. registry_reachable rt (reg w))
    (\<lambda>s w. recorded (cf_principal_id (command_fields command))
      (cf_idempotency_key (command_fields command)) s (reg w)) (finalize_result rt p i loc)"
  unfolding finalize_result_def Let_def
proof (intro yield_intros terminal_write_recorded [OF sound])
  show "stays (\<lambda>w. registry_reachable rt (reg w)) (pt_now p)"
    using reachable_moves [OF reads_moveD(7) [OF sound_portsD(1) [OF sound]]]
    by (simp add: stays_def moves_def)
next
  fix t r out r'
  assume "finalize_completed rt (if li_kind i = Materialise then MaterialiseCompletion i t
      \<lparr>st_backend = lo_backend loc, st_namespace = lo_namespace loc\<rparr> else EvolveCompletion i t) r = (Inr out, r')"
  then show "registry_writes rt r r'" unfolding registry_writes_def by blast
next
  fix t r j s r'
  assume "finalize_completed rt (if li_kind i = Materialise then MaterialiseCompletion i t
      \<lparr>st_backend = lo_backend loc, st_namespace = lo_namespace loc\<rparr> else EvolveCompletion i t) r =
    (Inr (CompletedLifecycleClaim j s), r')"
  from finalize_completed_recorded [OF this] i
  show "recorded (cf_principal_id (command_fields command))
      (cf_idempotency_key (command_fields command)) s r'" by (simp add: intent_of_def split: if_splits)
qed

section \<open>Admission and the whole attempt\<close>

lemma close_nonmutating_completed:
  "close_nonmutating p res w = (Inl (ExecutionCompleted s), w') \<Longrightarrow>
     res = ExecutionCompleted s \<and> (\<exists>w1. pt_rollback p w = (Inr (), w1) \<and> pt_close p w1 = (Inr (), w'))"
  by (auto simp: close_nonmutating_def call_Inl_iff)

lemma admit_completed:
  assumes "admit rt p command w = (Inl (ExecutionCompleted s), w')"
  obtains (answered) r w1 i w2 where "pt_open p w = (Inr r, w1)"
      "resolve_or_admit rt command r = (Inr (CompletedLifecycleClaim i s), r)"
      "pt_rollback p w1 = (Inr (), w2)" "pt_close p w2 = (Inr (), w')"
  | (poisoned) r w1 i r' w2 w3 where "pt_open p w = (Inr r, w1)"
      "resolve_or_admit rt command r = (Inr (PreparedLifecycleClaim i), r')"
      "pt_commit p r' w1 = (Inr (), w2)" "pt_close p w2 = (Inr (), w3)"
      "finalize_recovery rt p i w3 = (Inl (ExecutionCompleted s) :: execution_result + (lifecycle_intent \<times> service), w')"
proof -
  from assms obtain r w1 where r: "pt_open p w = (Inr r, w1)"
    and rest: "(case resolve_or_admit rt command r of
          (Inl e, _) \<Rightarrow> cbind (rollback_close p) (\<lambda>_. result (before_commit_error (port_error_of e)))
        | (Inr outcome, r') \<Rightarrow>
            (case outcome of
               PreparedLifecycleClaim i \<Rightarrow>
                 (case get_service rt (cf_principal_id (command_fields command))
                     (cf_service_id (command_fields command)) r' of
                    (Inl e, _) \<Rightarrow>
                      cbind (rollback_close p) (\<lambda>_. result (before_commit_error (port_error_of e)))
                  | (Inr source, _) \<Rightarrow> commit_prepared rt p r' i source)
             | _ \<Rightarrow> close_nonmutating p (registry_outcome outcome))) w1 =
        (Inl (ExecutionCompleted s), w')"
    unfolding admit_def call_Inl_iff [of "pt_open p"] by auto
  obtain out r' where out: "resolve_or_admit rt command r = (Inr out, r')"
    using rest by (cases "resolve_or_admit rt command r") (auto simp: cbind_Inl_iff split: sum.splits)
  show ?thesis
  proof (cases "\<exists>i. out = PreparedLifecycleClaim i")
    case True
    then obtain i where i: "out = PreparedLifecycleClaim i" ..
    with rest out obtain source where "commit_prepared rt p r' i source w1 = (Inl (ExecutionCompleted s), w')"
      by (auto simp: cbind_Inl_iff split: prod.splits sum.splits)
    then obtain w2 w3 where "pt_commit p r' w1 = (Inr (), w2)" "pt_close p w2 = (Inr (), w3)"
      "finalize_recovery rt p i w3 = (Inl (ExecutionCompleted s) :: execution_result + (lifecycle_intent \<times> service), w')"
      by (auto simp: commit_prepared_def call_Inl_iff cbind_Inl_iff split: option.splits)
    with r out i show ?thesis using poisoned by blast
  next
    case False
    with rest out have "close_nonmutating p (registry_outcome out) w1 =
        (Inl (ExecutionCompleted s) :: execution_result + (lifecycle_intent \<times> service), w')"
      by (cases out) simp_all
    from close_nonmutating_completed [OF this] obtain w2 where
      c: "registry_outcome out = ExecutionCompleted s" "pt_rollback p w1 = (Inr (), w2)"
        "pt_close p w2 = (Inr (), w')" by blast
    obtain i where i: "out = CompletedLifecycleClaim i s" using registry_outcome_completed [OF c(1)] ..
    from resolve_or_admit_recorded [OF out [unfolded i]] out i r c answered show ?thesis by simp
  qed
qed

lemma sound_steps:
  assumes "sound_ports rt reg p"
  shows "pt_open p w = (x, w') \<Longrightarrow> registry_steps rt (reg w) (reg w')"
    "pt_rollback p w = (y, w') \<Longrightarrow> registry_steps rt (reg w) (reg w')"
    "pt_close p w = (y, w') \<Longrightarrow> registry_steps rt (reg w) (reg w')"
  using reads_moveD(8-10) [OF sound_portsD(1) [OF assms]] by (simp_all add: moves_def history_def)

lemma admit_yields:
  assumes sound: "sound_ports rt reg p"
  shows "yields (\<lambda>w. registry_reachable rt (reg w))
    (\<lambda>s w. recorded (cf_principal_id (command_fields command))
      (cf_idempotency_key (command_fields command)) s (reg w)) (admit rt p command)"
proof (rule yieldsI)
  note st = sound_steps [OF sound]
  show "moves (\<lambda>w w'. registry_reachable rt (reg w) \<longrightarrow> registry_reachable rt (reg w')) (admit rt p command)"
    by (rule reachable_moves, rule admit_moves [OF sound_portsD(1) [OF sound] sound_commits [OF sound]])
      (auto simp: registry_writes_def)
  fix w s w'
  assume reach: "registry_reachable rt (reg w)"
    and run: "admit rt p command w = (Inl (ExecutionCompleted s), w')"
  from run show "recorded (cf_principal_id (command_fields command))
      (cf_idempotency_key (command_fields command)) s (reg w')"
  proof (cases rule: admit_completed)
    case (answered r w1 i w2)
    have "reg w1 = r" by (rule sound_portsD(3) [OF sound answered(1)])
    moreover have "registry_steps rt (reg w1) (reg w')"
      using st(2) [OF answered(3)] st(3) [OF answered(4)] registry_steps_trans by blast
    moreover have "registry_reachable rt (reg w1)"
      using reach st(1) [OF answered(1)] registry_steps_reachable by blast
    ultimately show ?thesis
      using resolve_or_admit_recorded [OF answered(2)] recorded_steps by blast
  next
    case (poisoned r w1 i r' w2 w3)
    have w1: "reg w1 = r" by (rule sound_portsD(3) [OF sound poisoned(1)])
    have "registry_writes rt r r'" using poisoned(2) unfolding registry_writes_def by blast
    moreover have "reg w2 = r'" using sound_portsD(4) [OF sound poisoned(3)] by simp
    ultimately have "registry_steps rt (reg w1) (reg w2)" using w1 writes_are_steps by simp
    then have "registry_reachable rt (reg w3)"
      using reach st(1) [OF poisoned(1)] st(3) [OF poisoned(4)] registry_steps_reachable by blast
    from yieldsD(2) [OF finalize_recovery_yields [OF sound resolve_or_admit_key [OF poisoned(2)]]
      this poisoned(5)] show ?thesis .
  qed
qed

lemma admit_key:
  assumes "admit rt p command w = (Inr (i, s), w')"
  shows "intent_of command i"
proof -
  from assms obtain r w1 where r: "pt_open p w = (Inr r, w1)"
    and rest: "(case resolve_or_admit rt command r of
          (Inl e, _) \<Rightarrow> cbind (rollback_close p) (\<lambda>_. result (before_commit_error (port_error_of e)))
        | (Inr outcome, r') \<Rightarrow>
            (case outcome of
               PreparedLifecycleClaim i \<Rightarrow>
                 (case get_service rt (cf_principal_id (command_fields command))
                     (cf_service_id (command_fields command)) r' of
                    (Inl e, _) \<Rightarrow>
                      cbind (rollback_close p) (\<lambda>_. result (before_commit_error (port_error_of e)))
                  | (Inr source, _) \<Rightarrow> commit_prepared rt p r' i source)
             | _ \<Rightarrow> close_nonmutating p (registry_outcome outcome))) w1 = (Inr (i, s), w')"
    unfolding admit_def call_Inr_iff [of "pt_open p"] by auto
  have never: "\<not> close_nonmutating p res w1 = (Inr (i, s), w')"
    "\<not> cbind (rollback_close p) (\<lambda>_. result c) w1 = (Inr (i, s), w')" for res c
    by (auto simp: close_nonmutating_def run_Inr_iffs)
  obtain j r' source where j: "resolve_or_admit rt command r = (Inr (PreparedLifecycleClaim j), r')"
    "commit_prepared rt p r' j source w1 = (Inr (i, s), w')"
    using rest never by (auto split: prod.splits sum.splits lifecycle_outcome.splits)
  then have "j = i" by (auto simp: commit_prepared_def run_Inr_iffs split: option.splits)
  with resolve_or_admit_key [OF j(1)] show ?thesis by simp
qed

lemma located_attempt_same:
  "located_attempt rt p i s w = (Inr (j, loc, target, transition), w') \<Longrightarrow> j = i"
  by (auto simp: located_attempt_def cbind_Inr_iff split: if_splits)

lemma execute_recorded:
  assumes sound: "sound_ports rt reg p" and reach: "registry_reachable rt (reg w)"
    and run: "execute rt p command w = (ExecutionCompleted s, w')"
  shows "recorded (cf_principal_id (command_fields command))
    (cf_idempotency_key (command_fields command)) s (reg w')"
proof -
  let ?G = "\<lambda>w. registry_reachable rt (reg w)"
  let ?Q = "\<lambda>s w. recorded (cf_principal_id (command_fields command))
    (cf_idempotency_key (command_fields command)) s (reg w)"
  note reads = sound_portsD(1) [OF sound]
  have reads': "reads_move (\<lambda>w w'. ?G w \<longrightarrow> ?G w') p"
    unfolding reads_move_def
    by (intro conjI allI reachable_moves reads_moveD [OF reads]) (simp add: preorder_def)
  have act': "actions_move (\<lambda>w w'. ?G w \<longrightarrow> ?G w') p"
    using sound_portsD(2) [OF sound] unfolding actions_move_def
    by (intro conjI allI reachable_moves) simp_all
  note adm = admit_yields [OF sound, of command]
  have loc: "yields ?G ?Q (located_attempt rt p i src)" if "intent_of command i" for i src
    unfolding located_attempt_def
    by (intro yield_intros locate_yields [OF reads'] compile_target_yields
        finalize_recovery_yields [OF sound that])
  obtain x w1 where adx: "admit rt p command w = (x, w1)" by (cases "admit rt p command w")
  show ?thesis
  proof (cases x)
    case (Inl e)
    then show ?thesis using run adx yieldsD(2) [OF adm reach] by (simp add: execute_def cbind_def)
  next
    case (Inr a)
    obtain i src where a: "a = (i, src)" by (cases a)
    have i: "intent_of command i" using admit_key [of rt p command w i src w1] adx Inr a by simp
    have reach1: "?G w1" by (rule yieldsD(1) [OF adm reach adx])
    obtain y w2 where y: "located_attempt rt p i src w1 = (y, w2)"
      by (cases "located_attempt rt p i src w1")
    show ?thesis
    proof (cases y)
      case (Inl e)
      then show ?thesis
        using run adx Inr a y yieldsD(2) [OF loc [OF i] reach1] by (simp add: execute_def cbind_def)
    next
      case (Inr b)
      obtain j l target transition where b: "b = (j, l, target, transition)" by (cases b)
      have j: "j = i" using located_attempt_same [of rt p i src w1 j l target transition w2] y Inr b by simp
      have lp: "reconcile_loop rt p i l target transition initial_loop w2 = (ExecutionCompleted s, w')"
        using run adx \<open>x = Inr a\<close> a y Inr b j by (simp add: execute_def cbind_def)
      have st: "yields ?G ?Q (step rt p i l target transition ls)" for ls
        by (rule step_yields [OF reads' act' finalize_recovery_yields [OF sound i]
          finalize_result_yields [OF sound i]])
      from reconcile_loop_yields [OF st yieldsD(1) [OF loc [OF i] reach1 y] lp] show ?thesis .
    qed
  qed
qed

end
