(* ===== verification/Coordinator_Progress.thy ===== *)
theory Coordinator_Progress
  imports Coordinator_Registry
begin

text \<open>
  Progress: when every port does what its contract promises, an attempt of a materialise command
  completes, from every physical state an earlier attempt may have left behind. \<open>honest_ports\<close>
  states the contract of \<open>docs/storage-contracts.md\<close> over what can be seen of the world: the registry
  tables, the evidence in the service store and the domain tables in it. A migration takes an empty
  store, an exact predecessor, an exact prepared store and a ready one to the ready state; a
  generic dirty or altered store it refuses and leaves as it is. A materialisation of an exact
  schema-version-1 layout needs a ready store without domain tables, or finds its own tables.
\<close>

section \<open>Honest ports\<close>

text \<open>\<open>inspect_connection\<close> reports the evidence in a store as a status; an exact prepared store and a
  generic dirty one are both dirty.\<close>

datatype store_evidence =
    EmptyStore | PredecessorStore | PreparedStore | ReadyStore | GenericDirtyStore | AlteredStore

fun evidence_status :: "store_evidence \<Rightarrow> migration_status" where
  "evidence_status EmptyStore = StatusUninitialised"
| "evidence_status PredecessorStore = StatusOutdated"
| "evidence_status PreparedStore = StatusDirty"
| "evidence_status ReadyStore = StatusReady"
| "evidence_status GenericDirtyStore = StatusDirty"
| "evidence_status AlteredStore = StatusIncompatible"

definition migratable :: "store_evidence \<Rightarrow> bool" where
  "migratable e \<longleftrightarrow> e \<in> {EmptyStore, PredecessorStore, PreparedStore, ReadyStore}"

text \<open>The domain tables: none, exactly those of a specification, or something else.\<close>

datatype domain_tables = NoTables | TablesOf rel_specification | ForeignTables

record view =
  vw_registry :: registry
  vw_store :: store_evidence
  vw_tables :: domain_tables

definition ends :: "('w \<Rightarrow> view) \<Rightarrow> ('w \<Rightarrow> 'x \<times> 'w) \<Rightarrow> 'w \<Rightarrow> 'x \<Rightarrow> view \<Rightarrow> bool" where
  "ends see m w x v \<longleftrightarrow> (\<exists>w'. m w = (x, w') \<and> see w' = v)"

definition refuses :: "('w \<Rightarrow> view) \<Rightarrow> ('w, migration_state) port \<Rightarrow> 'w \<Rightarrow> bool" where
  "refuses see m w \<longleftrightarrow>
     (\<exists>x. ends see m w x (see w) \<and> (\<forall>st. x = Inr st \<longrightarrow> mg_status st \<noteq> StatusReady))"

definition honest_ports :: "('w \<Rightarrow> view) \<Rightarrow> adapter_info \<Rightarrow> time \<Rightarrow> 'w ports \<Rightarrow> bool" where
  "honest_ports see info t p \<longleftrightarrow>
     ServiceStoreComponent \<in> set (ad_components info) \<and>
     (\<forall>w. ends see (pt_info p) w (Inr info) (see w)) \<and>
     (\<forall>w u. u \<noteq> 0 \<longrightarrow> ends see (pt_allocate p u) w
        (Inr \<lparr>lo_backend = ad_backend info, lo_namespace = svc_namespace u\<rparr>) (see w)) \<and>
     (\<forall>w loc. \<exists>st. mg_component st = ServiceStoreComponent \<and>
        mg_status st = evidence_status (vw_store (see w)) \<and>
        ends see (pt_inspect_migration p loc) w (Inr st) (see w)) \<and>
     (\<forall>w loc. if migratable (vw_store (see w))
        then \<exists>st. mg_component st = ServiceStoreComponent \<and>
          ends see (pt_migrate p loc) w (Inr st) ((see w)\<lparr>vw_store := ReadyStore\<rparr>)
        else refuses see (pt_migrate p loc) w) \<and>
     (\<forall>w loc spec. vw_store (see w) = ReadyStore \<longrightarrow>
        (vw_tables (see w) = NoTables \<longrightarrow> ends see (pt_inspect p loc spec) w (Inr SchemaUnmaterialised) (see w)) \<and>
        (vw_tables (see w) = TablesOf spec \<longrightarrow> ends see (pt_inspect p loc spec) w (Inr SchemaReady) (see w)) \<and>
        (vw_tables (see w) = ForeignTables \<longrightarrow>
          ends see (pt_inspect p loc spec) w (Inr SchemaIncompatible) (see w))) \<and>
     (\<forall>w loc spec. vw_store (see w) = ReadyStore \<and> rs_schema_version spec = 1 \<and>
        vw_tables (see w) \<in> {NoTables, TablesOf spec} \<longrightarrow>
        ends see (pt_materialise p loc spec) w (Inr SchemaReady) ((see w)\<lparr>vw_tables := TablesOf spec\<rparr>)) \<and>
     (\<forall>w. ends see (pt_now p) w (Inr t) (see w)) \<and>
     (\<forall>w. ends see (pt_open p) w (Inr (vw_registry (see w))) (see w)) \<and>
     (\<forall>w r. ends see (pt_commit p r) w (Inr ()) ((see w)\<lparr>vw_registry := r\<rparr>)) \<and>
     (\<forall>w. ends see (pt_close p) w (Inr ()) (see w))"

lemma honest_portsD:
  assumes "honest_ports see info t p"
  shows "ServiceStoreComponent \<in> set (ad_components info)" "ends see (pt_info p) w (Inr info) (see w)"
    "u \<noteq> 0 \<Longrightarrow> ends see (pt_allocate p u) w
        (Inr \<lparr>lo_backend = ad_backend info, lo_namespace = svc_namespace u\<rparr>) (see w)"
    "\<exists>st. mg_component st = ServiceStoreComponent \<and> mg_status st = evidence_status (vw_store (see w)) \<and>
        ends see (pt_inspect_migration p loc) w (Inr st) (see w)"
    "migratable (vw_store (see w)) \<Longrightarrow> \<exists>st. mg_component st = ServiceStoreComponent \<and>
        ends see (pt_migrate p loc) w (Inr st) ((see w)\<lparr>vw_store := ReadyStore\<rparr>)"
    "vw_store (see w) = ReadyStore \<Longrightarrow> vw_tables (see w) = NoTables \<Longrightarrow>
        ends see (pt_inspect p loc spec) w (Inr SchemaUnmaterialised) (see w)"
    "vw_store (see w) = ReadyStore \<Longrightarrow> vw_tables (see w) = TablesOf spec \<Longrightarrow>
        ends see (pt_inspect p loc spec) w (Inr SchemaReady) (see w)"
    "vw_store (see w) = ReadyStore \<Longrightarrow> rs_schema_version spec = 1 \<Longrightarrow> vw_tables (see w) = NoTables \<Longrightarrow>
        ends see (pt_materialise p loc spec) w (Inr SchemaReady) ((see w)\<lparr>vw_tables := TablesOf spec\<rparr>)"
    "ends see (pt_now p) w (Inr t) (see w)"
    "ends see (pt_open p) w (Inr (vw_registry (see w))) (see w)"
    "ends see (pt_commit p r) w (Inr ()) ((see w)\<lparr>vw_registry := r\<rparr>)"
    "ends see (pt_close p) w (Inr ()) (see w)"
  using assms unfolding honest_ports_def by (blast | metis insertCI)+

section \<open>Complete runs\<close>

lemma ends_call:
  assumes "ends see m w (Inr x) v1" and "\<And>w'. see w' = v1 \<Longrightarrow> ends see (f x) w' y v"
  shows "ends see (call m f h) w y v"
  using assms by (fastforce simp: ends_def call_def)

lemma ends_cbind:
  assumes "ends see m w (Inr x) v1" and "\<And>w'. see w' = v1 \<Longrightarrow> ends see (f x) w' y v"
  shows "ends see (cbind m f) w y v"
  using assms by (fastforce simp: ends_def cbind_def)

lemma ends_cret: "see w = v \<Longrightarrow> ends see (cret x) w (Inr x) v"
  by (simp add: ends_def)

lemma ends_answer: "see w = v \<Longrightarrow> ends see (\<lambda>w. (y, w)) w y v"
  by (simp add: ends_def)

lemma foundation_ends:
  assumes "honest_ports see info t p"
  shows "ends see (foundation p loc) w (Inr (foundation_of_status (evidence_status (vw_store (see w))))) (see w)"
proof -
  obtain st where st: "mg_component st = ServiceStoreComponent" "mg_status st = evidence_status (vw_store (see w))"
    "ends see (pt_inspect_migration p loc) w (Inr st) (see w)"
    using honest_portsD(4) [OF assms] by blast
  show ?thesis
    unfolding foundation_def
    by (rule ends_call [OF st(3)]) (simp add: foundation_state_def st(1,2) ends_cret)
qed

text \<open>What the tables are read as, relative to a target: only the two cases that an attempt may meet.\<close>

definition tables_status :: "domain_tables \<Rightarrow> domain_status" where
  "tables_status d = (case d of NoTables \<Rightarrow> SchemaUnmaterialised | TablesOf _ \<Rightarrow> SchemaReady
     | ForeignTables \<Rightarrow> SchemaIncompatible)"

lemma domain_state_ends:
  assumes "honest_ports see info t p" and "vw_store (see w) = ReadyStore"
    and "vw_tables (see w) \<in> {NoTables, TablesOf spec}"
  shows "ends see (domain_state p loc spec) w (Inr (domain_of_status (tables_status (vw_tables (see w))))) (see w)"
proof -
  have "ends see (pt_inspect p loc spec) w (Inr (tables_status (vw_tables (see w)))) (see w)"
    using assms(3) honest_portsD(6,7) [OF assms(1,2)] by (auto simp: tables_status_def)
  then show ?thesis unfolding domain_state_def by (rule ends_call) (simp add: ends_cret)
qed

lemma terminal_write_ends:
  assumes h: "honest_ports see info t p" and op: "operation (vw_registry (see w)) = (Inr out, r')"
    and out: "is_terminal_claim out"
  shows "ends see (terminal_write p operation) w (Inl (registry_outcome out)) ((see w)\<lparr>vw_registry := r'\<rparr>)"
  unfolding terminal_write_def
proof (rule ends_call [OF honest_portsD(10) [OF h]])
  fix w1 assume w1: "see w1 = see w"
  have "ends see (call (pt_commit p r')
      (\<lambda>_. call (pt_close p) (\<lambda>_. \<lambda>w. (Inl (registry_outcome out), w)) (\<lambda>_. result OperationUncertain))
      (\<lambda>_. cbind (suppressed (pt_close p)) (\<lambda>_. result OperationUncertain))) w1
      (Inl (registry_outcome out)) ((see w)\<lparr>vw_registry := r'\<rparr>)"
    by (rule ends_call [OF honest_portsD(11) [OF h]], rule ends_call [OF honest_portsD(12) [OF h]],
        rule ends_answer) (simp add: w1)
  then show "ends see (case operation (vw_registry (see w)) of
          (Inl e, _) \<Rightarrow> cbind (rollback_close p) (\<lambda>_. result (terminal_write_error (port_error_of e)))
        | (Inr terminal, r') \<Rightarrow>
            if \<not> is_terminal_claim terminal
            then cbind (rollback_close p) (\<lambda>_. result InternalFailure)
            else
              call (pt_commit p r')
                (\<lambda>_. call (pt_close p)
                   (\<lambda>_. \<lambda>w. (Inl (registry_outcome terminal), w))
                   (\<lambda>_. result OperationUncertain))
                (\<lambda>_. cbind (suppressed (pt_close p)) (\<lambda>_. result OperationUncertain))) w1
      (Inl (registry_outcome out)) ((see w)\<lparr>vw_registry := r'\<rparr>)"
    using op out by simp
qed

section \<open>The loop\<close>

lemma loop_ends_now:
  "ends see (step rt p i loc target transition ls) w (Inl res) v \<Longrightarrow>
   ends see (reconcile_loop rt p i loc target transition ls) w res v"
  by (auto simp: ends_def reconcile_loop.simps [of rt p i loc target transition ls w])

lemma loop_ends_later:
  assumes "ends see (step rt p i loc target transition ls) w (Inr ls') v1"
    and "\<And>w'. see w' = v1 \<Longrightarrow> ends see (reconcile_loop rt p i loc target transition ls') w' res v"
  shows "ends see (reconcile_loop rt p i loc target transition ls) w res v"
  using assms by (fastforce simp: ends_def reconcile_loop.simps [of rt p i loc target transition ls w])

text \<open>From these views an attempt can finish: the store can be migrated, and it has no domain tables
  yet or those of the target.\<close>

definition recoverable :: "view \<Rightarrow> rel_specification \<Rightarrow> bool" where
  "recoverable v target \<longleftrightarrow> migratable (vw_store v) \<and> vw_tables v \<in> {NoTables, TablesOf target}"

text \<open>What an observation of a materialise intent reports.\<close>

definition materialise_view :: "view \<Rightarrow> lifecycle_observation" where
  "materialise_view v =
     MaterialiseRecoveryObservation Prepared (foundation_of_status (evidence_status (vw_store v)))
       (if vw_store v = ReadyStore then domain_of_status (tables_status (vw_tables v))
        else DomainNotObserved)"

lemma observe_ends:
  assumes h: "honest_ports see info t p" and i: "li_kind i = Materialise" "li_phase i = Prepared"
    and v: "recoverable (see w) target"
  shows "ends see (observe p i loc target transition) w (Inr (materialise_view (see w))) (see w)"
proof -
  obtain w1 where f: "foundation p loc w = (Inr (foundation_of_status (evidence_status (vw_store (see w)))), w1)"
    and w1: "see w1 = see w" using foundation_ends [OF h] by (auto simp: ends_def)
  show ?thesis
  proof (cases "vw_store (see w) = ReadyStore")
    case True
    then obtain w2 where d: "domain_state p loc target w1 =
        (Inr (domain_of_status (tables_status (vw_tables (see w)))), w2)" "see w2 = see w"
      using domain_state_ends [OF h, where w = w1 and loc = loc and spec = target] w1 v
      by (auto simp: ends_def recoverable_def)
    with True i f show ?thesis
      by (cases "vw_tables (see w)")
        (simp_all add: ends_def observe_def cbind_def observed_def materialise_observation_def
          construct_def materialise_view_def tables_status_def)
  next
    case False
    with v f w1 i show ?thesis
      by (cases "vw_store (see w)")
        (simp_all add: ends_def observe_def cbind_def observed_def materialise_observation_def
          construct_def materialise_view_def FOUNDATION_EXACT_NON_READY_def recoverable_def migratable_def)
  qed
qed

section \<open>A pending materialisation\<close>

definition pending ::
  "runtime \<Rightarrow> lifecycle_intent \<Rightarrow> service \<Rightarrow> time \<Rightarrow> registry \<Rightarrow> bool" where
  "pending rt i s t r \<longleftrightarrow>
     registry_inv rt r \<and> intent_spec rt i \<and> li_kind i = Materialise \<and> li_phase i = Prepared \<and>
     (\<exists>c. claim_lookup (cf_principal_id (li_fields i)) (cf_idempotency_key (li_fields i)) r = Some c \<and>
        lifecycle_row_for i c) \<and>
     service_row (cf_principal_id (li_fields i)) (cf_service_id (li_fields i)) r = Some s \<and>
     source_matches i s \<and> sv_updated_at s \<le> t \<and> sv_service_revision s < MAX_SERVICE_REVISION"

definition materialised_by :: "adapter_info \<Rightarrow> lifecycle_intent \<Rightarrow> time \<Rightarrow> lifecycle_completion" where
  "materialised_by info i t = MaterialiseCompletion i t
     \<lparr>st_backend = ad_backend info, st_namespace = svc_namespace (cf_service_id (li_fields i))\<rparr>"

definition store_of :: "adapter_info \<Rightarrow> lifecycle_intent \<Rightarrow> service_store_locator" where
  "store_of info i =
     \<lparr>lo_backend = ad_backend info, lo_namespace = svc_namespace (cf_service_id (li_fields i))\<rparr>"

lemma materialised_by_ok:
  assumes "pending rt i s t r"
  shows "completion_ok (materialised_by info i t)" "finalization_preconditions s (materialised_by info i t)"
    "cf_expected_service_revision (li_fields i) < MAX_SERVICE_REVISION"
    "cf_service_id (li_fields i) \<noteq> 0"
proof -
  from assms have p: "intent_spec rt i" "li_kind i = Materialise" "li_phase i = Prepared"
    "source_matches i s" "sv_updated_at s \<le> t" "sv_service_revision s < MAX_SERVICE_REVISION"
    by (simp_all add: pending_def)
  show u: "cf_service_id (li_fields i) \<noteq> 0"
    using p(1) by (simp add: intent_spec_def common_fields_spec_def)
  show "completion_ok (materialised_by info i t)"
    using p u by (simp add: materialised_by_def storage_ok_def)
  show "finalization_preconditions s (materialised_by info i t)"
    using p by (auto simp: materialised_by_def source_matches_def Let_def)
  show "cf_expected_service_revision (li_fields i) < MAX_SERVICE_REVISION"
    using p by (simp add: source_matches_def)
qed

lemma finalize_pending:
  assumes "pending rt i s t r"
  shows "finalize_completed rt (materialised_by info i t) r =
    (Inr (CompletedLifecycleClaim (i\<lparr>li_phase := Completed\<rparr>) (terminal_service s (materialised_by info i t))),
     finalized_registry (materialised_by info i t) s r)"
proof -
  obtain c where c: "claim_lookup (cf_principal_id (li_fields i)) (cf_idempotency_key (li_fields i)) r = Some c"
    "lifecycle_row_for i c" using assms by (auto simp: pending_def)
  have co: "co_intent (materialised_by info i t) = i" by (simp add: materialised_by_def)
  have p: "registry_inv rt r" "intent_spec rt i"
    "service_row (cf_principal_id (li_fields i)) (cf_service_id (li_fields i)) r = Some s"
    using assms by (simp_all add: pending_def)
  show ?thesis
    using finalize_completed_succeeds [of rt r "materialised_by info i t" c s, unfolded co,
      OF p(1,2) materialised_by_ok(1,3) [OF assms] c p(3) materialised_by_ok(2) [OF assms]] .
qed

lemma finalize_result_ends:
  assumes h: "honest_ports see info t p" and pend: "pending rt i s t (vw_registry (see w))"
  shows "ends see (finalize_result rt p i (store_of info i)) w
    (Inl (ExecutionCompleted (terminal_service s (materialised_by info i t))))
    ((see w)\<lparr>vw_registry := finalized_registry (materialised_by info i t) s (vw_registry (see w))\<rparr>)"
proof -
  obtain w1 where now: "pt_now p w = (Inr t, w1)" and w1: "see w1 = see w"
    using honest_portsD(9) [OF h] by (auto simp: ends_def)
  have "finalize_result rt p i (store_of info i) w =
      (terminal_write p (finalize_completed rt (materialised_by info i t)) w1 :: (execution_result + 'b) \<times> 'a)"
    using now materialised_by_ok(1,4) [OF pend] pend
    by (simp add: finalize_result_def call_def Let_def pending_def materialised_by_def store_of_def
        storage_ok_def)
  moreover have "ends see (terminal_write p (finalize_completed rt (materialised_by info i t))) w1
      (Inl (ExecutionCompleted (terminal_service s (materialised_by info i t))) :: execution_result + 'b)
      ((see w1)\<lparr>vw_registry := finalized_registry (materialised_by info i t) s (vw_registry (see w1))\<rparr>)"
    using terminal_write_ends [where operation = "finalize_completed rt (materialised_by info i t)",
        OF h finalize_pending [OF pend [folded w1]]]
    by (simp add: is_terminal_claim_def)
  ultimately show ?thesis by (simp add: ends_def w1)
qed

section \<open>The iterations\<close>

lemma materialise_plan:
  assumes "li_kind i = Materialise" "li_phase i = Prepared"
  shows "migratable (vw_store v) \<Longrightarrow> vw_store v \<noteq> ReadyStore \<Longrightarrow>
      plan_recovery i (materialise_view v) = Inr \<lparr>rp_action = PrepareFoundation, rp_deferred = None\<rparr>"
    and "vw_store v = ReadyStore \<Longrightarrow> vw_tables v = NoTables \<Longrightarrow>
      plan_recovery i (materialise_view v) = Inr \<lparr>rp_action = ApplyInitialSchema, rp_deferred = None\<rparr>"
    and "vw_store v = ReadyStore \<Longrightarrow> vw_tables v = TablesOf spec \<Longrightarrow>
      plan_recovery i (materialise_view v) = Inr \<lparr>rp_action = FinalizeRegistry, rp_deferred = None\<rparr>"
  using assms
  by (auto simp: plan_recovery_def materialise_view_def construct_def plan_materialise_def or_defer_def
      migratable_def tables_status_def)

lemma observed_ready:
  assumes "honest_ports see info t p" "li_kind i = Materialise" "li_phase i = Prepared"
    "recoverable (see w) target"
  obtains w1 where "observe p i loc target transition w = (Inr (materialise_view (see w)), w1)"
    "see w1 = see w"
  using observe_ends [OF assms] that by (auto simp: ends_def)

lemma step_finishes:
  assumes h: "honest_ports see info t p" and pend: "pending rt i s t (vw_registry (see w))"
    and v: "vw_store (see w) = ReadyStore" "vw_tables (see w) = TablesOf target"
  shows "ends see (step rt p i (store_of info i) target None ls) w
    (Inl (ExecutionCompleted (terminal_service s (materialised_by info i t))))
    ((see w)\<lparr>vw_registry := finalized_registry (materialised_by info i t) s (vw_registry (see w))\<rparr>)"
proof -
  have k: "li_kind i = Materialise" "li_phase i = Prepared" using pend by (simp_all add: pending_def)
  obtain w1 where ob: "observe p i (store_of info i) target None w = (Inr (materialise_view (see w)), w1)"
    and w1: "see w1 = see w"
    by (rule observed_ready [OF h k, of w]) (use v in \<open>auto simp: recoverable_def migratable_def\<close>)
  have "step rt p i (store_of info i) target None ls w = finalize_result rt p i (store_of info i) w1"
    by (simp add: step_def cbind_def ob materialise_plan(3) [OF k v])
  with finalize_result_ends [OF h pend [folded w1]] w1 show ?thesis by (simp add: ends_def)
qed

lemma step_applies:
  assumes h: "honest_ports see info t p" and k: "li_kind i = Materialise" "li_phase i = Prepared"
    and v: "vw_store (see w) = ReadyStore" "vw_tables (see w) = NoTables" "rs_schema_version target = 1"
    and new: "ApplyInitialSchema \<notin> ls_attempted ls"
  obtains ls' where "ends see (step rt p i loc target None ls) w (Inr ls')
    ((see w)\<lparr>vw_tables := TablesOf target\<rparr>)"
proof -
  obtain w1 where ob: "observe p i loc target None w = (Inr (materialise_view (see w)), w1)"
    and w1: "see w1 = see w"
    by (rule observed_ready [OF h k, of w]) (use v in \<open>auto simp: recoverable_def migratable_def\<close>)
  obtain w2 where "pt_materialise p loc target w1 = (Inr SchemaReady, w2)"
    "see w2 = (see w)\<lparr>vw_tables := TablesOf target\<rparr>"
    using honest_portsD(8) [OF h, where w = w1 and loc = loc and spec = target] w1 v by (auto simp: ends_def)
  then show ?thesis
    using that new
    by (auto simp: ends_def step_def cbind_def ob materialise_plan(2) [OF k v(1,2)] apply_action_def call_def)
qed

lemma step_prepares:
  assumes h: "honest_ports see info t p" and k: "li_kind i = Materialise" "li_phase i = Prepared"
    and v: "recoverable (see w) target" "vw_store (see w) \<noteq> ReadyStore"
    and new: "PrepareFoundation \<notin> ls_attempted ls"
  obtains ls' where "ends see (step rt p i loc target None ls) w (Inr ls')
      ((see w)\<lparr>vw_store := ReadyStore\<rparr>)"
    "ls_attempted ls' = insert PrepareFoundation (ls_attempted ls)"
proof -
  have m: "migratable (vw_store (see w))" using v(1) by (simp add: recoverable_def)
  obtain w1 where ob: "observe p i loc target None w = (Inr (materialise_view (see w)), w1)"
    and w1: "see w1 = see w" by (rule observed_ready [OF h k v(1)])
  obtain st w2 where st: "pt_migrate p loc w1 = (Inr st, w2)" "mg_component st = ServiceStoreComponent"
    "see w2 = (see w)\<lparr>vw_store := ReadyStore\<rparr>"
    using honest_portsD(5) [OF h, where w = w1 and loc = loc] w1 m by (auto simp: ends_def)
  have "step rt p i loc target None ls w = (Inr (ls\<lparr>ls_attempted :=
      insert PrepareFoundation (ls_attempted ls), ls_foundation := Some st\<rparr>), w2)"
    using new st
    by (simp add: step_def cbind_def ob materialise_plan(1) [OF k m v(2)] apply_action_def call_def)
  with that st(3) show ?thesis by (simp add: ends_def)
qed

text \<open>From every recoverable view the loop ends with the service completed.\<close>

lemma loop_completes:
  assumes h: "honest_ports see info t p" and pend: "pending rt i s t (vw_registry (see w))"
    and v: "recoverable (see w) target" and one: "rs_schema_version target = 1"
  shows "ends see (reconcile_loop rt p i (store_of info i) target None initial_loop) w
    (ExecutionCompleted (terminal_service s (materialised_by info i t)))
    \<lparr>vw_registry = finalized_registry (materialised_by info i t) s (vw_registry (see w)),
     vw_store = ReadyStore, vw_tables = TablesOf target\<rparr>"
proof -
  let ?res = "ExecutionCompleted (terminal_service s (materialised_by info i t))"
  let ?loc = "store_of info i" and ?r = "vw_registry (see w)" and ?d = "vw_tables (see w)"
  let ?fin = "\<lparr>vw_registry = finalized_registry (materialised_by info i t) s ?r,
     vw_store = ReadyStore, vw_tables = TablesOf target\<rparr>"
  have k: "li_kind i = Materialise" "li_phase i = Prepared" using pend by (simp_all add: pending_def)
  have finish: "ends see (reconcile_loop rt p i ?loc target None ls) u ?res ?fin"
    if "see u = \<lparr>vw_registry = ?r, vw_store = ReadyStore, vw_tables = TablesOf target\<rparr>"
    for u ls
  proof (rule loop_ends_now)
    show "ends see (step rt p i ?loc target None ls) u (Inl ?res) ?fin"
      using step_finishes [OF h, of rt i s u target ls] pend that by simp
  qed
  have ready: "ends see (reconcile_loop rt p i ?loc target None ls) u ?res ?fin"
    if u: "see u = \<lparr>vw_registry = ?r, vw_store = ReadyStore, vw_tables = ?d\<rparr>"
      and new: "ApplyInitialSchema \<notin> ls_attempted ls" for u ls
  proof (cases "?d = NoTables")
    case False
    then show ?thesis using finish [of u ls] u v by (simp add: recoverable_def)
  next
    case True
    obtain ls' where "ends see (step rt p i ?loc target None ls) u (Inr ls')
        ((see u)\<lparr>vw_tables := TablesOf target\<rparr>)"
      using step_applies [OF h k _ _ one new, where w = u and loc = ?loc] u True by auto
    then show ?thesis by (rule loop_ends_later) (use finish u in simp)
  qed
  show ?thesis
  proof (cases "vw_store (see w) = ReadyStore")
    case True
    then show ?thesis using ready [of w initial_loop] by (simp add: initial_loop_def)
  next
    case False
    obtain ls' where st: "ends see (step rt p i ?loc target None initial_loop) w (Inr ls')
        ((see w)\<lparr>vw_store := ReadyStore\<rparr>)"
      and att: "ls_attempted ls' = insert PrepareFoundation (ls_attempted initial_loop)"
      by (rule step_prepares [OF h k v False, where ls = initial_loop and loc = ?loc])
        (simp_all add: initial_loop_def)
    show ?thesis
    proof (rule loop_ends_later [OF st ready])
      show "see u = \<lparr>vw_registry = ?r, vw_store = ReadyStore, vw_tables = ?d\<rparr>"
        if "see u = (see w)\<lparr>vw_store := ReadyStore\<rparr>" for u
        using that by (simp add: view.equality)
    qed (simp add: att initial_loop_def)
  qed
qed

section \<open>The whole attempt\<close>

lemma admitted_row:
  assumes run: "resolve_or_admit rt command r = (Inr (PreparedLifecycleClaim i), r')"
  shows "intent_spec rt i \<and> li_phase i = Prepared \<and> li_kind i = command_kind command \<and>
    (\<exists>c. claim_lookup (cf_principal_id (li_fields i)) (cf_idempotency_key (li_fields i)) r' = Some c \<and>
       lifecycle_row_for i c)"
  using run
proof (cases rule: resolve_or_admit_cases)
  case (existing c)
  then have dec: "decode_lifecycle_intent rt c r = (Inr i, r)" "li_phase i = Prepared" "r' = r"
      "cl_kind c = lifecycle_claim_kind (command_kind command)"
    by (auto simp: existing_lifecycle_claim_run split: if_splits)
  from dec(1) obtain e ph where row: "cl_intent c = Some (LifecycleDocument e)"
      "phase_from_column (cl_phase c) = Some ph" "i = intent_from_row e ph c" "intent_spec rt i"
      "le_principal_id e = cl_principal_id c" "le_service_id e = cl_service_id c"
      "lifecycle_claim_kind (le_kind e) = cl_kind c"
    by (auto simp: decode_lifecycle_intent_run)
  moreover have "ph = Prepared" using row(3) dec(2) by simp
  ultimately have "lifecycle_row_for i c" by (simp add: lifecycle_row_for_def phase_from_column_iff)
  moreover have "li_kind i = command_kind command"
    using row(3,7) dec(4) by (cases "le_kind e"; cases "command_kind command") simp_all
  ultimately show ?thesis
    using row(4) dec(2,3) existing(1) resolve_or_admit_key [OF run] by (auto simp: intent_of_def)
next
  case (admitted s target j)
  then have j: "j = i" by simp
  note ok = prepare_intent_ok [OF admitted(9)]
  obtain c where c: "rg_claims r' = rg_claims r @ [c]" "lifecycle_row_for i c"
    "cl_principal_id c = cf_principal_id (li_fields i)"
    "cl_idempotency_key c = cf_idempotency_key (li_fields i)"
    using insert_prepared_row [OF admitted(10)] ok j by auto
  have "claim_lookup (cf_principal_id (command_fields command))
      (cf_idempotency_key (command_fields command)) r' = Some c"
    by (rule claim_lookup_append [OF admitted(1) c(1)]) (use c(3,4) ok j in simp_all)
  then show ?thesis using ok j c(2) by auto
qed auto

lemma admit_ends:
  assumes h: "honest_ports see info t p"
    and adm: "resolve_or_admit rt command (vw_registry (see w)) = (Inr (PreparedLifecycleClaim i), r)"
    and s: "get_service rt (cf_principal_id (command_fields command))
      (cf_service_id (command_fields command)) r = (Inr (Some s), r)"
  shows "ends see (admit rt p command) w (Inr (i, s)) ((see w)\<lparr>vw_registry := r\<rparr>)"
proof -
  obtain w1 where op: "pt_open p w = (Inr (vw_registry (see w)), w1)" and w1: "see w1 = see w"
    using honest_portsD(10) [OF h] by (auto simp: ends_def)
  obtain w2 where c: "pt_commit p r w1 = (Inr (), w2)" and w2: "see w2 = (see w)\<lparr>vw_registry := r\<rparr>"
    using honest_portsD(11) [OF h, where w = w1 and r = r] w1 by (auto simp: ends_def)
  obtain w3 where cl: "pt_close p w2 = (Inr (), w3)" and w3: "see w3 = see w2"
    using honest_portsD(12) [OF h, where w = w2] by (auto simp: ends_def)
  have "admit rt p command w = (Inr (i, s), w3)"
    by (simp add: admit_def call_def op adm s commit_prepared_def c cl)
  then show ?thesis by (simp add: ends_def w3 w2)
qed

lemma located_attempt_ends:
  assumes h: "honest_ports see info t p" and k: "li_kind i = Materialise" and src: "source_matches i s"
    and u: "cf_service_id (li_fields i) \<noteq> 0"
    and tgt: "compile_manifest (li_target_manifest i) = Inr target"
  shows "ends see (located_attempt rt p i s) w (Inr (i, store_of info i, target, None)) (see w)"
proof -
  obtain w1 where nf: "pt_info p w = (Inr info, w1)" and w1: "see w1 = see w"
    using honest_portsD(2) [OF h] by (auto simp: ends_def)
  obtain w2 where al: "pt_allocate p (cf_service_id (li_fields i)) w1 = (Inr (store_of info i), w2)"
    and w2: "see w2 = see w1"
    using honest_portsD(3) [OF h u, where w = w1]
    by (auto simp: ends_def store_of_def)
  have "located_attempt rt p i s w = (Inr (i, store_of info i, target, None), w2)"
    using honest_portsD(1) [OF h]
    by (simp add: located_attempt_def src locate_def call_def cbind_def nf al valid_locator_def k
        compile_target_def tgt) (simp add: store_of_def)
  then show ?thesis by (simp add: ends_def w1 w2)
qed

text \<open>A materialise command that the ledger admits, or has admitted before, completes.\<close>

lemma execute_completes:
  assumes h: "honest_ports see info t p" and inv: "registry_inv rt (vw_registry (see w))"
    and adm: "resolve_or_admit rt (MaterialiseCommand f) (vw_registry (see w)) =
      (Inr (PreparedLifecycleClaim i), r)"
    and s: "service_row (cf_principal_id f) (cf_service_id f) r = Some s" "source_matches i s"
      "sv_updated_at s \<le> t" "sv_service_revision s < MAX_SERVICE_REVISION"
    and tgt: "compile_manifest (li_target_manifest i) = Inr target" "recoverable (see w) target"
  shows "ends see (execute rt p (MaterialiseCommand f)) w
    (ExecutionCompleted (terminal_service s (materialised_by info i t)))
    \<lparr>vw_registry = finalized_registry (materialised_by info i t) s r,
     vw_store = ReadyStore, vw_tables = TablesOf target\<rparr>"
proof -
  note row = admitted_row [OF adm]
  have inv': "registry_inv rt r" using keeps_resolve_or_admit [THEN keepsD] inv adm by blast
  have sid: "cf_principal_id f = cf_principal_id (li_fields i)" "cf_service_id f = cf_service_id (li_fields i)"
    using s(1,2) resolve_or_admit_key [OF adm] service_row_Some [OF s(1)]
    by (auto simp: intent_of_def source_matches_def)
  have pend: "pending rt i s t r"
    using inv' row s sid by (simp add: pending_def)
  obtain w1 where a: "admit rt p (MaterialiseCommand f) w = (Inr (i, s), w1)"
    and w1: "see w1 = (see w)\<lparr>vw_registry := r\<rparr>"
    using admit_ends [OF h adm] get_service_found [OF registry_invD(1) [OF inv'] s(1)]
    by (auto simp: ends_def)
  obtain w2 where l: "located_attempt rt p i s w1 = (Inr (i, store_of info i, target, None), w2)"
    and w2: "see w2 = see w1"
    using located_attempt_ends [OF h _ s(2) materialised_by_ok(4) [OF pend] tgt(1), of rt w1] row by (auto simp: ends_def)
  have "execute rt p (MaterialiseCommand f) w =
      reconcile_loop rt p i (store_of info i) target None initial_loop w2"
    by (simp add: execute_def cbind_def a l)
  moreover have "rs_schema_version target = 1"
    using tgt(1) row by (auto simp: compile_manifest_iff spec_of_def intent_spec_def)
  moreover have "pending rt i s t (vw_registry (see w2))" "recoverable (see w2) target"
    using pend tgt(2) w1 w2 by (simp_all add: recoverable_def)
  ultimately show ?thesis
    using loop_completes [OF h, of rt i s w2 target] w1 w2 by (simp add: ends_def)
qed

end
