(* ===== verification/Coordinator_Actions.thy ===== *)
theory Coordinator_Actions
  imports Coordinator_Spec
begin

text \<open>
  The physical side of an attempt: how often it changes a domain schema, and what it must have
  read before it lets the registry say so.
\<close>

section \<open>The planned actions\<close>

definition schema_action :: "lifecycle_intent \<Rightarrow> recovery_action" where
  "schema_action i = (if li_kind i = Materialise then ApplyInitialSchema else ApplyTransition)"

lemma or_defer_action:
  "or_defer d m = Inr pl \<Longrightarrow> rp_action pl = DeferObservation \<or> d = None \<and> m = Inr pl"
  by (cases d) (auto simp: or_defer_def)

lemma plan_action: "plan a = Inr pl \<Longrightarrow> rp_action pl = a"
  by (auto simp: plan_def make_recovery_plan_def construct_def split: if_splits)

text \<open>The two schema actions belong to the two kinds of intent.\<close>

lemma planned_schema_action:
  assumes "plan_recovery i ob = Inr pl" and "rp_action pl = ApplyInitialSchema \<or> rp_action pl = ApplyTransition"
  shows "rp_action pl = schema_action i"
  using assms
  by (cases ob)
    (auto simp: plan_recovery_def schema_action_def construct_def plan_materialise_def plan_evolve_def
      dest!: or_defer_action plan_action split: if_splits)

text \<open>The registry is finalized only on an observation of the ready target.\<close>

lemma planned_finalization:
  assumes "plan_recovery i ob = Inr pl" and "rp_action pl = FinalizeRegistry"
  shows "ob_target ob = DomainReady"
  using assms
  by (cases ob)
    (auto simp: plan_recovery_def construct_def plan_materialise_def plan_evolve_def
      dest!: or_defer_action plan_action split: if_splits)

section \<open>What an iteration does\<close>

lemma step_split:
  assumes run: "step rt p i loc target transition ls w = (x, w')"
  obtains (unobserved) e where "observe p i loc target transition w = (Inl e, w')" "x = Inl e"
  | (idle) ob c where "observe p i loc target transition w = (Inr ob, w')" "x = Inl (ExecutionFailed c)"
  | (poison) ob t where "observe p i loc target transition w = (Inr ob, t)"
      "finalize_recovery rt p i t = (x, w')"
  | (finish) ob pl t where "observe p i loc target transition w = (Inr ob, t)"
      "plan_recovery i ob = Inr pl" "rp_action pl = FinalizeRegistry"
      "finalize_result rt p i loc t = (x, w')"
  | (again) ob pl t where "observe p i loc target transition w = (Inr ob, t)"
      "plan_recovery i ob = Inr pl" "rp_action pl \<in> ls_attempted ls"
      "attempted_again p (rp_action pl) ob loc target transition ls t = (x, w')"
  | (acted) ob pl t y where "observe p i loc target transition w = (Inr ob, t)"
      "plan_recovery i ob = Inr pl" "rp_action pl \<notin> ls_attempted ls"
      "apply_action p (rp_action pl) loc target transition t = (y, w')"
      "case y of Inl e \<Rightarrow> x = Inl e
         | Inr st \<Rightarrow> x = Inr (ls\<lparr>ls_attempted := insert (rp_action pl) (ls_attempted ls),
             ls_foundation := (case st of None \<Rightarrow> ls_foundation ls | Some f \<Rightarrow> Some f)\<rparr>)"
proof -
  obtain o1 t where ob: "observe p i loc target transition w = (o1, t)"
    by (cases "observe p i loc target transition w")
  show ?thesis
  proof (cases o1)
    case (Inl e)
    with run ob unobserved show ?thesis by (simp add: step_def cbind_def)
  next
    case (Inr b)
    note b = ob [unfolded Inr]
    show ?thesis
    proof (cases "plan_recovery i b")
      case (Inl e)
      with run b have "x = Inl (ExecutionFailed InternalFailure)" "w' = t"
        by (simp_all add: step_def cbind_def)
      with b idle show ?thesis by blast
    next
      case (Inr pl)
      note step = run b Inr
      let ?a = "rp_action pl"
      consider "?a = DeferObservation" | "?a = RecoveryRequiredAction" | "?a = FinalizeRegistry"
        | "?a = ReplayCompleteAction" | "?a \<notin> {DeferObservation, RecoveryRequiredAction,
            FinalizeRegistry, ReplayCompleteAction}" by blast
      then show ?thesis
      proof cases
        case 1
        with step idle show ?thesis
          by (auto simp: step_def cbind_def split: option.splits if_splits)
      next
        case 2
        with step poison show ?thesis by (simp add: step_def cbind_def)
      next
        case 3
        with step finish show ?thesis by (simp add: step_def cbind_def)
      next
        case 4
        with step have "x = Inl (ExecutionFailed InternalFailure)" "w' = t"
          by (simp_all add: step_def cbind_def)
        with b idle show ?thesis by blast
      next
        case 5
        show ?thesis
        proof (cases "?a \<in> ls_attempted ls")
          case True
          with step 5 again show ?thesis by (simp add: step_def cbind_def)
        next
          case False
          obtain y v where y: "apply_action p ?a loc target transition t = (y, v)"
            by (cases "apply_action p ?a loc target transition t")
          with step 5 False acted [OF b Inr False] show ?thesis
            by (cases y) (auto simp: step_def cbind_def)
        qed
      qed
    qed
  qed
qed

section \<open>Counting schema changes\<close>

definition below :: "('w \<Rightarrow> nat) \<Rightarrow> 'w \<Rightarrow> 'w \<Rightarrow> bool" where
  "below n w w' \<longleftrightarrow> n w' \<le> n w"

text \<open>\<open>n\<close> counts the schema changes of a world: only the two schema operations may raise it, by
  one each.\<close>

definition counts_changes :: "('w \<Rightarrow> nat) \<Rightarrow> 'w ports \<Rightarrow> bool" where
  "counts_changes n p \<longleftrightarrow> reads_move (below n) p \<and> (\<forall>r. moves (below n) (pt_commit p r)) \<and>
     (\<forall>loc spec. moves (\<lambda>w w'. n w' \<le> Suc (n w)) (pt_materialise p loc spec)) \<and>
     (\<forall>loc t. moves (\<lambda>w w'. n w' \<le> Suc (n w)) (pt_evolve p loc t))"

lemma counts_changesD:
  assumes "counts_changes n p"
  shows "reads_move (below n) p" "commits_move (below n) p op"
    "moves (\<lambda>w w'. n w' \<le> Suc (n w)) (pt_materialise p loc spec)"
    "moves (\<lambda>w w'. n w' \<le> Suc (n w)) (pt_evolve p loc t)"
  using assms by (auto simp: counts_changes_def commits_move_def moves_def)

lemma below_finalizers:
  assumes "counts_changes n p"
  shows "moves (below n) (finalize_recovery rt p i)" "moves (below n) (finalize_result rt p i loc)"
    "moves (below n) (admit rt p command)"
proof -
  note d = counts_changesD [OF assms]
  show "moves (below n) (finalize_recovery rt p i)"
    by (rule finalize_recovery_moves [OF d(1) d(2) [of "\<lambda>_ _. True"]]) simp
  show "moves (below n) (finalize_result rt p i loc)"
    by (rule finalize_result_moves [OF d(1) d(2) [of "\<lambda>_ _. True"]]) simp
  show "moves (below n) (admit rt p command)"
    by (rule admit_moves [OF d(1) d(2) [of "\<lambda>_ _. True"]]) simp_all
qed

lemma other_action_moves:
  assumes "reads_move R p" and "a \<noteq> ApplyInitialSchema" "a \<noteq> ApplyTransition"
  shows "moves R (apply_action p a loc target transition)"
  using assms(2,3)
  by (cases a; cases transition)
    (auto simp: apply_action_def intro!: moves_intros reads_moveD [OF assms(1)])

lemma attempted_again_moves:
  "reads_move R p \<Longrightarrow> moves R (attempted_again p a ob loc target transition ls)"
  unfolding attempted_again_def reconcile_def
  by (intro moves_intros reads_moveD other_action_moves) simp_all

lemma apply_action_counts:
  assumes "counts_changes n p" and run: "apply_action p a loc target transition w = (x, w')"
  shows "n w' \<le> Suc (n w)"
proof -
  note d = counts_changesD [OF assms(1)]
  show ?thesis
  proof (cases "a = ApplyInitialSchema \<or> a = ApplyTransition")
    case True
    show ?thesis
    proof (cases "a = ApplyInitialSchema")
      case True
      then show ?thesis
        using run d(3) by (auto simp: apply_action_def call_def moves_def split: prod.splits sum.splits)
    next
      case False
      with True have a: "a = ApplyTransition" by simp
      show ?thesis
      proof (cases transition)
        case None
        then show ?thesis using run a by (simp add: apply_action_def)
      next
        case (Some t)
        then show ?thesis
          using run a d(4) by (auto simp: apply_action_def call_def moves_def split: prod.splits sum.splits)
      qed
    qed
  next
    case False
    then have "moves (below n) (apply_action p a loc target transition)"
      using other_action_moves [OF d(1)] by simp
    from movesD [OF this run] show ?thesis by (simp add: below_def)
  qed
qed

text \<open>What the loop may still spend.\<close>

definition spare :: "lifecycle_intent \<Rightarrow> loop_state \<Rightarrow> nat" where
  "spare i ls = (if schema_action i \<in> ls_attempted ls then 0 else 1)"

lemma step_counts:
  assumes cc: "counts_changes n p" and run: "step rt p i loc target transition ls w = (x, w')"
  shows "case x of Inl _ \<Rightarrow> n w' \<le> n w + spare i ls | Inr ls' \<Rightarrow> n w' + spare i ls' \<le> n w + spare i ls"
proof -
  note d = counts_changesD [OF cc]
  have obs: "observe p i loc target transition w = (o1, t) \<Longrightarrow> n t \<le> n w" for o1 t
    using movesD [OF observe_moves [OF d(1)]] by (simp add: below_def)
  have ends: "case x of Inl _ \<Rightarrow> n w' \<le> n w + spare i ls | Inr ls' \<Rightarrow> n w' + spare i ls' \<le> n w + spare i ls"
    if "n w' \<le> n w" "\<And>ls'. x = Inr ls' \<Longrightarrow> spare i ls' = spare i ls" for x :: "execution_result + loop_state"
    using that by (cases x) simp_all
  from run show ?thesis
  proof (cases rule: step_split)
    case (unobserved e)
    with obs show ?thesis by fastforce
  next
    case (idle ob c)
    with obs show ?thesis by fastforce
  next
    case (poison ob t)
    have "n w' \<le> n t" using movesD [OF below_finalizers(1) [OF cc] poison(2)] by (simp add: below_def)
    with obs [OF poison(1)] ends poison(2) show ?thesis by (cases x) auto
  next
    case (finish ob pl t)
    have "n w' \<le> n t" using movesD [OF below_finalizers(2) [OF cc] finish(4)] by (simp add: below_def)
    with obs [OF finish(1)] ends finish(4) show ?thesis by (cases x) auto
  next
    case (again ob pl t)
    have "n w' \<le> n t" using movesD [OF attempted_again_moves [OF d(1)] again(4)] by (simp add: below_def)
    moreover have "spare i ls' = spare i ls" if "x = Inr ls'" for ls'
      using attempted_again_next [OF again(4) [unfolded that]] by (simp add: spare_def)
    ultimately show ?thesis using obs [OF again(1)] by (intro ends) auto
  next
    case (acted ob pl t y)
    show ?thesis
    proof (cases "rp_action pl = schema_action i")
      case True
      then show ?thesis
        using apply_action_counts [OF cc acted(4)] obs [OF acted(1)] acted(3,5)
        by (cases y) (auto simp: spare_def)
    next
      case False
      then have "rp_action pl \<noteq> ApplyInitialSchema" "rp_action pl \<noteq> ApplyTransition"
        using planned_schema_action [OF acted(2)] by auto
      from movesD [OF other_action_moves [OF d(1) this] acted(4)] have "n w' \<le> n t"
        by (simp add: below_def)
      with False acted(5) obs [OF acted(1)] show ?thesis
        by (cases y) (auto simp: spare_def)
    qed
  qed
qed

lemma reconcile_loop_counts:
  assumes cc: "counts_changes n p"
  shows "reconcile_loop rt p i loc target transition ls w = (res, w') \<Longrightarrow> n w' \<le> n w + spare i ls"
proof (induction ls arbitrary: w rule: measure_induct_rule [of loop_rank])
  case (less ls)
  obtain x w1 where x: "step rt p i loc target transition ls w = (x, w1)"
    by (cases "step rt p i loc target transition ls w")
  note c = step_counts [OF cc x]
  show ?case
  proof (cases x)
    case (Inl e)
    then show ?thesis using less.prems x c by (subst (asm) reconcile_loop.simps) simp
  next
    case (Inr ls')
    then have "reconcile_loop rt p i loc target transition ls' w1 = (res, w')"
      using less.prems x by (subst (asm) reconcile_loop.simps) simp
    from less.IH [OF step_rank [OF x [unfolded Inr]] this] c Inr show ?thesis by simp
  qed
qed

lemma execute_counts:
  assumes cc: "counts_changes n p" and run: "execute rt p command w = (res, w')"
  shows "n w' \<le> Suc (n w)"
proof -
  note d = counts_changesD [OF cc]
  note pre = reads_moveD(1) [OF d(1)]
  let ?m = "cbind (admit rt p command) (\<lambda>admitted. located_attempt rt p (fst admitted) (snd admitted))"
  have "moves (below n) ?m"
    unfolding located_attempt_def
    by (intro moves_intros locate_moves compile_target_moves below_finalizers [OF cc] pre d)
  moreover obtain x w1 where x: "?m w = (x, w1)" by (cases "?m w")
  ultimately have n1: "n w1 \<le> n w" by (auto simp: moves_def below_def)
  show ?thesis
  proof (cases x)
    case (Inl e)
    then show ?thesis using run x n1 by (simp add: execute_def)
  next
    case (Inr a)
    obtain i l target transition where a: "a = (i, l, target, transition)" by (cases a)
    have "reconcile_loop rt p i l target transition initial_loop w1 = (res, w')"
      using run x Inr a by (simp add: execute_def)
    from reconcile_loop_counts [OF cc this] n1 show ?thesis
      by (simp add: spare_def split: if_splits)
  qed
qed

section \<open>Nothing is completed that was not read ready\<close>

text \<open>Ports of a registry that only this coordinator writes.\<close>

definition sole_ports :: "('w \<Rightarrow> registry) \<Rightarrow> 'w ports \<Rightarrow> bool" where
  "sole_ports reg p \<longleftrightarrow>
     reads_move (\<lambda>w w'. reg w' = reg w) p \<and> actions_move (\<lambda>w w'. reg w' = reg w) p \<and>
     (\<forall>w r w'. pt_open p w = (Inr r, w') \<longrightarrow> reg w = r) \<and>
     (\<forall>r w y w'. pt_commit p r w = (y, w') \<longrightarrow> reg w' = r \<or> reg w' = reg w)"

definition same_services :: "('w \<Rightarrow> registry) \<Rightarrow> 'w \<Rightarrow> 'w \<Rightarrow> bool" where
  "same_services reg w w' \<longleftrightarrow> rg_services (reg w') = rg_services (reg w)"

lemma sole_moves:
  assumes "sole_ports reg p"
  shows "reads_move (same_services reg) p" "actions_move (same_services reg) p"
    "commits_move (same_services reg) p (\<lambda>r r'. rg_services r' = rg_services r)"
proof -
  have d: "reads_move (\<lambda>w w'. reg w' = reg w) p" "actions_move (\<lambda>w w'. reg w' = reg w) p"
    "\<And>w r w'. pt_open p w = (Inr r, w') \<Longrightarrow> reg w = r"
    "\<And>r w y w'. pt_commit p r w = (y, w') \<Longrightarrow> reg w' = r \<or> reg w' = reg w"
    using assms by (simp_all add: sole_ports_def)
  show "reads_move (same_services reg) p"
    unfolding reads_move_def
    by (intro conjI allI moves_mono [OF reads_moveD(2) [OF d(1)]] moves_mono [OF reads_moveD(3) [OF d(1)]]
        moves_mono [OF reads_moveD(4) [OF d(1)]] moves_mono [OF reads_moveD(5) [OF d(1)]]
        moves_mono [OF reads_moveD(6) [OF d(1)]] moves_mono [OF reads_moveD(7) [OF d(1)]]
        moves_mono [OF reads_moveD(8) [OF d(1)]] moves_mono [OF reads_moveD(9) [OF d(1)]]
        moves_mono [OF reads_moveD(10) [OF d(1)]])
      (simp_all add: same_services_def preorder_def)
  show "actions_move (same_services reg) p"
    using d(2) by (auto simp: actions_move_def moves_def same_services_def)
  show "commits_move (same_services reg) p (\<lambda>r r'. rg_services r' = rg_services r)"
    unfolding commits_move_def same_services_def
  proof (intro allI impI)
    fix w r w1 r' y w2
    assume a: "pt_open p w = (Inr r, w1)" "rg_services r' = rg_services r" "pt_commit p r' w1 = (y, w2)"
    have "reg w1 = r"
      using d(3) [OF a(1)] movesD [OF reads_moveD(8) [OF d(1)] a(1)] by simp
    with d(4) [OF a(3)] a(2) show "rg_services (reg w2) = rg_services (reg w1)" by auto
  qed
qed

definition never_ready :: "'w ports \<Rightarrow> service_store_locator \<Rightarrow> rel_specification \<Rightarrow> bool" where
  "never_ready p loc spec \<longleftrightarrow> (\<forall>w st w'. pt_inspect p loc spec w = (Inr st, w') \<longrightarrow> st \<noteq> SchemaReady)"

lemma domain_of_status_ready: "domain_of_status st = DomainReady \<longleftrightarrow> st = SchemaReady"
  by (cases st) simp_all

lemma unready_domain_ready: "unready_domain f \<noteq> Some DomainReady"
  by (cases f) simp_all

lemma never_ready_run:
  "never_ready p loc spec \<Longrightarrow> (pt_inspect p loc spec w = (Inr SchemaReady, w')) = False"
  by (auto simp: never_ready_def)

lemma domain_state_unready:
  "never_ready p loc spec \<Longrightarrow> (domain_state p loc spec w = (Inr DomainReady, w')) = False"
  using unready_domain_ready
  by (auto simp: domain_state_def run_Inr_iffs never_ready_run domain_of_status_ready
      split: if_splits option.splits)

lemma observed_target:
  "materialise_observation ph f d = Inr ob \<Longrightarrow> ob_target ob = d"
  "evolve_observation ph f d s = Inr ob \<Longrightarrow> ob_target ob = d"
  by (auto simp: materialise_observation_def evolve_observation_def construct_def Let_def
      validate_ready_evolve_observation_def split: if_splits)

lemma observed_Inr [simp]: "observed m w = (Inr ob, w') \<longleftrightarrow> m = Inr ob \<and> w' = w"
  by (cases m) (auto simp: observed_def)

lemma observe_target_ready:
  assumes "observe p i loc target transition w = (Inr ob, w')" and "ob_target ob = DomainReady"
  shows "\<exists>u v. domain_state p loc target u = (Inr DomainReady, v)"
  using assms
  by (auto simp: observe_def run_Inr_iffs split: if_splits option.splits dest!: observed_target)
    blast+

lemma observe_unready:
  assumes "never_ready p loc target" and "observe p i loc target transition w = (Inr ob, w')"
  shows "ob_target ob \<noteq> DomainReady"
  using observe_target_ready [OF assms(2)] domain_state_unready [OF assms(1)] by auto

lemma finalize_recovery_required_services:
  assumes "finalize_recovery_required rt i t r = (Inr out, r')"
  shows "rg_services r' = rg_services r"
proof -
  from assms obtain existing r0 where ex: "terminal_or_prepared rt i r = (Inr existing, r0)"
    and rest: "(if is_terminal_claim existing then rret existing else mark_recovery rt i t) r0 =
      (Inr out, r')"
    by (auto simp: finalize_recovery_required_def rbind_Inr_iff)
  from ex have "r0 = r" by (cases rule: terminal_or_prepared_cases) simp_all
  with rest show ?thesis by (auto split: if_splits dest!: mark_recovery_run)
qed

lemma unready_step_moves:
  assumes sole: "sole_ports reg p" and never: "never_ready p loc target"
  shows "moves (same_services reg) (step rt p i loc target transition ls)"
proof (rule movesI)
  fix w x w' assume run: "step rt p i loc target transition ls w = (x, w')"
  note m = sole_moves [OF sole]
  note pre = reads_moveD(1) [OF m(1)]
  have obs: "observe p i loc target transition w = (o1, t) \<Longrightarrow> same_services reg w t" for o1 t
    by (rule movesD [OF observe_moves [OF m(1)]])
  from run show "same_services reg w w'"
  proof (cases rule: step_split)
    case (unobserved e)
    then show ?thesis using obs by blast
  next
    case (idle ob c)
    then show ?thesis using obs by blast
  next
    case (poison ob t)
    have "moves (same_services reg) (finalize_recovery rt p i :: ('a, loop_state) run)"
      by (rule finalize_recovery_moves [OF m(1,3)]) (rule finalize_recovery_required_services)
    from movesD [OF this poison(2)] obs [OF poison(1)] show ?thesis using preorderD(2) [OF pre] by blast
  next
    case (finish ob pl t)
    then show ?thesis
      using planned_finalization [OF finish(2,3)] observe_unready [OF never finish(1)] by simp
  next
    case (again ob pl t)
    from movesD [OF attempted_again_moves [OF m(1)] again(4)] obs [OF again(1)]
    show ?thesis using preorderD(2) [OF pre] by blast
  next
    case (acted ob pl t y)
    from movesD [OF apply_action_moves [OF m(1,2)] acted(4)] obs [OF acted(1)]
    show ?thesis using preorderD(2) [OF pre] by blast
  qed
qed

lemma unready_loop_services:
  assumes "sole_ports reg p" and "never_ready p loc target"
    and "reconcile_loop rt p i loc target transition ls w = (res, w')"
  shows "rg_services (reg w') = rg_services (reg w)"
  using movesD [OF reconcile_loop_moves [OF reads_moveD(1) [OF sole_moves(1) [OF assms(1)]]
      unready_step_moves [OF assms(1,2)]] assms(3)]
  by (simp add: same_services_def)

end
