(* ===== verification/Coordinator_Properties.thy ===== *)
theory Coordinator_Properties
  imports Coordinator_Progress Coordinator_Actions Registry_Sample
begin

text \<open>
  The properties of a lifecycle attempt, and a laboratory world on which they are tried: its ports
  keep the registry, the evidence in the store, its domain tables and a count of the schema changes,
  and do what the contracts promise: what they cannot migrate they refuse.
\<close>

section \<open>A laboratory world\<close>

record lab =
  lb_registry :: registry
  lb_store :: store_evidence
  lb_tables :: domain_tables
  lb_changes :: nat

definition lab_info :: adapter_info where
  "lab_info = \<lparr>ad_backend = SQLite, ad_components = [RegistryComponent, ServiceStoreComponent]\<rparr>"

definition lab_status :: "migration_status \<Rightarrow> migration_state" where
  "lab_status m = \<lparr>mg_component = ServiceStoreComponent, mg_applied = 1, mg_target = 1, mg_status = m\<rparr>"

definition lab_migrate :: "(lab, migration_state) port" where
  "lab_migrate w =
     (if migratable (lb_store w) then (Inr (lab_status StatusReady), w\<lparr>lb_store := ReadyStore\<rparr>)
      else (Inr (lab_status (evidence_status (lb_store w))), w))"

definition lab_inspect :: "rel_specification \<Rightarrow> (lab, domain_status) port" where
  "lab_inspect spec w =
     (Inr (case lb_tables w of NoTables \<Rightarrow> SchemaUnmaterialised
        | TablesOf d \<Rightarrow> if d = spec then SchemaReady else SchemaIncompatible
        | ForeignTables \<Rightarrow> SchemaIncompatible), w)"

definition lab_change :: "rel_specification \<Rightarrow> (lab, domain_status) port" where
  "lab_change spec w =
     (Inr SchemaReady, w\<lparr>lb_tables := TablesOf spec, lb_changes := Suc (lb_changes w)\<rparr>)"

definition lab_materialise :: "rel_specification \<Rightarrow> (lab, domain_status) port" where
  "lab_materialise spec w =
     (if lb_store w = ReadyStore \<and> lb_tables w = NoTables then lab_change spec w else lab_inspect spec w)"

definition lab_ports :: "lab ports" where
  "lab_ports =
     \<lparr>pt_info = \<lambda>w. (Inr lab_info, w),
      pt_allocate = \<lambda>u w. (Inr \<lparr>lo_backend = SQLite, lo_namespace = svc_namespace u\<rparr>, w),
      pt_inspect_migration = \<lambda>_ w. (Inr (lab_status (evidence_status (lb_store w))), w),
      pt_migrate = \<lambda>_. lab_migrate,
      pt_inspect = \<lambda>_. lab_inspect,
      pt_materialise = \<lambda>_. lab_materialise,
      pt_evolve = \<lambda>_ t. lab_change (tr_target t),
      pt_now = \<lambda>w. (Inr 6, w),
      pt_open = \<lambda>w. (Inr (lb_registry w), w),
      pt_commit = \<lambda>r w. (Inr (), w\<lparr>lb_registry := r\<rparr>),
      pt_rollback = \<lambda>w. (Inr (), w),
      pt_close = \<lambda>w. (Inr (), w)\<rparr>"

definition lab_view :: "lab \<Rightarrow> view" where
  "lab_view w = \<lparr>vw_registry = lb_registry w, vw_store = lb_store w, vw_tables = lb_tables w\<rparr>"

text \<open>The seeded service of the sample registry, and a store nothing was done to yet.\<close>

definition lab_start :: lab where
  "lab_start = \<lparr>lb_registry = seeded_registry, lb_store = EmptyStore, lb_tables = NoTables,
     lb_changes = 0\<rparr>"

lemmas lab_defs = lab_ports_def lab_migrate_def lab_inspect_def lab_change_def lab_materialise_def

lemma evidence_ready [simp]: "evidence_status e = StatusReady \<longleftrightarrow> e = ReadyStore"
  by (cases e) simp_all

lemma lab_honest: "honest_ports lab_view lab_info 6 lab_ports"
  by (auto simp: honest_ports_def refuses_def ends_def lab_defs lab_view_def lab_info_def lab_status_def
      migratable_def split: store_evidence.splits domain_tables.splits)

lemma lab_sound: "sound_ports rt lb_registry lab_ports"
  by (auto simp: sound_ports_def reads_move_def actions_move_def moves_def preorder_def history_def
      lab_defs intro: registry_steps.none registry_steps_trans)

lemma lab_counts: "counts_changes lb_changes lab_ports"
  by (auto simp: counts_changes_def reads_move_def moves_def preorder_def below_def lab_defs)

text \<open>The same store with a domain reader that never finds the schema.\<close>

definition blind_ports :: "lab ports" where
  "blind_ports = lab_ports\<lparr>pt_inspect := \<lambda>_ _ w. (Inr SchemaUnmaterialised, w)\<rparr>"

lemma blind_sole: "sole_ports lb_registry blind_ports"
  by (auto simp: sole_ports_def reads_move_def actions_move_def moves_def preorder_def lab_defs
      blind_ports_def)

lemma blind_never: "never_ready blind_ports loc spec"
  by (simp add: never_ready_def blind_ports_def)

lemma lab_run:
  "ends lab_view (execute ascii_runtime lab_ports (MaterialiseCommand sample_fields)) lab_start
    (ExecutionCompleted (terminal_service sample_service (materialised_by lab_info sample_intent 6)))
    \<lparr>vw_registry = finalized_registry (materialised_by lab_info sample_intent 6) sample_service admitted_registry,
     vw_store = ReadyStore, vw_tables = TablesOf (spec_of notes_manifest)\<rparr>"
proof -
  have "source_matches sample_intent sample_service"
    by (simp add: source_matches_def) (simp add: sample_service_def)
  then show ?thesis
    using execute_completes [OF lab_honest, of ascii_runtime lab_start sample_fields sample_intent
        admitted_registry sample_service "spec_of notes_manifest"] reachable_inv [OF seeded_reachable]
      sample_admitted notes_spec
    by (simp add: lab_view_def lab_start_def recoverable_def migratable_def compile_manifest_iff admitted_registry_def
        service_row_def MAX_SERVICE_REVISION_def) (simp add: sample_fields_def)
qed

section \<open>The properties\<close>

text \<open>C2. An attempt is a history of the registry: whatever its ports answer, and however other
  processes step in between its transactions, the tables it leaves are reached by registry
  methods alone, so they satisfy the invariants, and a result it reports as completed is the one
  the ledger holds for the command's key.\<close>

theorem attempt_is_history:
  assumes "sound_ports rt reg p" and "registry_reachable rt (reg w)"
    and "execute rt p command w = (res, w')"
  shows "registry_steps rt (reg w) (reg w') \<and> registry_inv rt (reg w') \<and>
    (\<forall>s. res = ExecutionCompleted s \<longrightarrow>
       recorded (cf_principal_id (command_fields command)) (cf_idempotency_key (command_fields command))
         s (reg w'))"
  using execute_history [OF assms(1,3)] execute_recorded [OF assms(1,2)] assms(2,3)
    registry_steps_reachable reachable_inv by blast

theorem attempt_is_history_witness:
  "\<exists>s w'. execute ascii_runtime lab_ports (MaterialiseCommand sample_fields) lab_start =
      (ExecutionCompleted s, w') \<and>
     recorded (ascii ''alice'') (ascii ''key-1'') s (lb_registry w')"
proof -
  obtain s w' where run: "execute ascii_runtime lab_ports (MaterialiseCommand sample_fields) lab_start =
      (ExecutionCompleted s, w')" using lab_run by (auto simp: ends_def)
  have "registry_reachable ascii_runtime (lb_registry lab_start)"
    using seeded_reachable by (simp add: lab_start_def)
  from attempt_is_history [OF lab_sound this run] run show ?thesis
    by (auto simp: sample_fields_def)
qed

text \<open>C8. An attempt changes a domain schema at most once: for every count that only the schema
  operations raise, by one each, a whole attempt raises it by at most one, also when its reads
  fail, disagree or change between the iterations.\<close>

theorem one_schema_change:
  assumes "counts_changes n p" and "execute rt p command w = (res, w')"
  shows "n w' \<le> n w + 1"
  using execute_counts [OF assms] by simp

theorem one_schema_change_witness:
  "lb_changes (snd (execute ascii_runtime lab_ports (MaterialiseCommand sample_fields) lab_start)) \<le> 1"
  using one_schema_change [OF lab_counts, of ascii_runtime "MaterialiseCommand sample_fields" lab_start]
  by (cases "execute ascii_runtime lab_ports (MaterialiseCommand sample_fields) lab_start")
    (simp add: lab_start_def)

text \<open>C11. The registry does not run ahead of the store: as long as no inspection answers that the
  target schema is ready, no iteration finalizes the operation and no service row changes.\<close>

theorem completion_needs_ready:
  assumes "sole_ports reg p" and "never_ready p loc target"
    and "reconcile_loop rt p i loc target transition ls w = (res, w')"
  shows "rg_services (reg w') = rg_services (reg w)"
  by (rule unready_loop_services [OF assms])

theorem completion_needs_ready_witness:
  "rg_services (lb_registry (snd (reconcile_loop ascii_runtime blind_ports sample_intent
     (store_of lab_info sample_intent) (spec_of notes_manifest) None initial_loop
     (lab_start\<lparr>lb_registry := admitted_registry\<rparr>)))) = [sample_service]"
proof -
  let ?w = "lab_start\<lparr>lb_registry := admitted_registry\<rparr>"
  obtain res w' where run: "reconcile_loop ascii_runtime blind_ports sample_intent
     (store_of lab_info sample_intent) (spec_of notes_manifest) None initial_loop ?w = (res, w')"
    by fastforce
  from completion_needs_ready [OF blind_sole blind_never this] run show ?thesis
    by (simp add: admitted_registry_def)
qed



end
