(* ===== verification/Spec2Isabelle.thy ===== *)
theory Spec2Isabelle
  imports Manifest_Properties Lifecycle_Properties Registry_Properties Services_Properties
    Coordinator_Properties
begin

text \<open>
  A verification development for aipcs-mcp, a Python server that keeps the memory of an agent in
  typed, private relational services. It covers the path from a manifest to a completed service:
  the contracts that decide what a manifest, a record and a request are, the registry that holds
  services, claims and audit rows, the use cases that run on it, and the coordinator that drives a
  materialise or evolve command to its end. All file names are under \<open>src/src/aipcs_mcp\<close>.

  The program. A client seeds a service and designs it with a manifest (\<open>application/services.py\<close>).
  The manifest (\<open>manifest_v2.py\<close>) compiles to a relational specification and a successor manifest
  is classified as an additive transition or refused (\<open>relational.py\<close>); the same manifest compiles
  to the contract its records are validated against (\<open>records.py\<close>). Materialise and evolve
  commands become immutable intents with a fingerprint (\<open>lifecycle.py\<close>); suspend, resume, archive
  and restore, and export, import and purge, have intents of their own
  (\<open>application/operational_lifecycle.py\<close>, \<open>application/registry_authority.py\<close>). Every request
  holds one row of a shared claim ledger under its principal and idempotency key; the repository
  methods of \<open>storage/sqlite/uow.py\<close> admit it, finish it, or mark it for recovery, in one
  transaction each. \<open>lifecycle_coordinator.py\<close> admits a command in one transaction, observes and
  changes the physical store in a bounded loop, and finishes in a second transaction; a crash
  between the two leaves a prepared claim that the same request picks up again.

  Conventions. A Python string is a list of code points (\<open>pystr\<close>), a UUID a 128-bit word, a time an
  integer, an \<open>int\<close> field an \<open>int\<close> or \<open>nat\<close> with its bounds written out. A constructor that
  validates is a function into a sum: \<open>construct\<close> runs the guards in the order of the code and
  returns the first error. A repository method is a function from the registry tables to a
  storage error or a result, and the tables it leaves; the unit of work decides what is kept. The
  runtime parameter \<open>rt\<close> carries what the standard library computes and the code only relies on:
  the SHA-256 digest of a canonical document, the printable and reserved-word predicates and the
  rounding of numbers. Its assumptions are named in \<open>Values\<close> (\<open>runtime_ok\<close>), and
  \<open>ascii_runtime\<close> meets them. Canonical JSON is the document value it serialises.

  Theories, in the order of their imports.

  \<open>Prelude\<close>, \<open>Values\<close>, \<open>Digraph\<close>, \<open>Phases\<close>: strings, UUIDs, guards, JSON values and the exact
  numeric domain (\<open>numeric_domain.py\<close>); reachability in finite graphs; the locale of values that
  change phase once.

  \<open>Manifest\<close>, \<open>Manifest_Spec\<close>: \<open>manifest_v2.py\<close>, every validator in the order of the code, and the
  declarative specification it is equivalent to; the cycle search is the depth-first
  visit of the code and terminates because every call marks a new entity. \<open>Relational\<close>, \<open>Relational_Compile\<close>, \<open>Transition\<close>,
  \<open>Transition_Spec\<close>: \<open>relational.py\<close>, compilation and classification, with the specification of
  additive transitions. \<open>Records\<close>, \<open>Records_Spec\<close>: the contract part of \<open>records.py\<close>. \<open>Sample\<close>
  has the manifests of the witnesses, \<open>Manifest_Properties\<close> the properties.

  \<open>Lifecycle\<close>, \<open>Operational\<close>, \<open>Authority\<close>: the three families of commands and intents, with the
  recovery planner \<open>plan_recovery\<close>; \<open>Lifecycle_Spec\<close> and \<open>Lifecycle_Properties\<close> their facts.

  \<open>Service_Model\<close>: \<open>application/models.py\<close> and the service codec. \<open>Registry\<close>: the tables of the R4
  schema of \<open>storage/sqlite/migrations.py\<close> with their CHECK and UNIQUE constraints, and the
  repositories of services, claims of seed and design, and audit rows. \<open>Ledger\<close>: the lifecycle
  claims of \<open>uow.py\<close> (\<open>resolve_or_admit\<close>, \<open>finalize_completed\<close>, \<open>finalize_recovery_required\<close>).
  \<open>Ledger_Authority\<close>: the shared claim authority (\<open>resolve_or_prepare\<close>, \<open>finalize_operational\<close>,
  \<open>complete_export\<close>, \<open>publish_import\<close>, \<open>finalize_purge\<close>, \<open>mark_recovery_required\<close>).
  \<open>Registry_Inv\<close>, \<open>Registry_Services\<close>, \<open>Registry_Keeps\<close>, \<open>Ledger_Inv\<close>, \<open>Authority_Inv\<close>,
  \<open>Finalize_Inv\<close>: the invariant of the tables, kept by each method, and the step relation
  \<open>registry_step\<close> with one rule per method. \<open>Ledger_History\<close>: how claims and identities evolve over
  sequences of steps. \<open>Ledger_Replay\<close>, \<open>Ledger_Admission\<close>, \<open>Ledger_Effects\<close>: the locale of
  replayable requests and its interpretations for admission, finalization and recovery, when a
  request is admitted, and what a finalization writes. \<open>Registry_Sample\<close> is a concrete history,
  \<open>Registry_Properties\<close> the properties.

  \<open>Services\<close>, \<open>Services_Spec\<close>, \<open>Services_Properties\<close>: \<open>application/services.py\<close> over the unit of
  work of \<open>uow.py\<close>: the committed tables, the tables the connection works on, and whether it is
  finished. The repository methods change the working tables, \<open>uow_commit\<close> is a step of the body
  where the code has it, and rollback and close only discard; that a failed request leaves no trace
  is proved from the place of the commit (\<open>commits_last\<close>). What the environment decides (whether the
  factory, the clock, the identifiers, the commit, the rollback and the close succeed, and whether
  a commit that raised was durable) is the record \<open>session\<close>. \<open>seed_recorded\<close> and
  \<open>design_recorded\<close> say which tables a successful request leaves.

  \<open>Coordinator\<close>: \<open>lifecycle_coordinator.py\<close> over a record of ports, each a function of a world. The
  loop terminates because every iteration attempts a new action or uses up the one
  reconciliation (\<open>loop_rank\<close>); no fuel is needed. \<open>Coordinator_Spec\<close> has the two calculi of runs,
  \<open>moves\<close> for relations every port respects and \<open>yields\<close> for what a completed result rests on.
  \<open>Coordinator_Registry\<close>: attempts are histories of the registry and completed results are
  recorded, over ports that other processes may interleave with. \<open>Coordinator_Actions\<close>: at most
  one schema change, and none reported that was not read ready. \<open>Coordinator_Progress\<close>: honest
  ports lead to completion. \<open>Coordinator_Properties\<close>: the properties, on a laboratory world.

  Hypotheses on the ports. \<open>sound_ports\<close>: the tables change between the coordinator's own
  transactions only by registry methods, a begun transaction sees the committed tables, and a
  commit that returns wrote them; \<open>counts_changes\<close>: only the two schema operations change a domain
  schema; \<open>sole_ports\<close> and \<open>never_ready\<close> describe a registry nobody else writes and a store that
  never shows the target; \<open>honest_ports\<close>: the contract of \<open>docs/storage-contracts.md\<close>, where a
  migration takes an empty, exact predecessor, exactly prepared or ready store to the ready state
  and refuses a generic dirty or altered one, and a materialisation needs a ready store without
  tables or with those of its target. The laboratory world of \<open>Coordinator_Properties\<close> satisfies
  them.

  Modelled with its difference. The design of a service accepts every seeded revision while its
  replay accepts only revision two: \<open>design_retry_exact\<close> states both answers.

  Not modelled: the SQL text, connections, files, sidecar journals and DDL of the two backends
  (a statement is its effect on the tables; the PostgreSQL unit of work is the second provider of
  the same contract); the domain schema and record stores behind the ports; the portable archive
  codec and its coordinator; discovery; administration, configuration, transport and the command
  line; the cursor and page values of \<open>records.py\<close>; and the repository's scripts. The bytes of
  SHA-256 and of JSON text are the runtime's: distinct documents are not assumed to have distinct
  digests, and no property needs it.
\<close>

end
